(* ===== verification/Prelude.thy ===== *)
theory Prelude
  imports
    Main
    "HOL-Library.List_Lexorder"
    "HOL-Library.Char_ord"
    "HOL-Library.Product_Lexorder"
    "HOL-Library.Option_ord"
    "HOL-Library.Multiset"
begin

text \<open>
  Shared vocabulary of the development: the types that name the values the backend passes
  around, the parts of Python's string and path library that the code uses, the row operations
  of a database table, and the lemmas about them that every component shares.

  A Python string that the code measures, splits or compares by prefix is a list of Unicode code
  points (\<open>pystr\<close>); identifiers, hex digests and fixed codes that are only compared are
  HOL strings. A \<open>uuid\<close> is a natural number, a point in time an integer count of
  microseconds.
\<close>

section \<open>Types and collections\<close>

type_synonym pystr = "nat list"
type_synonym uuid = nat
type_synonym time = int

text \<open>\<open>rows\<close> collects the facts on table operations, \<open>text_facts\<close> those on strings.\<close>

named_theorems rows
named_theorems text_facts

section \<open>Python strings\<close>

text \<open>A literal of the source as a list of code points.\<close>

definition py :: "string \<Rightarrow> pystr" where
  "py s = map of_char s"

fun cp_bytes :: "nat \<Rightarrow> nat" where
  "cp_bytes c = (if c < 128 then 1 else if c < 2048 then 2 else if c < 65536 then 3 else 4)"

text \<open>\<open>len(s.encode("utf-8"))\<close>.\<close>

definition utf8_len :: "pystr \<Rightarrow> nat" where
  "utf8_len s = sum_list (map cp_bytes s)"

lemma utf8_len_Nil [simp, text_facts]: "utf8_len [] = 0"
  by (simp add: utf8_len_def)

lemma utf8_len_append [simp, text_facts]: "utf8_len (s @ t) = utf8_len s + utf8_len t"
  by (simp add: utf8_len_def)

lemma utf8_len_Cons [text_facts]: "utf8_len (c # s) = cp_bytes c + utf8_len s"
  by (simp add: utf8_len_def)

lemma cp_bytes_pos: "0 < cp_bytes c"
  by simp

lemma length_le_utf8_len: "length s \<le> utf8_len s"
proof (induction s)
  case (Cons c s)
  then show ?case
    using cp_bytes_pos [of c] by (simp add: utf8_len_def del: cp_bytes.simps)
qed simp

lemma utf8_len_zero [simp, text_facts]: "utf8_len s = 0 \<longleftrightarrow> s = []"
  using length_le_utf8_len [of s] by auto

definition is_line_break :: "nat \<Rightarrow> bool" where
  "is_line_break c \<longleftrightarrow> c \<in> {10, 11, 12, 13, 28, 29, 30, 133, 8232, 8233}"

text \<open>\<open>str.splitlines()\<close>; the accumulator holds the current line in reverse.\<close>

fun splitlines_aux :: "pystr \<Rightarrow> pystr \<Rightarrow> pystr list" where
  "splitlines_aux cur [] = (if cur = [] then [] else [rev cur])"
| "splitlines_aux cur (c # rest) =
     (if is_line_break c
      then rev cur # splitlines_aux [] (if c = 13 \<and> rest \<noteq> [] \<and> hd rest = 10 then tl rest else rest)
      else splitlines_aux (c # cur) rest)"

definition splitlines :: "pystr \<Rightarrow> pystr list" where
  "splitlines s = splitlines_aux [] s"

fun join :: "pystr \<Rightarrow> pystr list \<Rightarrow> pystr" where
  "join sep [] = []"
| "join sep [x] = x"
| "join sep (x # y # xs) = x @ sep @ join sep (y # xs)"

lemma join_Cons: "join sep (x # xs) = (if xs = [] then x else x @ sep @ join sep xs)"
  by (cases xs) auto

lemma join_append:
  "join sep (xs @ ys) =
     (if xs = [] then join sep ys else if ys = [] then join sep xs
      else join sep xs @ sep @ join sep ys)"
  by (induction xs) (auto simp: join_Cons)

lemma join_eq_Nil: "sep \<noteq> [] \<Longrightarrow> join sep xs = [] \<longleftrightarrow> xs = [] \<or> xs = [[]]"
  by (cases xs) (auto simp: join_Cons)

text \<open>\<open>s.split(sep)\<close> for a one-character separator: never empty.\<close>

fun split_on :: "nat \<Rightarrow> pystr \<Rightarrow> pystr list" where
  "split_on sep [] = [[]]"
| "split_on sep (c # s) =
     (if c = sep then [] # split_on sep s
      else (case split_on sep s of [] \<Rightarrow> [[c]] | w # ws \<Rightarrow> (c # w) # ws))"

lemma split_on_nonempty [simp]: "split_on sep s \<noteq> []"
  by (induction s) (auto split: list.splits)

lemma join_split_on: "join [sep] (split_on sep s) = s"
proof (induction s)
  case (Cons c s)
  obtain w ws where w: "split_on sep s = w # ws"
    by (cases "split_on sep s") auto
  with Cons show ?case by (auto simp: join_Cons split: if_splits)
qed simp

lemma split_on_no_sep: "w \<in> set (split_on sep s) \<Longrightarrow> sep \<notin> set w"
proof (induction s arbitrary: w)
  case (Cons c s)
  show ?case
  proof (cases "split_on sep s")
    case Nil
    then show ?thesis by simp
  next
    case (Cons v vs)
    with Cons.prems Cons.IH show ?thesis
      by (auto split: if_splits)
  qed
qed simp

lemma split_on_single: "sep \<notin> set s \<Longrightarrow> split_on sep s = [s]"
  by (induction s) auto

lemma split_on_append:
  "sep \<notin> set a \<Longrightarrow> split_on sep (a @ sep # b) = a # split_on sep b"
  by (induction a) auto

text \<open>\<open>str.strip()\<close> and the white space it removes.\<close>

definition is_space :: "nat \<Rightarrow> bool" where
  "is_space c \<longleftrightarrow>
     9 \<le> c \<and> c \<le> 13 \<or> 28 \<le> c \<and> c \<le> 32 \<or> 8192 \<le> c \<and> c \<le> 8202
     \<or> c \<in> {133, 160, 5760, 8232, 8233, 8239, 8287, 12288}"

definition strip :: "pystr \<Rightarrow> pystr" where
  "strip s = rev (dropWhile is_space (rev (dropWhile is_space s)))"

definition blank_line :: "pystr \<Rightarrow> bool" where
  "blank_line s \<longleftrightarrow> strip s = []"

lemma blank_line_iff: "blank_line s \<longleftrightarrow> (\<forall>c \<in> set s. is_space c)"
proof -
  have "strip s = [] \<longleftrightarrow> (\<forall>c \<in> set (dropWhile is_space s). is_space c)"
    by (simp add: strip_def)
  also have "\<dots> \<longleftrightarrow> (\<forall>c \<in> set s. is_space c)"
  proof
    assume *: "\<forall>c \<in> set (dropWhile is_space s). is_space c"
    have "dropWhile is_space s = []"
    proof (rule ccontr)
      assume "dropWhile is_space s \<noteq> []"
      with * hd_dropWhile [of is_space s] show False by auto
    qed
    then show "\<forall>c \<in> set s. is_space c" by simp
  next
    assume "\<forall>c \<in> set s. is_space c"
    then show "\<forall>c \<in> set (dropWhile is_space s). is_space c"
      by (auto dest: set_dropWhileD)
  qed
  finally show ?thesis by (simp add: blank_line_def)
qed

text \<open>
  \<open>str.lower()\<close> as far as a comparison with ASCII text can see it: besides the capital letters
  only the Kelvin sign U+212A lowers to a single ASCII character.
\<close>

definition lower_cp :: "nat \<Rightarrow> nat" where
  "lower_cp c = (if 65 \<le> c \<and> c \<le> 90 then c + 32 else if c = 8490 then 107 else c)"

definition lower :: "pystr \<Rightarrow> pystr" where
  "lower s = map lower_cp s"

text \<open>\<open>s.rpartition(c)[0]\<close>: everything before the last separator, empty when there is none.\<close>

definition rpartition_head :: "nat \<Rightarrow> pystr \<Rightarrow> pystr" where
  "rpartition_head c s =
     (if c \<in> set s then rev (tl (dropWhile (\<lambda>x. x \<noteq> c) (rev s))) else [])"

lemma rpartition_head_shorter: "s \<noteq> [] \<Longrightarrow> length (rpartition_head c s) < length s"
proof -
  assume "s \<noteq> []"
  moreover have "length (dropWhile (\<lambda>x. x \<noteq> c) (rev s)) \<le> length s"
    by (metis length_dropWhile_le length_rev)
  ultimately show ?thesis
    by (auto simp: rpartition_head_def) (metis One_nat_def diff_less le_eq_less_or_eq length_greater_0_conv less_imp_diff_less less_numeral_extra(1))
qed

lemma rpartition_head_append:
  assumes "c \<notin> set b"
  shows "rpartition_head c (a @ c # b) = a"
proof -
  have "dropWhile (\<lambda>x. x \<noteq> c) (rev b @ c # rev a) = c # rev a"
    using assms by (subst dropWhile_append2) auto
  then show ?thesis by (simp add: rpartition_head_def)
qed

definition starts_with :: "pystr \<Rightarrow> pystr \<Rightarrow> bool" where
  "starts_with s p \<longleftrightarrow> take (length p) s = p"

definition ends_with :: "pystr \<Rightarrow> pystr \<Rightarrow> bool" where
  "ends_with s p \<longleftrightarrow> length p \<le> length s \<and> drop (length s - length p) s = p"

section \<open>PurePosixPath\<close>

text \<open>
  Parsing drops empty and \<open>"."\<close> components but keeps \<open>".."\<close>; exactly two leading slashes are a
  root of their own. The baseline is Python 3.13.
\<close>

definition path_root :: "pystr \<Rightarrow> pystr" where
  "path_root s =
     (if s = [] \<or> hd s \<noteq> 47 then []
      else if starts_with s [47, 47] \<and> \<not> starts_with s [47, 47, 47] then [47, 47] else [47])"

definition path_names :: "pystr \<Rightarrow> pystr list" where
  "path_names s = filter (\<lambda>w. w \<noteq> [] \<and> w \<noteq> [46]) (split_on 47 s)"

definition path_parts :: "pystr \<Rightarrow> pystr list" where
  "path_parts s = (if path_root s = [] then path_names s else path_root s # path_names s)"

definition path_is_absolute :: "pystr \<Rightarrow> bool" where
  "path_is_absolute s \<longleftrightarrow> path_root s \<noteq> []"

definition path_name :: "pystr \<Rightarrow> pystr" where
  "path_name s = (if path_names s = [] then [] else last (path_names s))"

text \<open>The position of the last dot of a name, if it is neither first nor last in it.\<close>

definition inner_dot :: "pystr \<Rightarrow> nat option" where
  "inner_dot n =
     (let after = length (takeWhile (\<lambda>c. c \<noteq> 46) (rev n)) in
      if 46 \<in> set n \<and> 0 < after \<and> after + 1 < length n then Some (length n - after - 1) else None)"

definition path_suffix :: "pystr \<Rightarrow> pystr" where
  "path_suffix s =
     (case inner_dot (path_name s) of None \<Rightarrow> [] | Some i \<Rightarrow> drop i (path_name s))"

definition path_stem :: "pystr \<Rightarrow> pystr" where
  "path_stem s =
     (case inner_dot (path_name s) of None \<Rightarrow> path_name s | Some i \<Rightarrow> take i (path_name s))"

lemma path_relative_iff: "\<not> path_is_absolute s \<longleftrightarrow> s = [] \<or> hd s \<noteq> 47"
  by (auto simp: path_is_absolute_def path_root_def)

section \<open>Counters\<close>

text \<open>
  A \<open>Counter\<close> is an association list in the order of first insertion, and
  \<open>dict(sorted(counts.items()))\<close> sorts it by key.
\<close>

type_synonym counter = "(string \<times> nat) list"

fun bump :: "string \<Rightarrow> nat \<Rightarrow> counter \<Rightarrow> counter" where
  "bump k n [] = [(k, n)]"
| "bump k n ((k', m) # c) = (if k = k' then (k', m + n) # c else (k', m) # bump k n c)"

definition counter_get :: "counter \<Rightarrow> string \<Rightarrow> nat" where
  "counter_get c k = (case map_of c k of None \<Rightarrow> 0 | Some n \<Rightarrow> n)"

definition counter_total :: "counter \<Rightarrow> nat" where
  "counter_total c = sum_list (map snd c)"

definition sorted_items :: "counter \<Rightarrow> counter" where
  "sorted_items c = sort_key fst c"

text \<open>\<open>counter.update(iterable)\<close>.\<close>

definition bump_all :: "string list \<Rightarrow> counter \<Rightarrow> counter" where
  "bump_all ks c = fold (\<lambda>k. bump k 1) ks c"

lemma counter_total_Nil [simp]: "counter_total [] = 0"
  by (simp add: counter_total_def)

lemma counter_total_bump [simp]: "counter_total (bump k n c) = counter_total c + n"
  by (induction k n c rule: bump.induct) (auto simp: counter_total_def)

lemma counter_total_bump_all [simp]: "counter_total (bump_all ks c) = counter_total c + length ks"
  by (induction ks arbitrary: c) (auto simp: bump_all_def)

lemma keys_bump: "fst ` set (bump k n c) = insert k (fst ` set c)"
  by (induction k n c rule: bump.induct) auto

lemma distinct_keys_bump: "distinct (map fst c) \<Longrightarrow> distinct (map fst (bump k n c))"
  by (induction k n c rule: bump.induct) (auto simp: keys_bump [simplified image_def] keys_bump)

lemma counter_get_bump:
  "counter_get (bump k n c) q = (if q = k then counter_get c k + n else counter_get c q)"
  by (induction k n c rule: bump.induct) (auto simp: counter_get_def)

lemma counter_total_sorted_items [simp]: "counter_total (sorted_items c) = counter_total c"
  unfolding counter_total_def sorted_items_def
  by (metis mset_map mset_sort sum_mset_sum_list)

lemma sorted_items_sorted: "sorted (map fst (sorted_items c))"
  by (simp add: sorted_items_def)

lemma map_of_filter_key: "map_of (filter (\<lambda>p. fst p = k) c) k = map_of c k"
  by (induction c) auto

lemma counter_get_sorted_items [simp]: "counter_get (sorted_items c) k = counter_get c k"
  unfolding counter_get_def sorted_items_def
  by (metis map_of_filter_key sort_key_stable)

section \<open>Tables\<close>

text \<open>
  A table is the list of its rows in heap order. A statement selects by a predicate; a theorem
  over every list covers every order in which the database may return the rows.
\<close>

definition update_where :: "('r \<Rightarrow> bool) \<Rightarrow> ('r \<Rightarrow> 'r) \<Rightarrow> 'r list \<Rightarrow> 'r list" where
  "update_where P f rs = map (\<lambda>r. if P r then f r else r) rs"

definition delete_where :: "('r \<Rightarrow> bool) \<Rightarrow> 'r list \<Rightarrow> 'r list" where
  "delete_where P rs = filter (\<lambda>r. \<not> P r) rs"

definition select_first :: "('r \<Rightarrow> bool) \<Rightarrow> 'r list \<Rightarrow> 'r option" where
  "select_first P rs = List.find P rs"

lemma select_first_SomeD [rows]: "select_first P rs = Some r \<Longrightarrow> r \<in> set rs \<and> P r"
  by (auto simp: select_first_def find_Some_iff)

lemma select_first_None [rows]: "select_first P rs = None \<longleftrightarrow> (\<forall>r \<in> set rs. \<not> P r)"
  by (auto simp: select_first_def find_None_iff)

lemma set_update_where [rows]:
  "set (update_where P f rs) = (\<lambda>r. if P r then f r else r) ` set rs"
  by (simp add: update_where_def)

lemma set_delete_where [rows]: "set (delete_where P rs) = {r \<in> set rs. \<not> P r}"
  by (simp add: delete_where_def)

lemma update_where_none: "(\<forall>r \<in> set rs. \<not> P r) \<Longrightarrow> update_where P f rs = rs"
  by (auto simp: update_where_def intro: map_idI)

lemma length_update_where [simp]: "length (update_where P f rs) = length rs"
  by (simp add: update_where_def)

lemma map_update_where:
  "(\<And>r. r \<in> set rs \<Longrightarrow> P r \<Longrightarrow> g (f r) = g r) \<Longrightarrow> map g (update_where P f rs) = map g rs"
  by (auto simp: update_where_def)

lemma update_where_cases:
  assumes "r \<in> set (update_where P f rs)"
  obtains (old) "r \<in> set rs" "\<not> P r" | (new) r0 where "r0 \<in> set rs" "P r0" "r = f r0"
  using assms by (auto simp: set_update_where split: if_splits)

text \<open>A row loaded by the mapper and changed is written back by its primary key.\<close>

definition save_row :: "('r \<Rightarrow> 'k) \<Rightarrow> 'k \<Rightarrow> ('r \<Rightarrow> 'r) \<Rightarrow> 'r list \<Rightarrow> 'r list" where
  "save_row key k f rs = update_where (\<lambda>r. key r = k) f rs"

lemma distinct_key_unique:
  "distinct (map key rs) \<Longrightarrow> r \<in> set rs \<Longrightarrow> r' \<in> set rs \<Longrightarrow> key r = key r' \<Longrightarrow> r = r'"
  by (auto simp: distinct_map dest: inj_onD)

lemma select_first_key:
  assumes "distinct (map key rs)" and "r \<in> set rs" and "P r"
    and "\<And>r'. P r' \<Longrightarrow> key r' = key r"
  shows "select_first P rs = Some r"
proof (cases "select_first P rs")
  case None
  with assms(2,3) show ?thesis by (auto simp: select_first_None)
next
  case (Some r')
  then have "r' \<in> set rs" and "P r'" by (auto dest: select_first_SomeD)
  with assms have "r' = r" by (metis distinct_key_unique)
  with Some show ?thesis by simp
qed

section \<open>Time\<close>

text \<open>\<open>column IS NULL OR column <= now\<close>.\<close>

definition due_by :: "time option \<Rightarrow> time \<Rightarrow> bool" where
  "due_by t now \<longleftrightarrow> (case t of None \<Rightarrow> True | Some u \<Rightarrow> u \<le> now)"

text \<open>\<open>column IS NULL OR column < cutoff\<close>.\<close>

definition older_than :: "time option \<Rightarrow> time \<Rightarrow> bool" where
  "older_than t cutoff \<longleftrightarrow> (case t of None \<Rightarrow> True | Some u \<Rightarrow> u < cutoff)"

definition seconds :: "nat \<Rightarrow> time" where
  "seconds n = 1000000 * int n"

definition milliseconds :: "nat \<Rightarrow> time" where
  "milliseconds n = 1000 * int n"

section \<open>Invariants of step relations\<close>

text \<open>
  The interface between a component and its invariants: whatever holds of the initial states and
  is kept by every step holds of every state a run reaches.
\<close>

locale step_invariant =
  fixes init :: "'s \<Rightarrow> bool"
    and step :: "'s \<Rightarrow> 's \<Rightarrow> bool"
    and inv :: "'s \<Rightarrow> bool"
  assumes init_inv: "init s \<Longrightarrow> inv s"
    and step_inv: "inv s \<Longrightarrow> step s t \<Longrightarrow> inv t"
begin

lemma steps_inv: "step\<^sup>*\<^sup>* s t \<Longrightarrow> inv s \<Longrightarrow> inv t"
  by (induction rule: rtranclp_induct) (auto intro: step_inv)

lemma reach_inv: "init s \<Longrightarrow> step\<^sup>*\<^sup>* s t \<Longrightarrow> inv t"
  by (blast intro: init_inv steps_inv)

end

end
