(* ===== verification/Models.thy ===== *)
theory Models
  imports Prelude
begin

text \<open>
  The data model of the indexing pipeline: the enumerations of \<^verbatim>\<open>backend/app/db/models/enums.py\<close>
  that its components use, with the string values the database and the fingerprints hold, the
  transient records of \<^verbatim>\<open>backend/app/indexing/models.py\<close>, and the classified failure of
  \<^verbatim>\<open>backend/app/indexing/failures.py\<close>.
\<close>

section \<open>Enumerations\<close>

datatype repository_access_mode = PUBLIC | GITHUB_INSTALLATION

datatype installation_status = INST_ACTIVE | INST_SUSPENDED | INST_DELETED

datatype github_account_type = ACCOUNT_USER | ACCOUNT_ORGANIZATION

datatype repository_selection = SELECTION_ALL | SELECTION_SELECTED

datatype installation_member_role = OWNER | MEMBER

datatype repository_indexing_status =
    NOT_INDEXED | R_QUEUED | CLONING | DISCOVERING | PARSING | EMBEDDING | BUILDING_GRAPH
  | FINALIZING | R_COMPLETE | R_FAILED | DELETING | ACCESS_REVOKED

datatype indexing_job_type =
  INITIAL_INDEX | MANUAL_REINDEX | INCREMENTAL_REINDEX | FULL_REBUILD | DELETE_REPOSITORY

datatype indexing_job_status = QUEUED | RUNNING | RETRYING | COMPLETE | FAILED | CANCELLED

datatype index_build_state = BUILDING | READY | ACTIVE | B_FAILED | B_SUPERSEDED

datatype index_cleanup_status = NOT_REQUIRED | PENDING | CLEANED

datatype confidence = HIGH | MEDIUM | LOW

datatype symbol_type = FUNCTION | ASYNC_FUNCTION | CLASS | METHOD | MODULE

datatype resolution_type =
    EXACT_SAME_FILE | EXACT_DIRECT_IMPORT | QUALIFIED_MODULE | PROBABLE_METHOD | AMBIGUOUS
  | UNRESOLVED

datatype webhook_delivery_status =
    W_RECEIVED | W_QUEUED | W_PROCESSING | W_PROCESSED | W_COMPLETED | W_STALE | W_SUPERSEDED
  | W_UNAUTHORIZED | W_RETRYABLE | W_IGNORED | W_FAILED

datatype indexing_mode = INCREMENTAL | FULL

fun confidence_value :: "confidence \<Rightarrow> string" where
  "confidence_value HIGH = ''high''"
| "confidence_value MEDIUM = ''medium''"
| "confidence_value LOW = ''low''"

fun resolution_value :: "resolution_type \<Rightarrow> string" where
  "resolution_value EXACT_SAME_FILE = ''exact_same_file''"
| "resolution_value EXACT_DIRECT_IMPORT = ''exact_direct_import''"
| "resolution_value QUALIFIED_MODULE = ''qualified_module''"
| "resolution_value PROBABLE_METHOD = ''probable_method''"
| "resolution_value AMBIGUOUS = ''ambiguous''"
| "resolution_value UNRESOLVED = ''unresolved''"

fun delivery_status_value :: "webhook_delivery_status \<Rightarrow> string" where
  "delivery_status_value W_RECEIVED = ''received''"
| "delivery_status_value W_QUEUED = ''queued''"
| "delivery_status_value W_PROCESSING = ''processing''"
| "delivery_status_value W_PROCESSED = ''processed''"
| "delivery_status_value W_COMPLETED = ''completed''"
| "delivery_status_value W_STALE = ''stale''"
| "delivery_status_value W_SUPERSEDED = ''superseded''"
| "delivery_status_value W_UNAUTHORIZED = ''unauthorized''"
| "delivery_status_value W_RETRYABLE = ''retryable''"
| "delivery_status_value W_IGNORED = ''ignored''"
| "delivery_status_value W_FAILED = ''failed''"

section \<open>Parsing and chunking records\<close>

datatype parse_status = PS_COMPLETE | PS_PARTIAL | PS_MALFORMED | PS_SKIPPED

datatype parameter_kind =
  POSITIONAL_ONLY | POSITIONAL_OR_KEYWORD | VAR_POSITIONAL | KEYWORD_ONLY | VAR_KEYWORD

datatype chunk_type =
    CT_FUNCTION | CT_ASYNC_FUNCTION | CT_METHOD | CT_CLASS_OVERVIEW | CT_MODULE | CT_MARKDOWN
  | CT_DOCUMENTATION

fun chunk_type_value :: "chunk_type \<Rightarrow> string" where
  "chunk_type_value CT_FUNCTION = ''function''"
| "chunk_type_value CT_ASYNC_FUNCTION = ''async_function''"
| "chunk_type_value CT_METHOD = ''method''"
| "chunk_type_value CT_CLASS_OVERVIEW = ''class_overview''"
| "chunk_type_value CT_MODULE = ''module''"
| "chunk_type_value CT_MARKDOWN = ''markdown''"
| "chunk_type_value CT_DOCUMENTATION = ''documentation''"

record source_segment =
  seg_text :: pystr
  seg_start_line :: nat
  seg_end_line :: nat
  seg_node_type :: string

record import_alias =
  ia_name :: pystr
  ia_alias :: "pystr option"

record parsed_import =
  imp_module :: "pystr option"
  imp_relative_level :: nat
  imp_names :: "import_alias list"
  imp_source_text :: pystr
  imp_start_line :: nat
  imp_end_line :: nat

record parsed_parameter =
  par_name :: pystr
  par_kind :: parameter_kind
  par_annotation :: "pystr option"
  par_default :: "pystr option"

record parsed_symbol =
  sym_file_path :: pystr
  sym_language :: string
  sym_symbol_type :: symbol_type
  sym_name :: pystr
  sym_is_async :: bool
  sym_qualified_name :: pystr
  sym_parent_qualified_name :: "pystr option"
  sym_decorators :: "pystr list"
  sym_signature :: pystr
  sym_header_text :: pystr
  sym_header_start_line :: nat
  sym_header_end_line :: nat
  sym_parameters :: "parsed_parameter list"
  sym_return_annotation :: "pystr option"
  sym_docstring :: "pystr option"
  sym_source_text :: pystr
  sym_body_segments :: "source_segment list"
  sym_start_line :: nat
  sym_end_line :: nat
  sym_commit_sha :: string
  sym_content_hash :: string

record parsed_call_site =
  site_file_path :: pystr
  site_module_name :: pystr
  site_caller_qualified_name :: pystr
  site_expression :: pystr
  site_start_line :: nat
  site_end_line :: nat
  site_start_column :: nat

record parsed_file =
  pf_file_path :: pystr
  pf_language :: string
  pf_module_name :: pystr
  pf_source_text :: pystr
  pf_imports :: "parsed_import list"
  pf_module_docstring :: "pystr option"
  pf_module_segments :: "source_segment list"
  pf_symbols :: "parsed_symbol list"
  pf_call_sites :: "parsed_call_site list"
  pf_commit_sha :: string
  pf_parse_status :: parse_status
  pf_warnings :: "string list"

record content_chunk =
  ck_repository_id :: uuid
  ck_index_version :: nat
  ck_ordinal :: nat
  ck_file_path :: pystr
  ck_language :: string
  ck_chunk_type :: chunk_type
  ck_symbol_name :: "pystr option"
  ck_qualified_name :: "pystr option"
  ck_parent_qualified_name :: "pystr option"
  ck_heading_hierarchy :: "pystr list"
  ck_imports :: "pystr list"
  ck_decorators :: "pystr list"
  ck_signature :: "pystr option"
  ck_docstring :: "pystr option"
  ck_start_line :: nat
  ck_end_line :: nat
  ck_commit_sha :: string
  ck_content_hash :: string
  ck_content :: pystr

record symbol_record =
  sr_file_path :: pystr
  sr_language :: string
  sr_symbol_type :: symbol_type
  sr_symbol_name :: pystr
  sr_qualified_name :: pystr
  sr_start_line :: nat
  sr_end_line :: nat
  sr_content_hash :: string
  sr_commit_sha :: string

record chunk_fingerprint =
  cf_ordinal :: nat
  cf_file_path :: pystr
  cf_chunk_type :: chunk_type
  cf_qualified_name :: "pystr option"
  cf_start_line :: nat
  cf_end_line :: nat
  cf_content_hash :: string

record call_edge_record =
  ce_id :: uuid
  ce_caller_symbol_id :: uuid
  ce_callee_symbol_id :: "uuid option"
  ce_unresolved_callee_name :: "pystr option"
  ce_file_path :: pystr
  ce_call_line :: nat
  ce_call_end_line :: nat
  ce_call_expression :: pystr
  ce_call_site_fingerprint :: string
  ce_resolution_type :: resolution_type
  ce_confidence :: confidence
  ce_commit_sha :: string

record processing_result =
  pr_repository_id :: uuid
  pr_index_version :: nat
  pr_commit_sha :: string
  pr_parsed_file_count :: nat
  pr_partial_file_count :: nat
  pr_skipped_file_count :: nat
  pr_symbol_count :: nat
  pr_chunk_count :: nat
  pr_warning_counts :: counter
  pr_symbols :: "symbol_record list"
  pr_chunk_fingerprints :: "chunk_fingerprint list"
  pr_chunks :: "content_chunk list"
  pr_call_site_count :: nat
  pr_exact_edge_count :: nat
  pr_ambiguous_edge_count :: nat
  pr_unresolved_call_count :: nat
  pr_graph_warning_count :: nat
  pr_graph_fingerprint :: string
  pr_call_edges :: "call_edge_record list"

section \<open>Failures\<close>

text \<open>
  \<open>IndexingError(code, message, retryable)\<close>, and the exceptions that reach the worker's
  catch-all handler: a \<open>RuntimeError\<close> of the store and a constraint violation of the database.
\<close>

datatype indexing_error =
    IndexingError (err_code: string) (err_message: string) (err_retryable: bool)
  | InternalError string

text \<open>The order of chunk types is that of their string values, as in the sort keys of the code.\<close>

lemma chunk_type_value_inject: "chunk_type_value a = chunk_type_value b \<longleftrightarrow> a = b"
  by (cases a; cases b) simp_all

instantiation chunk_type :: linorder
begin

definition less_eq_chunk_type :: "chunk_type \<Rightarrow> chunk_type \<Rightarrow> bool" where
  "less_eq_chunk_type a b \<longleftrightarrow> chunk_type_value a \<le> chunk_type_value b"

definition less_chunk_type :: "chunk_type \<Rightarrow> chunk_type \<Rightarrow> bool" where
  "less_chunk_type a b \<longleftrightarrow> chunk_type_value a < chunk_type_value b"

instance
  by standard
    (auto simp: less_eq_chunk_type_def less_chunk_type_def chunk_type_value_inject
      dest: order.antisym)

end

end
