(* ===== verification/Freshness.thy ===== *)
theory Freshness
  imports Models
begin

text \<open>
  Freshness planning: \<^verbatim>\<open>backend/app/indexing/freshness.py\<close>, with the comparison schema of
  \<^verbatim>\<open>backend/app/github/schemas.py\<close> whose validated values it receives. Classifying a
  comparison either raises \<open>ValueError\<close> (\<open>Inl\<close> with its message) or yields the changed paths.
\<close>

section \<open>The comparison schema\<close>

datatype compare_file_status = ADDED | MODIFIED | REMOVED | RENAMED | COPIED | CHANGED

fun file_status_value :: "compare_file_status \<Rightarrow> string" where
  "file_status_value ADDED = ''added''"
| "file_status_value MODIFIED = ''modified''"
| "file_status_value REMOVED = ''removed''"
| "file_status_value RENAMED = ''renamed''"
| "file_status_value COPIED = ''copied''"
| "file_status_value CHANGED = ''changed''"

datatype comparison_status = AHEAD | BEHIND | DIVERGED | IDENTICAL

record compare_file =
  cmp_filename :: pystr
  cmp_previous_filename :: "pystr option"
  cmp_status :: compare_file_status
  cmp_changes :: nat

record commit_comparison =
  cc_status :: comparison_status
  cc_ahead_by :: nat
  cc_behind_by :: nat
  cc_total_commits :: nat
  cc_files :: "compare_file list"

text \<open>
  \<open>validate_compare_path\<close> with the length bounds of the field; 92 is the backslash, 47 the
  slash, 46 the dot, and 32 the limit of ASCII control characters.
\<close>

definition schema_path_ok :: "pystr \<Rightarrow> bool" where
  "schema_path_ok v \<longleftrightarrow>
     1 \<le> length v \<and> length v \<le> 4096
     \<and> \<not> (starts_with v [47] \<or> starts_with v [92])
     \<and> 92 \<notin> set v \<and> 0 \<notin> set v
     \<and> \<not> (\<exists>part \<in> set (split_on 47 v). part = [] \<or> part = [46] \<or> part = [46, 46])
     \<and> \<not> (\<exists>c \<in> set v. c < 32)"

definition schema_file_ok :: "compare_file \<Rightarrow> bool" where
  "schema_file_ok f \<longleftrightarrow>
     schema_path_ok (cmp_filename f)
     \<and> (case cmp_previous_filename f of None \<Rightarrow> True | Some p \<Rightarrow> schema_path_ok p)"

section \<open>Planning\<close>

definition MAX_REPOSITORY_PATH_BYTES :: nat where
  "MAX_REPOSITORY_PATH_BYTES = 4096"

record changed_file_set =
  target_paths :: "pystr set"
  removed_paths :: "pystr set"
  change_counts :: counter
  total_changes :: nat

record freshness_plan =
  actual_mode :: indexing_mode
  fallback_reason :: "string option"
  plan_changes :: changed_file_set

text \<open>\<open>_validate_path\<close>: \<open>True\<close> where the code returns, \<open>False\<close> where it raises.\<close>

definition path_valid :: "pystr \<Rightarrow> bool" where
  "path_valid v \<longleftrightarrow>
     \<not> (path_is_absolute v
        \<or> path_parts v = []
        \<or> MAX_REPOSITORY_PATH_BYTES < utf8_len v
        \<or> (\<exists>part \<in> set (path_parts v). part = [] \<or> part = [46] \<or> part = [46, 46])
        \<or> 0 \<in> set v
        \<or> 92 \<in> set v)"

definition empty_changes :: changed_file_set where
  "empty_changes =
     \<lparr>target_paths = {}, removed_paths = {}, change_counts = [], total_changes = 0\<rparr>"

definition compare_key :: "compare_file \<Rightarrow> pystr \<times> pystr \<times> string" where
  "compare_key f =
     (cmp_filename f, (case cmp_previous_filename f of None \<Rightarrow> [] | Some p \<Rightarrow> p),
      file_status_value (cmp_status f))"

text \<open>One round of the loop of \<open>classify_comparison\<close>.\<close>

definition classify_file :: "compare_file \<Rightarrow> changed_file_set \<Rightarrow> string + changed_file_set" where
  "classify_file f acc =
     (if \<not> path_valid (cmp_filename f) then Inl ''unsafe_comparison_path''
      else if (case cmp_previous_filename f of None \<Rightarrow> False | Some p \<Rightarrow> \<not> path_valid p)
      then Inl ''unsafe_comparison_path''
      else
        let acc = acc\<lparr>change_counts := bump (file_status_value (cmp_status f)) 1 (change_counts acc),
                      total_changes := total_changes acc + cmp_changes f\<rparr> in
        case cmp_status f of
          REMOVED \<Rightarrow> Inr (acc\<lparr>removed_paths := insert (cmp_filename f) (removed_paths acc)\<rparr>)
        | RENAMED \<Rightarrow>
            (case cmp_previous_filename f of
               None \<Rightarrow> Inl ''rename_missing_previous_path''
             | Some p \<Rightarrow> Inr (acc\<lparr>removed_paths := insert p (removed_paths acc),
                                 target_paths := insert (cmp_filename f) (target_paths acc)\<rparr>))
        | _ \<Rightarrow> Inr (acc\<lparr>target_paths := insert (cmp_filename f) (target_paths acc)\<rparr>))"

fun classify_loop :: "compare_file list \<Rightarrow> changed_file_set \<Rightarrow> string + changed_file_set" where
  "classify_loop [] acc = Inr acc"
| "classify_loop (f # fs) acc =
     (case classify_file f acc of Inl e \<Rightarrow> Inl e | Inr acc' \<Rightarrow> classify_loop fs acc')"

definition classify_comparison :: "commit_comparison \<Rightarrow> string + changed_file_set" where
  "classify_comparison c =
     (case classify_loop (sort_key compare_key (cc_files c)) empty_changes of
        Inl e \<Rightarrow> Inl e
      | Inr acc \<Rightarrow> Inr (acc\<lparr>change_counts := sorted_items (change_counts acc)\<rparr>))"

definition full_plan :: "string \<Rightarrow> changed_file_set \<Rightarrow> freshness_plan" where
  "full_plan reason ch = \<lparr>actual_mode = FULL, fallback_reason = Some reason, plan_changes = ch\<rparr>"

definition plan_refresh ::
  "commit_comparison option \<Rightarrow> bool \<Rightarrow> indexing_mode \<Rightarrow> nat \<Rightarrow> freshness_plan" where
  "plan_refresh comparison has_active_index requested_mode max_changed_files =
     (if \<not> has_active_index then full_plan ''missing_active_index'' empty_changes
      else if requested_mode = FULL then full_plan ''requested_full_rebuild'' empty_changes
      else case comparison of
        None \<Rightarrow> full_plan ''comparison_unavailable'' empty_changes
      | Some c \<Rightarrow>
          if cc_status c = BEHIND \<or> cc_status c = DIVERGED
          then full_plan ''non_fast_forward'' empty_changes
          else case classify_comparison c of
            Inl _ \<Rightarrow> full_plan ''unsafe_comparison'' empty_changes
          | Inr changes \<Rightarrow>
              if max_changed_files \<le> length (cc_files c)
              then full_plan ''comparison_file_limit'' changes
              else \<lparr>actual_mode = INCREMENTAL, fallback_reason = None, plan_changes = changes\<rparr>)"

section \<open>The classification against a declarative description\<close>

text \<open>What the loop rejects, file by file, and what it collects, independent of the order.\<close>

definition file_rejected :: "compare_file \<Rightarrow> bool" where
  "file_rejected f \<longleftrightarrow>
     \<not> path_valid (cmp_filename f)
     \<or> (\<exists>p. cmp_previous_filename f = Some p \<and> \<not> path_valid p)
     \<or> cmp_status f = RENAMED \<and> cmp_previous_filename f = None"

definition file_targets :: "compare_file \<Rightarrow> pystr set" where
  "file_targets f = (if cmp_status f = REMOVED then {} else {cmp_filename f})"

definition file_removals :: "compare_file \<Rightarrow> pystr set" where
  "file_removals f =
     (case cmp_status f of
        REMOVED \<Rightarrow> {cmp_filename f}
      | RENAMED \<Rightarrow> set_option (cmp_previous_filename f)
      | _ \<Rightarrow> {})"

lemma classify_file_rejects: "(\<exists>e. classify_file f acc = Inl e) \<longleftrightarrow> file_rejected f"
  by (auto simp: classify_file_def file_rejected_def Let_def
      split: option.splits compare_file_status.splits if_splits)

lemma classify_file_Inr:
  assumes "classify_file f acc = Inr acc'"
  shows "target_paths acc' = file_targets f \<union> target_paths acc"
    and "removed_paths acc' = file_removals f \<union> removed_paths acc"
    and "change_counts acc' = bump (file_status_value (cmp_status f)) 1 (change_counts acc)"
    and "total_changes acc' = total_changes acc + cmp_changes f"
  using assms
  by (auto simp: classify_file_def file_targets_def file_removals_def Let_def
      split: option.splits compare_file_status.splits if_splits)

lemma classify_loop_rejects:
  "(\<exists>e. classify_loop fs acc = Inl e) \<longleftrightarrow> (\<exists>f \<in> set fs. file_rejected f)"
proof (induction fs arbitrary: acc)
  case (Cons f fs)
  show ?case
  proof (cases "classify_file f acc")
    case (Inl e)
    then show ?thesis using classify_file_rejects [of f acc] by auto
  next
    case (Inr acc')
    then show ?thesis using classify_file_rejects [of f acc] Cons.IH [of acc'] by auto
  qed
qed simp

lemma classify_loop_Inr:
  assumes "classify_loop fs acc = Inr acc'"
  shows "target_paths acc' = (\<Union>f \<in> set fs. file_targets f) \<union> target_paths acc
    \<and> removed_paths acc' = (\<Union>f \<in> set fs. file_removals f) \<union> removed_paths acc
    \<and> counter_total (change_counts acc') = counter_total (change_counts acc) + length fs
    \<and> total_changes acc' = total_changes acc + sum_list (map cmp_changes fs)"
  using assms
proof (induction fs arbitrary: acc)
  case (Cons f fs)
  then obtain acc1 where f: "classify_file f acc = Inr acc1" and fs: "classify_loop fs acc1 = Inr acc'"
    by (auto split: sum.splits)
  from Cons.IH [OF fs] classify_file_Inr [OF f] show ?case by auto
qed simp

lemma counter_get_classify_loop:
  "classify_loop fs acc = Inr acc' \<Longrightarrow>
   counter_get (change_counts acc') q =
     counter_get (change_counts acc) q + length (filter (\<lambda>f. file_status_value (cmp_status f) = q) fs)"
proof (induction fs arbitrary: acc)
  case (Cons f fs)
  then obtain acc1 where f: "classify_file f acc = Inr acc1" and fs: "classify_loop fs acc1 = Inr acc'"
    by (auto split: sum.splits)
  from Cons.IH [OF fs] classify_file_Inr(3) [OF f] show ?case
    by (simp add: counter_get_bump)
qed simp

lemma classify_comparison_outcome:
  "case classify_comparison c of
     Inl _ \<Rightarrow> \<exists>f \<in> set (cc_files c). file_rejected f
   | Inr ch \<Rightarrow>
       (\<forall>f \<in> set (cc_files c). \<not> file_rejected f)
       \<and> target_paths ch = (\<Union>f \<in> set (cc_files c). file_targets f)
       \<and> removed_paths ch = (\<Union>f \<in> set (cc_files c). file_removals f)
       \<and> counter_total (change_counts ch) = length (cc_files c)
       \<and> (\<forall>k. counter_get (change_counts ch) k
              = length (filter (\<lambda>f. file_status_value (cmp_status f) = k) (cc_files c)))
       \<and> total_changes ch = sum_list (map cmp_changes (cc_files c))"
proof (cases "classify_loop (sort_key compare_key (cc_files c)) empty_changes")
  case (Inl e)
  then show ?thesis
    using classify_loop_rejects [of "sort_key compare_key (cc_files c)" empty_changes]
    by (auto simp: classify_comparison_def)
next
  case (Inr acc)
  have sum: "sum_list (map cmp_changes (sort_key compare_key (cc_files c)))
      = sum_list (map cmp_changes (cc_files c))"
    by (metis mset_map mset_sort sum_mset_sum_list)
  have "counter_get (change_counts acc) k
      = length (filter (\<lambda>f. file_status_value (cmp_status f) = k) (cc_files c))" for k
    using counter_get_classify_loop [OF Inr, of k]
    by (simp add: filter_sort empty_changes_def counter_get_def [of "[]"])
  then show ?thesis
    using Inr classify_loop_rejects [of "sort_key compare_key (cc_files c)" empty_changes]
      classify_loop_Inr [OF Inr] sum
    by (auto simp: classify_comparison_def empty_changes_def)
qed

text \<open>
  C27: classifying a comparison raises exactly when some entry has an unsafe path or is a rename
  without a previous name; otherwise a path is a target if some entry keeps it, removed if some
  entry deletes it or renames it away, and every entry is counted once. None of it depends on the
  order in which the provider lists the files.
\<close>

theorem classify_comparison_spec:
  "case classify_comparison c of
     Inl _ \<Rightarrow> \<exists>f \<in> set (cc_files c). file_rejected f
   | Inr ch \<Rightarrow>
       (\<forall>f \<in> set (cc_files c). \<not> file_rejected f)
       \<and> target_paths ch = (\<Union>f \<in> set (cc_files c). file_targets f)
       \<and> removed_paths ch = (\<Union>f \<in> set (cc_files c). file_removals f)
       \<and> counter_total (change_counts ch) = length (cc_files c)
       \<and> (\<forall>k. counter_get (change_counts ch) k
              = length (filter (\<lambda>f. file_status_value (cmp_status f) = k) (cc_files c)))
       \<and> total_changes ch = sum_list (map cmp_changes (cc_files c))"
  by (rule classify_comparison_outcome)

section \<open>Incremental work is chosen only on a complete, safe comparison\<close>

lemma plan_refresh_incremental:
  "actual_mode (plan_refresh cmp act req mx) = INCREMENTAL \<longleftrightarrow>
   act \<and> req = INCREMENTAL \<and>
   (\<exists>c. cmp = Some c \<and> cc_status c \<noteq> BEHIND \<and> cc_status c \<noteq> DIVERGED
      \<and> length (cc_files c) < mx \<and> (\<exists>ch. classify_comparison c = Inr ch))"
  by (cases req) (auto simp: plan_refresh_def full_plan_def split: option.splits sum.splits)

text \<open>
  A plan is incremental exactly when there is an active index, an incremental refresh was
  requested, the comparison is available and fast-forward, stays below the file limit, and no
  entry is rejected; every other case is a full rebuild that names its reason.
\<close>

theorem plan_refresh_fails_closed:
  "(actual_mode (plan_refresh cmp act req mx) = INCREMENTAL \<longleftrightarrow>
      act \<and> req = INCREMENTAL \<and>
      (\<exists>c. cmp = Some c \<and> cc_status c \<in> {AHEAD, IDENTICAL} \<and> length (cc_files c) < mx
         \<and> (\<forall>f \<in> set (cc_files c). \<not> file_rejected f)))
   \<and> (actual_mode (plan_refresh cmp act req mx) = FULL \<longleftrightarrow>
      fallback_reason (plan_refresh cmp act req mx) \<noteq> None)"
proof -
  have ok: "(\<exists>ch. classify_comparison c = Inr ch) \<longleftrightarrow> (\<forall>f \<in> set (cc_files c). \<not> file_rejected f)" for c
    using classify_comparison_outcome [of c] by (cases "classify_comparison c") auto
  have status: "cc_status c \<in> {AHEAD, IDENTICAL} \<longleftrightarrow> cc_status c \<noteq> BEHIND \<and> cc_status c \<noteq> DIVERGED"
    for c :: commit_comparison
    by (cases "cc_status c") auto
  have reason: "actual_mode (plan_refresh cmp act req mx) = FULL \<longleftrightarrow>
      fallback_reason (plan_refresh cmp act req mx) \<noteq> None"
    by (auto simp: plan_refresh_def full_plan_def split: option.splits sum.splits)
  show ?thesis
    unfolding plan_refresh_incremental status ok [symmetric] using reason by blast
qed

section \<open>What the schema leaves for the planner to reject\<close>

lemma path_names_clean:
  assumes "schema_path_ok v"
  shows "path_names v = split_on 47 v" and "path_root v = []"
proof -
  from assms show "path_names v = split_on 47 v"
    by (auto simp: schema_path_ok_def path_names_def intro!: filter_True)
  from assms show "path_root v = []"
    by (cases v) (auto simp: schema_path_ok_def path_root_def starts_with_def)
qed

lemma schema_path_valid:
  assumes "schema_path_ok v"
  shows "path_valid v \<longleftrightarrow> utf8_len v \<le> MAX_REPOSITORY_PATH_BYTES"
proof -
  have "\<not> path_is_absolute v" and "path_parts v = split_on 47 v"
    using path_names_clean [OF assms] by (simp_all add: path_is_absolute_def path_parts_def)
  moreover have "0 \<notin> set v \<and> 92 \<notin> set v
      \<and> \<not> (\<exists>part \<in> set (split_on 47 v). part = [] \<or> part = [46] \<or> part = [46, 46])"
    using assms by (simp add: schema_path_ok_def)
  ultimately show ?thesis
    unfolding path_valid_def using not_le by (metis split_on_nonempty)
qed

text \<open>
  On entries the schema has validated, the planner's own path check adds only the byte limit:
  an entry is rejected exactly when one of its paths takes more than 4096 bytes in UTF-8 or it is
  a rename without a previous name.
\<close>

theorem schema_leaves_byte_limit:
  assumes "schema_file_ok f"
  shows "file_rejected f \<longleftrightarrow>
    MAX_REPOSITORY_PATH_BYTES < utf8_len (cmp_filename f)
    \<or> (\<exists>p. cmp_previous_filename f = Some p \<and> MAX_REPOSITORY_PATH_BYTES < utf8_len p)
    \<or> cmp_status f = RENAMED \<and> cmp_previous_filename f = None"
proof (cases "cmp_previous_filename f")
  case None
  with assms have "schema_path_ok (cmp_filename f)" by (simp add: schema_file_ok_def)
  with None show ?thesis by (simp add: file_rejected_def schema_path_valid not_le)
next
  case (Some p)
  with assms have "schema_path_ok (cmp_filename f)" and "schema_path_ok p"
    by (simp_all add: schema_file_ok_def)
  with Some show ?thesis by (simp add: file_rejected_def schema_path_valid not_le)
qed

definition sample_rename :: compare_file where
  "sample_rename =
     \<lparr>cmp_filename = py ''src/new.py'', cmp_previous_filename = Some (py ''src/old.py''),
      cmp_status = RENAMED, cmp_changes = 3\<rparr>"

theorem schema_leaves_byte_limit_witness:
  "schema_file_ok sample_rename \<and> \<not> file_rejected sample_rename"
proof -
  have ok: "schema_file_ok sample_rename"
    by (simp add: sample_rename_def schema_file_ok_def schema_path_ok_def py_def starts_with_def)
  moreover have "\<not> file_rejected sample_rename"
    using schema_leaves_byte_limit [OF ok]
    by (simp add: sample_rename_def py_def utf8_len_def MAX_REPOSITORY_PATH_BYTES_def)
  ultimately show ?thesis ..
qed

definition sample_comparison :: commit_comparison where
  "sample_comparison = \<lparr>cc_status = AHEAD, cc_ahead_by = 1, cc_behind_by = 0, cc_total_commits = 1,
     cc_files = [sample_rename]\<rparr>"

lemma sample_comparison_accepted: "classify_comparison sample_comparison = Inr
    \<lparr>target_paths = {py ''src/new.py''}, removed_paths = {py ''src/old.py''},
     change_counts = [(''renamed'', 1)], total_changes = 3\<rparr>"
  by (simp add: classify_comparison_def sample_comparison_def sample_rename_def classify_file_def
      empty_changes_def path_valid_def path_is_absolute_def path_root_def path_parts_def
      path_names_def py_def utf8_len_def MAX_REPOSITORY_PATH_BYTES_def sorted_items_def)

theorem classify_comparison_spec_witness:
  "\<not> file_rejected sample_rename \<and> file_targets sample_rename = {py ''src/new.py''}"
  using classify_comparison_spec [of sample_comparison]
  unfolding sample_comparison_accepted by (simp add: sample_comparison_def)

theorem plan_refresh_fails_closed_witness:
  "actual_mode (plan_refresh (Some sample_comparison) True INCREMENTAL 300) = INCREMENTAL"
proof -
  have "\<not> file_rejected sample_rename"
    using classify_comparison_outcome [of sample_comparison]
    unfolding sample_comparison_accepted by (simp add: sample_comparison_def)
  then show ?thesis
    using plan_refresh_fails_closed [of "Some sample_comparison" True INCREMENTAL 300]
    by (simp add: sample_comparison_def)
qed

end
