(* ===== verification/LinePacking.thy ===== *)
theory LinePacking
  imports Models
begin

text \<open>
  Line slices, ordinals and greedy packing: what both chunkers of
  \<^verbatim>\<open>backend/app/indexing/chunking.py\<close> share. Lines are numbered from 1.
  A packer walks over ranges of lines and merges a range into the current group while the merged
  slice still fits; the locale \<open>greedy_packer\<close> states that contract once, and each chunker's own
  loop is an interpretation of it.
\<close>

section \<open>Line slices\<close>

text \<open>
  \<open>"\n".join(lines[start_line - 1 : end_line])\<close>. A start of 0 would be Python's index -1, the last
  element.
\<close>

definition line_slice :: "pystr list \<Rightarrow> nat \<Rightarrow> nat \<Rightarrow> pystr" where
  "line_slice lines s e =
     join [10] (if s = 0 then drop (length lines - 1) (take e lines)
                else drop (s - 1) (take e lines))"

lemma line_slice_single:
  "1 \<le> i \<Longrightarrow> i \<le> length lines \<Longrightarrow> line_slice lines i i = lines ! (i - 1)"
  by (cases i) (simp_all add: line_slice_def take_Suc_conv_app_nth)

lemma line_slice_empty: "1 \<le> s \<Longrightarrow> e < s \<Longrightarrow> line_slice lines s e = []"
  by (simp add: line_slice_def)

lemma drop_take_split:
  "s \<le> m \<Longrightarrow> m \<le> e \<Longrightarrow> drop s (take e xs) = drop s (take m xs) @ drop m (take e xs)"
proof -
  assume "s \<le> m" "m \<le> e"
  then have "take e xs = take m xs @ drop m (take e xs)"
    by (metis append_take_drop_id min.absorb1 take_take)
  moreover have "drop s (take m xs @ drop m (take e xs))
      = drop s (take m xs) @ drop (s - length (take m xs)) (drop m (take e xs))"
    by simp
  moreover have "drop (s - length (take m xs)) (drop m (take e xs)) = drop m (take e xs)"
    using \<open>s \<le> m\<close> by (cases "length xs \<le> m") auto
  ultimately show ?thesis by simp
qed

lemma line_slice_length_mono:
  assumes "1 \<le> s" and "s \<le> s'" and "s' \<le> e'" and "e' \<le> e"
  shows "utf8_len (line_slice lines s' e') \<le> utf8_len (line_slice lines s e)"
proof -
  let ?d = "\<lambda>a b. drop a (take b lines)"
  have mono: "utf8_len (join [10] ys) \<le> utf8_len (join [10] (xs @ ys @ zs))" for xs ys zs
    by (auto simp: join_append utf8_len_Cons simp del: cp_bytes.simps)
  have "?d (s - 1) e = ?d (s - 1) (s' - 1) @ ?d (s' - 1) e' @ ?d e' e"
    using assms drop_take_split [of "s - 1" "s' - 1" e lines] drop_take_split [of "s' - 1" e' e lines]
    by simp
  then show ?thesis
    using mono [of "?d (s' - 1) e'" "?d (s - 1) (s' - 1)" "?d e' e"] assms
    by (simp add: line_slice_def)
qed

text \<open>Evaluation of concrete texts by the simplifier.\<close>

lemmas text_eval =
  py_def splitlines_def is_line_break_def line_slice_def utf8_len_def lower_def lower_cp_def

section \<open>Ordinals\<close>

text \<open>\<open>[_with_ordinal(item, index) for index, item in enumerate(chunks)]\<close>.\<close>

definition with_ordinals :: "content_chunk list \<Rightarrow> content_chunk list" where
  "with_ordinals cs = map (\<lambda>(i, c). c\<lparr>ck_ordinal := i\<rparr>) (enumerate 0 cs)"

lemma length_with_ordinals [simp]: "length (with_ordinals cs) = length cs"
  by (simp add: with_ordinals_def)

lemma nth_with_ordinals: "i < length cs \<Longrightarrow> with_ordinals cs ! i = (cs ! i)\<lparr>ck_ordinal := i\<rparr>"
  by (simp add: with_ordinals_def nth_enumerate_eq)

lemma ordinals_with_ordinals: "map ck_ordinal (with_ordinals cs) = [0..<length cs]"
  by (rule nth_equalityI) (simp_all add: nth_with_ordinals)

lemma map_with_ordinals:
  assumes "\<And>c n. f (c\<lparr>ck_ordinal := n\<rparr>) = f c"
  shows "map f (with_ordinals cs) = map f cs"
  by (rule nth_equalityI) (simp_all add: nth_with_ordinals assms)

lemma with_ordinals_elem:
  assumes "c \<in> set (with_ordinals cs)"
  obtains d n where "d \<in> set cs" and "c = d\<lparr>ck_ordinal := n\<rparr>"
  using assms by (metis in_set_conv_nth length_with_ordinals nth_with_ordinals)

lemma with_ordinals_member:
  assumes "c \<in> set cs"
  obtains i where "c\<lparr>ck_ordinal := i\<rparr> \<in> set (with_ordinals cs)"
  using assms by (metis in_set_conv_nth length_with_ordinals nth_with_ordinals)

lemma ball_with_ordinals:
  assumes "\<And>c n. P (c\<lparr>ck_ordinal := n\<rparr>) = P c"
  shows "(\<forall>c \<in> set (with_ordinals cs). P c) \<longleftrightarrow> (\<forall>c \<in> set cs. P c)"
proof
  assume *: "\<forall>c \<in> set (with_ordinals cs). P c"
  show "\<forall>c \<in> set cs. P c"
    by (metis * assms in_set_conv_nth length_with_ordinals nth_with_ordinals)
qed (metis assms with_ordinals_elem)

section \<open>Greedy packing\<close>

type_synonym line_range = "nat \<times> nat"

text \<open>The range from the first line of a block of ranges to its last.\<close>

definition span :: "line_range list \<Rightarrow> line_range" where
  "span b = (fst (hd b), snd (last b))"

lemma span_single [simp]: "span [r] = r"
  by (simp add: span_def)

text \<open>Ranges in increasing order with no line in common, and ranges inside bounds.\<close>

definition separated :: "line_range list \<Rightarrow> bool" where
  "separated rs \<longleftrightarrow> sorted_wrt (\<lambda>a b. snd a < fst b) rs \<and> (\<forall>r \<in> set rs. fst r \<le> snd r)"

definition within :: "nat \<Rightarrow> nat \<Rightarrow> line_range list \<Rightarrow> bool" where
  "within lo hi rs \<longleftrightarrow> (\<forall>r \<in> set rs. lo \<le> fst r \<and> snd r \<le> hi)"

lemma separated_Nil [simp]: "separated []"
  by (simp add: separated_def)

lemma separated_Cons:
  "separated (r # rs) \<longleftrightarrow> fst r \<le> snd r \<and> (\<forall>q \<in> set rs. snd r < fst q) \<and> separated rs"
  by (auto simp: separated_def)

lemma separated_append:
  "separated (xs @ ys) \<longleftrightarrow>
     separated xs \<and> separated ys \<and> (\<forall>x \<in> set xs. \<forall>y \<in> set ys. snd x < fst y)"
  by (auto simp: separated_def sorted_wrt_append)

lemma separated_append_within:
  "separated xs \<Longrightarrow> within a b xs \<Longrightarrow> separated ys \<Longrightarrow> within c d ys \<Longrightarrow> b < c \<Longrightarrow> separated (xs @ ys)"
  by (force simp: separated_append within_def)

lemma within_append: "within a b (xs @ ys) \<longleftrightarrow> within a b xs \<and> within a b ys"
  by (auto simp: within_def)

lemma within_mono: "within a b xs \<Longrightarrow> a' \<le> a \<Longrightarrow> b \<le> b' \<Longrightarrow> within a' b' xs"
  by (fastforce simp: within_def)

lemma separated_concat:
  assumes "separated gs"
    and "\<And>g. g \<in> set gs \<Longrightarrow> separated (f g) \<and> within (fst g) (snd g) (f g)"
  shows "separated (concat (map f gs))"
  using assms
proof (induction gs)
  case (Cons g gs)
  then have "separated (concat (map f gs))" by (simp add: separated_Cons)
  moreover have "snd x < fst y" if "x \<in> set (f g)" and "y \<in> set (concat (map f gs))" for x y
  proof -
    from that(2) obtain h where h: "h \<in> set gs" "y \<in> set (f h)" by auto
    have "snd x \<le> snd g" using Cons.prems(2) [of g] that(1) by (simp add: within_def)
    also have "\<dots> < fst h" using Cons.prems(1) h(1) by (simp add: separated_Cons)
    also have "\<dots> \<le> fst y" using Cons.prems(2) [of h] h by (simp add: within_def)
    finally show ?thesis .
  qed
  ultimately show ?case using Cons.prems by (simp add: separated_append)
qed simp

lemma separated_monotone:
  "separated rs \<Longrightarrow> sorted_wrt (\<lambda>a b. fst a \<le> fst b \<and> snd a \<le> snd b) rs"
proof (induction rs)
  case (Cons r rs)
  then show ?case by (fastforce simp: separated_Cons separated_def)
qed simp

locale greedy_packer =
  fixes fits :: "nat \<Rightarrow> nat \<Rightarrow> bool"
    and pack :: "nat \<Rightarrow> nat \<Rightarrow> line_range list \<Rightarrow> line_range list"
  assumes pack_Nil: "pack s e [] = [(s, e)]"
    and pack_Cons: "pack s e (r # rs) =
      (if fits s (snd r) then pack s (snd r) rs else (s, e) # pack (fst r) (snd r) rs)"
begin

lemma pack_blocks:
  assumes "b \<noteq> []" and "length b = 1 \<or> fits (fst (span b)) (snd (span b))"
  shows "\<exists>bs. pack (fst (span b)) (snd (span b)) rs = map span bs \<and> concat bs = b @ rs
    \<and> (\<forall>c \<in> set bs. c \<noteq> [] \<and> (length c = 1 \<or> fits (fst (span c)) (snd (span c))))"
  using assms
proof (induction rs arbitrary: b)
  case Nil
  then show ?case by (intro exI [of _ "[b]"]) (simp add: pack_Nil)
next
  case (Cons r rs)
  show ?case
  proof (cases "fits (fst (span b)) (snd r)")
    case True
    have "span (b @ [r]) = (fst (span b), snd r)"
      using Cons.prems(1) by (simp add: span_def)
    with True Cons.IH [of "b @ [r]"] show ?thesis by (simp add: pack_Cons)
  next
    case False
    obtain bs where "pack (fst r) (snd r) rs = map span bs" and "concat bs = r # rs"
      and "\<forall>c \<in> set bs. c \<noteq> [] \<and> (length c = 1 \<or> fits (fst (span c)) (snd (span c)))"
      using Cons.IH [of "[r]"] by auto
    with False Cons.prems show ?thesis
      by (intro exI [of _ "b # bs"]) (simp add: pack_Cons)
  qed
qed

text \<open>
  The groups are the spans of consecutive blocks of the input, and a group of more than one range
  fits: nothing is dropped, duplicated or reordered.
\<close>

lemma pack_partition:
  "\<exists>bs. pack (fst r) (snd r) rs = map span bs \<and> concat bs = r # rs
    \<and> (\<forall>c \<in> set bs. c \<noteq> [] \<and> (length c = 1 \<or> fits (fst (span c)) (snd (span c))))"
  using pack_blocks [of "[r]" rs] by simp

lemma pack_all_fit:
  "(\<forall>q \<in> set ((s, e) # rs). fits (fst q) (snd q)) \<Longrightarrow> \<forall>g \<in> set (pack s e rs). fits (fst g) (snd g)"
  by (induction rs arbitrary: s e) (auto simp: pack_Nil pack_Cons)

lemma pack_nonempty: "pack s e rs \<noteq> []"
  by (induction rs arbitrary: s e) (simp_all add: pack_Nil pack_Cons)

text \<open>Separated ranges stay separated, between the first and the last line of the input.\<close>

lemma pack_separated:
  assumes "separated ((s, e) # rs)"
  shows "separated (pack s e rs) \<and> within s (snd (last ((s, e) # rs))) (pack s e rs)"
  using assms
proof (induction rs arbitrary: s e)
  case Nil
  then show ?case by (simp add: pack_Nil separated_Cons within_def)
next
  case (Cons r rs)
  then have r: "s \<le> e" "e < fst r" "fst r \<le> snd r" by (auto simp: separated_Cons)
  show ?case
  proof (cases "fits s (snd r)")
    case True
    have "separated ((s, snd r) # rs)" using Cons.prems r by (auto simp: separated_Cons)
    from Cons.IH [OF this] True show ?thesis by (cases rs) (simp_all add: pack_Cons)
  next
    case False
    have "separated ((fst r, snd r) # rs)" using Cons.prems by (auto simp: separated_Cons)
    from Cons.IH [OF this] have IH: "separated (pack (fst r) (snd r) rs)"
      "within (fst r) (snd (last (r # rs))) (pack (fst r) (snd r) rs)" by simp_all
    have "\<forall>q \<in> set (r # rs). e < fst q \<and> fst q \<le> snd q"
      using Cons.prems by (auto simp: separated_def)
    moreover have "last (r # rs) \<in> set (r # rs)" by (rule last_in_set) simp
    ultimately have "e < fst (last (r # rs)) \<and> fst (last (r # rs)) \<le> snd (last (r # rs))" by blast
    then have "e \<le> snd (last (r # rs))" by linarith
    with IH r False show ?thesis
      by (auto simp: pack_Cons separated_Cons within_def)
  qed
qed

text \<open>Ranges in increasing order: every range of the input lies inside one group.\<close>

lemma pack_covers:
  assumes "sorted_wrt (\<lambda>a b. fst a \<le> fst b \<and> snd a \<le> snd b) ((s, e) # rs)"
    and "q \<in> set ((s, e) # rs)"
  shows "\<exists>g \<in> set (pack s e rs). fst g \<le> fst q \<and> snd q \<le> snd g"
  using assms
proof (induction rs arbitrary: s e q)
  case Nil
  then show ?case by (simp add: pack_Nil)
next
  case (Cons r rs)
  show ?case
  proof (cases "fits s (snd r)")
    case True
    have *: "sorted_wrt (\<lambda>a b. fst a \<le> fst b \<and> snd a \<le> snd b) ((s, snd r) # rs)"
      using Cons.prems(1) by auto
    show ?thesis
    proof (cases "q \<in> set rs")
      case True
      with Cons.IH [OF *, of q] \<open>fits s (snd r)\<close> show ?thesis by (simp add: pack_Cons)
    next
      case False
      with Cons.prems have "s \<le> fst q" and "snd q \<le> snd r" by auto
      with Cons.IH [OF *, of "(s, snd r)"] \<open>fits s (snd r)\<close> show ?thesis
        by (auto simp: pack_Cons intro: le_trans)
    qed
  next
    case False
    have *: "sorted_wrt (\<lambda>a b. fst a \<le> fst b \<and> snd a \<le> snd b) ((fst r, snd r) # rs)"
      using Cons.prems(1) by auto
    show ?thesis
    proof (cases "q = (s, e)")
      case True
      with False show ?thesis by (simp add: pack_Cons)
    next
      case q: False
      with Cons.prems(2) have "q \<in> set ((fst r, snd r) # rs)" by auto
      with Cons.IH [OF *] False show ?thesis by (auto simp: pack_Cons)
    qed
  qed
qed

end

end
