(* ===== verification/PyChunking.thy ===== *)
theory PyChunking
  imports LinePacking
begin

text \<open>
  \<open>PythonChunker\<close> of \<^verbatim>\<open>backend/app/indexing/chunking.py\<close>. A method that may return \<open>None\<close> is
  option-valued; the digest \<open>content_hash\<close> is the parameter \<open>H\<close>.
\<close>

record chunker_limits =
  max_symbol_bytes :: nat
  max_chunk_bytes :: nat
  max_section_bytes :: nat
  max_chunks_per_file :: nat
  max_warnings :: nat

record file_chunk_result =
  fcr_chunks :: "content_chunk list"
  fcr_warnings :: "string list"

definition definition_node_types :: "string set" where
  "definition_node_types = {''function_definition'', ''class_definition'', ''decorated_definition''}"

section \<open>Operations\<close>

text \<open>\<open>_contiguous_runs\<close>: a gap of more than one line closes the current run.\<close>

fun extend_runs :: "source_segment list \<Rightarrow> source_segment list \<Rightarrow> source_segment list list" where
  "extend_runs run [] = [run]"
| "extend_runs run (s # ss) =
     (if seg_end_line (last run) + 1 < seg_start_line s then run # extend_runs [s] ss
      else extend_runs (run @ [s]) ss)"

fun contiguous_runs :: "source_segment list \<Rightarrow> source_segment list list" where
  "contiguous_runs [] = []"
| "contiguous_runs (s # ss) = extend_runs [s] ss"

definition make_chunk ::
  "(pystr \<Rightarrow> string) \<Rightarrow> chunker_limits \<Rightarrow> parsed_file \<Rightarrow> uuid \<Rightarrow> nat \<Rightarrow> chunk_type
    \<Rightarrow> parsed_symbol option \<Rightarrow> pystr list \<Rightarrow> pystr \<Rightarrow> nat \<Rightarrow> nat \<Rightarrow> content_chunk option" where
  "make_chunk H lim parsed repo ver ctype symbol imports content s e =
     (if content = [] \<or> max_chunk_bytes lim < utf8_len content then None
      else Some
        \<lparr>ck_repository_id = repo, ck_index_version = ver, ck_ordinal = 0,
         ck_file_path = pf_file_path parsed, ck_language = ''python'', ck_chunk_type = ctype,
         ck_symbol_name = map_option sym_name symbol,
         ck_qualified_name =
           (case symbol of None \<Rightarrow> Some (pf_module_name parsed)
            | Some y \<Rightarrow> Some (sym_qualified_name y)),
         ck_parent_qualified_name =
           (case symbol of None \<Rightarrow> None | Some y \<Rightarrow> sym_parent_qualified_name y),
         ck_heading_hierarchy = [], ck_imports = imports,
         ck_decorators = (case symbol of None \<Rightarrow> [] | Some y \<Rightarrow> sym_decorators y),
         ck_signature = map_option sym_signature symbol,
         ck_docstring =
           (case symbol of None \<Rightarrow> pf_module_docstring parsed | Some y \<Rightarrow> sym_docstring y),
         ck_start_line = s, ck_end_line = e, ck_commit_sha = pf_commit_sha parsed,
         ck_content_hash = H content, ck_content = content\<rparr>)"

text \<open>
  The loop of \<open>_segment_chunks\<close> over \<open>(*segments[1:], None)\<close>, from the group
  \<open>gs..ge\<close>; \<open>mk\<close> is the call of \<open>_make_chunk\<close> on a slice.
\<close>

definition slice_fits :: "chunker_limits \<Rightarrow> pystr list \<Rightarrow> nat \<Rightarrow> nat \<Rightarrow> bool" where
  "slice_fits lim lines s e \<longleftrightarrow> utf8_len (line_slice lines s e) \<le> max_chunk_bytes lim"

fun segment_loop ::
  "(nat \<Rightarrow> nat \<Rightarrow> bool) \<Rightarrow> (nat \<Rightarrow> nat \<Rightarrow> content_chunk option) \<Rightarrow> nat \<Rightarrow> nat
    \<Rightarrow> source_segment list \<Rightarrow> content_chunk list option" where
  "segment_loop fits mk gs ge [] = (case mk gs ge of None \<Rightarrow> None | Some c \<Rightarrow> Some [c])"
| "segment_loop fits mk gs ge (s # ss) =
     (if fits gs (seg_end_line s) then segment_loop fits mk gs (seg_end_line s) ss
      else case mk gs ge of
        None \<Rightarrow> None
      | Some c \<Rightarrow>
          (case segment_loop fits mk (seg_start_line s) (seg_end_line s) ss of
             None \<Rightarrow> None
           | Some cs \<Rightarrow> Some (c # cs)))"

definition segment_chunks ::
  "(pystr \<Rightarrow> string) \<Rightarrow> chunker_limits \<Rightarrow> parsed_file \<Rightarrow> source_segment list \<Rightarrow> pystr list \<Rightarrow> uuid
    \<Rightarrow> nat \<Rightarrow> chunk_type \<Rightarrow> parsed_symbol option \<Rightarrow> pystr list \<Rightarrow> content_chunk list option" where
  "segment_chunks H lim parsed segments lines repo ver ctype symbol imports =
     (case segments of
        [] \<Rightarrow> Some []
      | s # ss \<Rightarrow>
          segment_loop (slice_fits lim lines)
            (\<lambda>a b. make_chunk H lim parsed repo ver ctype symbol imports (line_slice lines a b) a b)
            (seg_start_line s) (seg_end_line s) ss)"

definition symbol_chunk_type :: "parsed_symbol \<Rightarrow> chunk_type" where
  "symbol_chunk_type y =
     (if sym_symbol_type y = ASYNC_FUNCTION then CT_ASYNC_FUNCTION
      else if sym_symbol_type y = METHOD then CT_METHOD else CT_FUNCTION)"

text \<open>The loop over the runs of a symbol: the first failing run makes the whole result \<open>None\<close>.\<close>

fun run_chunks ::
  "(source_segment list \<Rightarrow> content_chunk list option) \<Rightarrow> source_segment list list
    \<Rightarrow> content_chunk list option" where
  "run_chunks f [] = Some []"
| "run_chunks f (r # rs) =
     (case f r of
        None \<Rightarrow> None
      | Some cs \<Rightarrow> (case run_chunks f rs of None \<Rightarrow> None | Some ds \<Rightarrow> Some (cs @ ds)))"

definition symbol_chunks ::
  "(pystr \<Rightarrow> string) \<Rightarrow> chunker_limits \<Rightarrow> parsed_file \<Rightarrow> parsed_symbol \<Rightarrow> pystr list \<Rightarrow> uuid \<Rightarrow> nat
    \<Rightarrow> pystr list \<Rightarrow> content_chunk list option" where
  "symbol_chunks H lim parsed y lines repo ver imports =
     (let body = filter (\<lambda>s. seg_node_type s \<notin> definition_node_types) (sym_body_segments y);
          runs = (\<lambda>ctype. run_chunks
            (\<lambda>run. segment_chunks H lim parsed run lines repo ver ctype (Some y) imports)
            (contiguous_runs body)) in
      if sym_symbol_type y = CLASS
      then case make_chunk H lim parsed repo ver CT_CLASS_OVERVIEW (Some y) imports
             (sym_header_text y) (sym_header_start_line y) (sym_header_end_line y) of
          None \<Rightarrow> None
        | Some header \<Rightarrow>
            (case runs CT_CLASS_OVERVIEW of None \<Rightarrow> None | Some overview \<Rightarrow> Some (header # overview))
      else if utf8_len (sym_source_text y) \<le> max_chunk_bytes lim
      then case make_chunk H lim parsed repo ver (symbol_chunk_type y) (Some y) imports
             (sym_source_text y) (sym_start_line y) (sym_end_line y) of
          None \<Rightarrow> None
        | Some chunk \<Rightarrow> Some [chunk]
      else runs (symbol_chunk_type y))"

text \<open>The loop of \<open>chunk\<close> over the symbols: chunks and warnings.\<close>

fun symbol_pass ::
  "chunker_limits \<Rightarrow> (parsed_symbol \<Rightarrow> content_chunk list option) \<Rightarrow> parsed_symbol list
    \<Rightarrow> content_chunk list \<times> string list" where
  "symbol_pass lim f [] = ([], [])"
| "symbol_pass lim f (y # ys) =
     (let (cs, ws) = symbol_pass lim f ys in
      if max_symbol_bytes lim < utf8_len (sym_source_text y) then (cs, ''symbol_too_large'' # ws)
      else case f y of
        None \<Rightarrow> (cs, ''symbol_too_large'' # ws)
      | Some ds \<Rightarrow> (ds @ cs, ws))"

text \<open>The loop over the runs of module code, which stops at the first failing run.\<close>

fun module_pass ::
  "(source_segment list \<Rightarrow> content_chunk list option) \<Rightarrow> source_segment list list
    \<Rightarrow> content_chunk list \<times> string list" where
  "module_pass f [] = ([], [])"
| "module_pass f (r # rs) =
     (case f r of
        None \<Rightarrow> ([], [''module_code_too_large''])
      | Some cs \<Rightarrow> (let (ds, ws) = module_pass f rs in (cs @ ds, ws)))"

definition python_chunk_key :: "content_chunk \<Rightarrow> nat \<times> nat \<times> chunk_type \<times> pystr \<times> string" where
  "python_chunk_key c =
     (ck_start_line c, ck_end_line c, ck_chunk_type c,
      (case ck_qualified_name c of None \<Rightarrow> [] | Some q \<Rightarrow> q), ck_content_hash c)"

definition python_chunk ::
  "(pystr \<Rightarrow> string) \<Rightarrow> chunker_limits \<Rightarrow> parsed_file \<Rightarrow> uuid \<Rightarrow> nat \<Rightarrow> file_chunk_result" where
  "python_chunk H lim parsed repo ver =
     (let lines = splitlines (pf_source_text parsed);
          imports = map imp_source_text (pf_imports parsed);
          (cs, ws) = symbol_pass lim
            (\<lambda>y. symbol_chunks H lim parsed y lines repo ver imports) (pf_symbols parsed);
          (ms, vs) = module_pass
            (\<lambda>run. segment_chunks H lim parsed run lines repo ver CT_MODULE None imports)
            (contiguous_runs (pf_module_segments parsed));
          chunks = sort_key python_chunk_key (cs @ ms) in
      if max_chunks_per_file lim < length chunks
      then \<lparr>fcr_chunks = [], fcr_warnings = [''chunk_count_exceeded'']\<rparr>
      else \<lparr>fcr_chunks = with_ordinals chunks, fcr_warnings = take (max_warnings lim) (ws @ vs)\<rparr>)"

section \<open>Segment grouping is greedy packing\<close>

definition segment_range :: "source_segment \<Rightarrow> line_range" where
  "segment_range s = (seg_start_line s, seg_end_line s)"

fun group_ranges :: "(nat \<Rightarrow> nat \<Rightarrow> bool) \<Rightarrow> nat \<Rightarrow> nat \<Rightarrow> line_range list \<Rightarrow> line_range list" where
  "group_ranges fits s e [] = [(s, e)]"
| "group_ranges fits s e (r # rs) =
     (if fits s (snd r) then group_ranges fits s (snd r) rs
      else (s, e) # group_ranges fits (fst r) (snd r) rs)"

interpretation segments: greedy_packer fits "group_ranges fits" for fits
  by unfold_locales simp_all

text \<open>The loop emits one chunk per group, or nothing when the maker refuses a group.\<close>

lemma segment_loop_groups:
  "segment_loop fits mk s e ss =
     (let gs = group_ranges fits s e (map segment_range ss) in
      if \<exists>g \<in> set gs. mk (fst g) (snd g) = None then None
      else Some (map (\<lambda>g. the (mk (fst g) (snd g))) gs))"
  by (induction ss arbitrary: s e) (auto simp: segment_range_def Let_def split: option.splits)

lemma segment_loop_elem:
  assumes "segment_loop fits mk s e ss = Some cs" and "c \<in> set cs"
  obtains a b where "(a, b) \<in> set (group_ranges fits s e (map segment_range ss))" and "mk a b = Some c"
proof -
  from assms obtain g where g: "g \<in> set (group_ranges fits s e (map segment_range ss))"
    and "mk (fst g) (snd g) \<noteq> None" and "c = the (mk (fst g) (snd g))"
    by (auto simp: segment_loop_groups Let_def split: if_splits)
  then have "mk (fst g) (snd g) = Some c" by auto
  with g show ?thesis by (intro that [of "fst g" "snd g"]) simp_all
qed

section \<open>Every chunk is bounded and copied from the file\<close>

text \<open>What \<open>_make_chunk\<close> guarantees of a chunk.\<close>

definition chunk_bounded :: "(pystr \<Rightarrow> string) \<Rightarrow> chunker_limits \<Rightarrow> content_chunk \<Rightarrow> bool" where
  "chunk_bounded H lim c \<longleftrightarrow>
     ck_content c \<noteq> [] \<and> utf8_len (ck_content c) \<le> max_chunk_bytes lim
     \<and> ck_content_hash c = H (ck_content c)"

text \<open>
  Where the text of a chunk comes from: a line slice at its own position, a symbol's source text,
  or a class header.
\<close>

definition chunk_sourced :: "parsed_file \<Rightarrow> content_chunk \<Rightarrow> bool" where
  "chunk_sourced parsed c \<longleftrightarrow>
     ck_content c = line_slice (splitlines (pf_source_text parsed)) (ck_start_line c) (ck_end_line c)
     \<or> (\<exists>y \<in> set (pf_symbols parsed).
          ck_content c = sym_source_text y \<and> ck_start_line c = sym_start_line y
            \<and> ck_end_line c = sym_end_line y
        \<or> ck_content c = sym_header_text y \<and> ck_start_line c = sym_header_start_line y
            \<and> ck_end_line c = sym_header_end_line y)"

definition chunk_good :: "(pystr \<Rightarrow> string) \<Rightarrow> chunker_limits \<Rightarrow> parsed_file \<Rightarrow> content_chunk \<Rightarrow> bool" where
  "chunk_good H lim parsed c \<longleftrightarrow>
     chunk_bounded H lim c \<and> chunk_sourced parsed c \<and> ck_file_path c = pf_file_path parsed
     \<and> ck_commit_sha c = pf_commit_sha parsed"

lemma make_chunk_SomeD:
  "make_chunk H lim parsed repo ver ct symbol imports content s e = Some c \<Longrightarrow>
   chunk_bounded H lim c \<and> ck_content c = content \<and> ck_start_line c = s \<and> ck_end_line c = e
   \<and> ck_file_path c = pf_file_path parsed \<and> ck_commit_sha c = pf_commit_sha parsed"
  by (auto simp: make_chunk_def chunk_bounded_def split: if_splits)

lemma segment_chunks_good:
  assumes "segment_chunks H lim parsed segs (splitlines (pf_source_text parsed)) repo ver ct symbol imports
      = Some cs"
  shows "\<forall>c \<in> set cs. chunk_good H lim parsed c"
proof (cases segs)
  case Nil
  with assms show ?thesis by (simp add: segment_chunks_def)
next
  case (Cons s ss)
  show ?thesis
  proof
    fix c assume "c \<in> set cs"
    with assms Cons obtain a b where
      "make_chunk H lim parsed repo ver ct symbol imports
         (line_slice (splitlines (pf_source_text parsed)) a b) a b = Some c"
      by (auto simp: segment_chunks_def elim!: segment_loop_elem)
    from make_chunk_SomeD [OF this] show "chunk_good H lim parsed c"
      by (simp add: chunk_good_def chunk_sourced_def)
  qed
qed

lemma run_chunks_good:
  assumes "\<And>r cs. f r = Some cs \<Longrightarrow> \<forall>c \<in> set cs. P c"
  shows "run_chunks f rs = Some cs \<Longrightarrow> \<forall>c \<in> set cs. P c"
  by (induction rs arbitrary: cs) (fastforce split: option.splits dest: assms)+

lemma make_chunk_symbol_good:
  assumes "y \<in> set (pf_symbols parsed)"
  shows "make_chunk H lim parsed repo ver ct symbol imports (sym_header_text y)
      (sym_header_start_line y) (sym_header_end_line y) = Some c \<Longrightarrow> chunk_good H lim parsed c"
    and "make_chunk H lim parsed repo ver ct symbol imports (sym_source_text y)
      (sym_start_line y) (sym_end_line y) = Some c \<Longrightarrow> chunk_good H lim parsed c"
  using assms by (auto simp: chunk_good_def chunk_sourced_def dest!: make_chunk_SomeD)

lemma symbol_chunks_good:
  assumes "symbol_chunks H lim parsed y (splitlines (pf_source_text parsed)) repo ver imports = Some cs"
    and "y \<in> set (pf_symbols parsed)"
  shows "\<forall>c \<in> set cs. chunk_good H lim parsed c"
proof -
  have runs: "run_chunks (\<lambda>run. segment_chunks H lim parsed run (splitlines (pf_source_text parsed))
      repo ver ct (Some y) imports) rs = Some ds \<Longrightarrow> \<forall>c \<in> set ds. chunk_good H lim parsed c" for ct rs ds
    by (rule run_chunks_good [OF segment_chunks_good])
  note one = make_chunk_symbol_good [OF assms(2)]
  show ?thesis
  proof (cases "sym_symbol_type y = CLASS")
    case True
    with assms(1) obtain h ds where "cs = h # ds" and "chunk_good H lim parsed h"
      and "\<forall>c \<in> set ds. chunk_good H lim parsed c"
      by (auto simp: symbol_chunks_def Let_def split: option.splits dest!: one(1) runs)
    then show ?thesis by simp
  next
    case False
    with assms(1) show ?thesis
      by (auto simp: symbol_chunks_def Let_def split: option.splits if_splits dest!: one(2) runs)
  qed
qed

lemma symbol_pass_good:
  assumes "\<And>y cs. y \<in> set ys \<Longrightarrow> f y = Some cs \<Longrightarrow> \<forall>c \<in> set cs. P c"
  shows "\<forall>c \<in> set (fst (symbol_pass lim f ys)). P c"
  using assms
proof (induction ys)
  case (Cons y ys)
  have "\<forall>c \<in> set (fst (symbol_pass lim f ys)). P c"
    by (rule Cons.IH) (use Cons.prems in auto)
  with Cons.prems [of y] show ?case by (auto simp: Let_def split: prod.splits option.splits)
qed simp

lemma module_pass_good:
  assumes "\<And>r cs. f r = Some cs \<Longrightarrow> \<forall>c \<in> set cs. P c"
  shows "\<forall>c \<in> set (fst (module_pass f rs)). P c"
proof (induction rs)
  case (Cons r rs)
  then show ?case using assms [of r] by (auto simp: Let_def split: prod.splits option.splits)
qed simp

lemma python_chunk_parts:
  obtains cs where "fcr_chunks (python_chunk H lim parsed repo ver) = with_ordinals cs"
    and "length cs \<le> max_chunks_per_file lim" and "sorted (map python_chunk_key cs)"
    and "\<forall>c \<in> set cs. chunk_good H lim parsed c"
proof -
  let ?lines = "splitlines (pf_source_text parsed)" and ?imports = "map imp_source_text (pf_imports parsed)"
  let ?S = "symbol_pass lim (\<lambda>y. symbol_chunks H lim parsed y ?lines repo ver ?imports) (pf_symbols parsed)"
  let ?M = "module_pass (\<lambda>run. segment_chunks H lim parsed run ?lines repo ver CT_MODULE None ?imports)
      (contiguous_runs (pf_module_segments parsed))"
  let ?cs = "sort_key python_chunk_key (fst ?S @ fst ?M)"
  have "\<forall>c \<in> set ?cs. chunk_good H lim parsed c"
    using symbol_pass_good [OF symbol_chunks_good] module_pass_good [OF segment_chunks_good] by auto
  moreover have "fcr_chunks (python_chunk H lim parsed repo ver)
      = (if max_chunks_per_file lim < length ?cs then [] else with_ordinals ?cs)"
    by (simp add: python_chunk_def Let_def split: prod.splits)
  moreover have "with_ordinals [] = []" by (simp add: with_ordinals_def)
  ultimately show ?thesis
    by (cases "max_chunks_per_file lim < length ?cs") (auto intro: that [of "[]"] that [of ?cs])
qed


text \<open>
  The chunks of a Python file number at most the configured maximum, are numbered 0, 1, 2, ...
  in the order of their keys (first line, last line, type, qualified name, digest).
\<close>

theorem python_chunk_ordered:
  "let cs = fcr_chunks (python_chunk H lim parsed repo ver) in
   length cs \<le> max_chunks_per_file lim \<and> map ck_ordinal cs = [0..<length cs]
   \<and> sorted (map python_chunk_key cs)"
proof -
  obtain cs where cs: "fcr_chunks (python_chunk H lim parsed repo ver) = with_ordinals cs"
    "length cs \<le> max_chunks_per_file lim" "sorted (map python_chunk_key cs)"
    by (rule python_chunk_parts)
  have "map python_chunk_key (with_ordinals cs) = map python_chunk_key cs"
    by (rule map_with_ordinals) (simp add: python_chunk_key_def)
  with cs show ?thesis by (simp add: ordinals_with_ordinals)
qed

section \<open>No module code is lost\<close>

lemma concat_extend_runs: "concat (extend_runs run ss) = run @ ss"
  by (induction ss arbitrary: run) simp_all

lemma concat_contiguous_runs: "concat (contiguous_runs ss) = ss"
  by (cases ss) (simp_all add: concat_extend_runs)

lemma extend_runs_nonempty: "run \<noteq> [] \<Longrightarrow> r \<in> set (extend_runs run ss) \<Longrightarrow> r \<noteq> []"
  by (induction ss arbitrary: run) (auto split: if_splits)

lemma contiguous_runs_nonempty: "r \<in> set (contiguous_runs ss) \<Longrightarrow> r \<noteq> []"
  by (cases ss) (auto dest: extend_runs_nonempty [rotated])

text \<open>Lines in a segment that fits alone, in the order of the file.\<close>

definition segments_ordered :: "source_segment list \<Rightarrow> bool" where
  "segments_ordered ss \<longleftrightarrow>
     (\<forall>s \<in> set ss. 1 \<le> seg_start_line s \<and> seg_start_line s \<le> seg_end_line s)
     \<and> sorted_wrt (\<lambda>a b. seg_start_line a \<le> seg_start_line b \<and> seg_end_line a \<le> seg_end_line b) ss"

definition segment_fits_alone :: "chunker_limits \<Rightarrow> pystr list \<Rightarrow> source_segment \<Rightarrow> bool" where
  "segment_fits_alone lim lines s \<longleftrightarrow>
     line_slice lines (seg_start_line s) (seg_end_line s) \<noteq> []
     \<and> slice_fits lim lines (seg_start_line s) (seg_end_line s)"

lemma segments_ordered_sublist:
  "segments_ordered (concat rs) \<Longrightarrow> r \<in> set rs \<Longrightarrow> segments_ordered r"
proof (induction rs)
  case (Cons q rs)
  then show ?case by (auto simp: segments_ordered_def sorted_wrt_append)
qed simp

lemma group_nonempty_fits:
  assumes ord: "segments_ordered (s # ss)"
    and alone: "\<forall>q \<in> set (s # ss). segment_fits_alone lim lines q"
    and g: "g \<in> set (group_ranges (slice_fits lim lines) (seg_start_line s) (seg_end_line s)
      (map segment_range ss))"
  shows "line_slice lines (fst g) (snd g) \<noteq> [] \<and> slice_fits lim lines (fst g) (snd g)"
proof -
  let ?rs = "map segment_range (s # ss)"
  obtain bs where bs: "group_ranges (slice_fits lim lines) (seg_start_line s) (seg_end_line s)
      (map segment_range ss) = map span bs" "concat bs = ?rs"
    and fit: "\<forall>c \<in> set bs. c \<noteq> [] \<and> (length c = 1 \<or> slice_fits lim lines (fst (span c)) (snd (span c)))"
    using segments.pack_partition [of "slice_fits lim lines" "segment_range s" "map segment_range ss"]
    by (auto simp: segment_range_def)
  from g bs obtain b where b: "b \<in> set bs" "g = span b" by auto
  from b(1) have "set b \<subseteq> set (concat bs)" by auto
  then have sub: "set b \<subseteq> set ?rs" by (simp only: bs(2))
  have "b \<noteq> []" using fit b(1) by blast
  have sorted: "sorted_wrt (\<lambda>x y. fst x \<le> fst y \<and> snd x \<le> snd y) ?rs"
    using ord unfolding segments_ordered_def segment_range_def
    by (auto simp: sorted_wrt_map)
  have "sorted_wrt (\<lambda>x y. fst x \<le> fst y \<and> snd x \<le> snd y) b"
    using sorted b(1) unfolding bs(2) [symmetric]
    by (induction bs) (auto simp: sorted_wrt_append)
  then have last: "snd (hd b) \<le> snd (last b)"
    using \<open>b \<noteq> []\<close> by (cases b) (auto simp: last_ConsR)
  from sub \<open>b \<noteq> []\<close> obtain q where q: "q \<in> set (s # ss)" "hd b = segment_range q"
    by (cases b) auto
  then have q1: "1 \<le> fst (hd b)" "fst (hd b) \<le> snd (hd b)"
    using ord by (auto simp: segments_ordered_def segment_range_def)
  have "line_slice lines (fst (hd b)) (snd (hd b)) \<noteq> []"
    using alone q by (auto simp: segment_fits_alone_def segment_range_def)
  moreover have "utf8_len (line_slice lines (fst (hd b)) (snd (hd b)))
      \<le> utf8_len (line_slice lines (fst g) (snd g))"
    unfolding b(2) span_def using q1 last by (intro line_slice_length_mono) auto
  ultimately have "line_slice lines (fst g) (snd g) \<noteq> []" by fastforce
  moreover have "slice_fits lim lines (fst g) (snd g)"
  proof (cases "length b = 1")
    case True
    then have "g = segment_range q" using q b by (cases b) auto
    with alone q show ?thesis by (auto simp: segment_fits_alone_def segment_range_def)
  next
    case False
    with fit b show ?thesis by auto
  qed
  ultimately show ?thesis ..
qed

lemma segment_chunks_covers:
  assumes ord: "segments_ordered segs"
    and alone: "\<forall>q \<in> set segs. segment_fits_alone lim lines q"
  obtains cs where "segment_chunks H lim parsed segs lines repo ver ct symbol imports = Some cs"
    and "\<forall>q \<in> set segs. \<exists>c \<in> set cs. ck_chunk_type c = ct \<and> ck_start_line c \<le> seg_start_line q
      \<and> seg_end_line q \<le> ck_end_line c"
proof (cases segs)
  case Nil
  then show ?thesis by (intro that [of "[]"]) (simp_all add: segment_chunks_def)
next
  case (Cons s ss)
  let ?mk = "\<lambda>a b. make_chunk H lim parsed repo ver ct symbol imports (line_slice lines a b) a b"
  let ?gs = "group_ranges (slice_fits lim lines) (seg_start_line s) (seg_end_line s) (map segment_range ss)"
  have mk: "?mk a b \<noteq> None \<and> ck_chunk_type (the (?mk a b)) = ct
      \<and> ck_start_line (the (?mk a b)) = a \<and> ck_end_line (the (?mk a b)) = b" if "(a, b) \<in> set ?gs" for a b
    using group_nonempty_fits [OF ord [unfolded Cons] alone [unfolded Cons], of "(a, b)"] that
    by (auto simp: make_chunk_def slice_fits_def)
  have eq: "segment_chunks H lim parsed segs lines repo ver ct symbol imports
      = Some (map (\<lambda>g. the (?mk (fst g) (snd g))) ?gs)"
    using mk by (auto simp: segment_chunks_def Cons segment_loop_groups Let_def)
  have cov: "\<exists>c \<in> set (map (\<lambda>g. the (?mk (fst g) (snd g))) ?gs). ck_chunk_type c = ct
      \<and> ck_start_line c \<le> seg_start_line q \<and> seg_end_line q \<le> ck_end_line c" if "q \<in> set segs" for q
  proof -
    have "sorted_wrt (\<lambda>x y. fst x \<le> fst y \<and> snd x \<le> snd y)
        ((seg_start_line s, seg_end_line s) # map segment_range ss)"
      using ord Cons by (auto simp: segments_ordered_def segment_range_def sorted_wrt_map)
    moreover have "segment_range q \<in> set ((seg_start_line s, seg_end_line s) # map segment_range ss)"
      using that Cons by (auto simp: segment_range_def)
    ultimately have "\<exists>g \<in> set ?gs. fst g \<le> fst (segment_range q) \<and> snd (segment_range q) \<le> snd g"
      by (rule segments.pack_covers)
    then obtain g where "g \<in> set ?gs" "fst g \<le> seg_start_line q" "seg_end_line q \<le> snd g"
      by (auto simp: segment_range_def)
    then show ?thesis using mk [of "fst g" "snd g"] by force
  qed
  show ?thesis
    by (rule that [OF eq]) (intro ballI cov)
qed

lemma module_pass_covers:
  assumes "\<And>r. r \<in> set rs \<Longrightarrow> \<exists>cs. f r = Some cs \<and> (\<forall>q \<in> set r. \<exists>c \<in> set cs. P q c)"
  shows "\<forall>q \<in> set (concat rs). \<exists>c \<in> set (fst (module_pass f rs)). P q c"
  using assms
proof (induction rs)
  case (Cons r rs)
  then obtain cs where "f r = Some cs" "\<forall>q \<in> set r. \<exists>c \<in> set cs. P q c" by force
  moreover have "\<forall>q \<in> set (concat rs). \<exists>c \<in> set (fst (module_pass f rs)). P q c"
    by (rule Cons.IH) (use Cons.prems in auto)
  ultimately show ?case by (auto simp: Let_def split: prod.splits) fastforce+
qed simp


definition sample_limits :: chunker_limits where
  "sample_limits =
     \<lparr>max_symbol_bytes = 1000, max_chunk_bytes = 12, max_section_bytes = 200,
      max_chunks_per_file = 20, max_warnings = 5\<rparr>"

text \<open>A file of three statements, the first two of which share a chunk.\<close>

definition sample_file :: parsed_file where
  "sample_file =
     \<lparr>pf_file_path = py ''m.py'', pf_language = ''python'', pf_module_name = py ''m'',
      pf_source_text = py ''x = 1'' @ [10] @ py ''y = 2'' @ [10] @ py ''z = x + y'' @ [10],
      pf_imports = [], pf_module_docstring = None,
      pf_module_segments =
        [\<lparr>seg_text = py ''x = 1'', seg_start_line = 1, seg_end_line = 1,
          seg_node_type = ''expression_statement''\<rparr>,
         \<lparr>seg_text = py ''y = 2'', seg_start_line = 2, seg_end_line = 2,
          seg_node_type = ''expression_statement''\<rparr>,
         \<lparr>seg_text = py ''z = x + y'', seg_start_line = 3, seg_end_line = 3,
          seg_node_type = ''expression_statement''\<rparr>],
      pf_symbols = [], pf_call_sites = [], pf_commit_sha = ''abc'',
      pf_parse_status = PS_COMPLETE, pf_warnings = []\<rparr>"

lemmas python_chunk_eval =
  python_chunk_def segment_chunks_def make_chunk_def slice_fits_def with_ordinals_def
  sample_file_def sample_limits_def text_eval


lemma sample_file_chunked: "fcr_chunks (python_chunk (\<lambda>_. ''d'') sample_limits sample_file 7 1) \<noteq> []"
  by (simp add: python_chunk_eval)


section \<open>Form feeds shift the slices\<close>

text \<open>
  Segment lines are rows of the parser, which ends a row at a line feed only, while the chunker
  slices \<open>splitlines()\<close>, which also breaks at a form feed and other separators. In a file
  with a form feed on a line of its own the slice of a later segment is the text of another line.
\<close>

definition form_feed_file :: parsed_file where
  "form_feed_file = sample_file
     \<lparr>pf_source_text := py ''x = 1'' @ [10, 12, 10] @ py ''y = 2'' @ [10] @ py ''z = 3'' @ [10],
      pf_module_segments :=
        [\<lparr>seg_text = py ''y = 2'', seg_start_line = 3, seg_end_line = 3,
          seg_node_type = ''expression_statement''\<rparr>,
         \<lparr>seg_text = py ''z = 3'', seg_start_line = 4, seg_end_line = 4,
          seg_node_type = ''expression_statement''\<rparr>]\<rparr>"

text \<open>The rows of the parser: the text between line feeds.\<close>

definition parser_row :: "pystr \<Rightarrow> nat \<Rightarrow> pystr" where
  "parser_row src i = split_on 10 src ! (i - 1)"

text \<open>
  In the sample file every segment is the text of its parser row, yet the only chunk reports
  lines 3 to 4 with an empty line and the text of row 3; the statement of row 4 is in no chunk.
\<close>

theorem form_feed_shifts_chunks:
  "map (\<lambda>q. parser_row (pf_source_text form_feed_file) (seg_start_line q)) (pf_module_segments form_feed_file)
      = map seg_text (pf_module_segments form_feed_file)
   \<and> map (\<lambda>c. (ck_start_line c, ck_end_line c, ck_content c))
        (fcr_chunks (python_chunk H sample_limits form_feed_file repo ver))
      = [(3, 4, 10 # py ''y = 2'')]"
  by (simp add: form_feed_file_def parser_row_def python_chunk_eval)

end
