(* ===== verification/DocChunking.thy ===== *)
theory DocChunking
  imports PyChunking
begin

text \<open>
  \<open>DocumentationChunker\<close> of \<^verbatim>\<open>backend/app/indexing/chunking.py\<close>: Markdown sections by heading,
  paragraphs by blank line and fence, greedy packing of paragraphs, and splitting of a paragraph
  that is too large. The two regular expressions of the file are modelled by the functions
  \<open>fence_marker\<close> and \<open>heading_match\<close>.
\<close>

section \<open>Operations\<close>

definition markdown_suffixes :: "pystr set" where
  "markdown_suffixes = {py ''.md'', py ''.markdown''}"

definition documentation_suffixes :: "pystr set" where
  "documentation_suffixes = {py ''.txt'', py ''.rst''}"

record documentation_section =
  sec_start_line :: nat
  sec_end_line :: nat
  sec_heading_hierarchy :: "pystr list"

text \<open>Blanks of the patterns are the space and the tab, 35 is the hash sign.\<close>

definition is_blank_cp :: "nat \<Rightarrow> bool" where
  "is_blank_cp c \<longleftrightarrow> c = 32 \<or> c = 9"

text \<open>
  The match of \<open>FENCE_PATTERN\<close>, \<^verbatim>\<open>^[ \t]*(`{3,}|~{3,})\<close>: the first character of the fence,
  the only part of the match the code reads.
\<close>

definition fence_marker :: "pystr \<Rightarrow> nat option" where
  "fence_marker line =
     (let rest = dropWhile is_blank_cp line in
      if starts_with rest [96, 96, 96] then Some 96
      else if starts_with rest [126, 126, 126] then Some 126
      else None)"

text \<open>Whether a remainder matches the tail of the heading pattern, \<^verbatim>\<open>[ \t]*#*[ \t]*$\<close>.\<close>

definition heading_tail :: "pystr \<Rightarrow> bool" where
  "heading_tail s \<longleftrightarrow>
     dropWhile is_blank_cp (dropWhile (\<lambda>c. c = 35) (dropWhile is_blank_cp s)) = []"

text \<open>The lazy group \<open>(.+?)\<close>: the shortest non-empty prefix whose remainder is a tail.\<close>

fun lazy_title :: "pystr \<Rightarrow> pystr \<Rightarrow> pystr" where
  "lazy_title taken [] = taken"
| "lazy_title taken (c # rest) =
     (if taken \<noteq> [] \<and> heading_tail (c # rest) then taken else lazy_title (taken @ [c]) rest)"

text \<open>
  The match of \<open>HEADING_PATTERN\<close>: the level and the title. When only blanks follow the hashes
  the greedy \<^verbatim>\<open>[ \t]+\<close> gives one back, so two blanks are needed.
\<close>

definition heading_match :: "pystr \<Rightarrow> (nat \<times> pystr) option" where
  "heading_match line =
     (let level = length (takeWhile (\<lambda>c. c = 35) line);
          rest = drop level line;
          blanks = takeWhile is_blank_cp rest;
          title = drop (length blanks) rest in
      if level = 0 \<or> 6 < level \<or> blanks = [] then None
      else if title \<noteq> [] then Some (level, lazy_title [] title)
      else if 2 \<le> length blanks then Some (level, [last blanks])
      else None)"

text \<open>\<open>fence = None if fence == marker else marker if fence is None else fence\<close>.\<close>

definition toggle_fence :: "nat option \<Rightarrow> nat \<Rightarrow> nat option" where
  "toggle_fence fence marker =
     (if fence = Some marker then None else if fence = None then Some marker else fence)"

record section_state =
  ss_starts :: "(nat \<times> pystr list) list"
  ss_hierarchy :: "pystr list"
  ss_fence :: "nat option"

text \<open>One round of the loop over \<open>enumerate(lines, start=1)\<close> in \<open>_markdown_sections\<close>.\<close>

definition section_step :: "nat \<times> pystr \<Rightarrow> section_state \<Rightarrow> section_state" where
  "section_step il st =
     (let (index, line) = il in
      case fence_marker line of
        Some m \<Rightarrow> st\<lparr>ss_fence := toggle_fence (ss_fence st) m\<rparr>
      | None \<Rightarrow>
          if ss_fence st \<noteq> None then st
          else case heading_match line of
            None \<Rightarrow> st
          | Some (level, title) \<Rightarrow>
              let hierarchy = take (level - 1) (ss_hierarchy st) @ [strip title] in
              st\<lparr>ss_hierarchy := hierarchy,
                 ss_starts :=
                   (if index = 1 \<and> ss_starts st = [(1, [])] then [(1, hierarchy)]
                    else ss_starts st @ [(index, hierarchy)])\<rparr>)"

fun sections_from :: "nat \<Rightarrow> (nat \<times> pystr list) list \<Rightarrow> documentation_section list" where
  "sections_from n [] = []"
| "sections_from n ((start, headings) # rest) =
     (let end_line = (case rest of [] \<Rightarrow> n | (next, _) # _ \<Rightarrow> next - 1) in
      if start \<le> end_line
      then \<lparr>sec_start_line = start, sec_end_line = end_line, sec_heading_hierarchy = headings\<rparr>
           # sections_from n rest
      else sections_from n rest)"

definition markdown_sections :: "pystr list \<Rightarrow> documentation_section list" where
  "markdown_sections lines =
     (if lines = [] then [\<lparr>sec_start_line = 1, sec_end_line = 1, sec_heading_hierarchy = []\<rparr>]
      else
        let st = fold section_step (enumerate 1 lines)
              \<lparr>ss_starts = [(1, [])], ss_hierarchy = [], ss_fence = None\<rparr> in
        sections_from (length lines) (ss_starts st))"

record paragraph_state =
  pp_ranges :: "line_range list"
  pp_start :: "nat option"
  pp_fence :: "nat option"

text \<open>One round of \<open>_paragraph_ranges\<close> at a line number.\<close>

definition paragraph_step :: "pystr list \<Rightarrow> nat \<Rightarrow> paragraph_state \<Rightarrow> paragraph_state" where
  "paragraph_step lines i st =
     (let line = (if i \<le> length lines then lines ! (i - 1) else []) in
      case fence_marker line of
        Some m \<Rightarrow>
          st\<lparr>pp_start := (case pp_start st of None \<Rightarrow> Some i | Some p \<Rightarrow> Some p),
             pp_fence := toggle_fence (pp_fence st) m\<rparr>
      | None \<Rightarrow>
          if blank_line line \<and> pp_fence st = None
          then (case pp_start st of
                  None \<Rightarrow> st
                | Some p \<Rightarrow> st\<lparr>pp_ranges := pp_ranges st @ [(p, i - 1)], pp_start := None\<rparr>)
          else st\<lparr>pp_start := (case pp_start st of None \<Rightarrow> Some i | Some p \<Rightarrow> Some p)\<rparr>)"

definition paragraph_ranges :: "pystr list \<Rightarrow> nat \<Rightarrow> nat \<Rightarrow> line_range list" where
  "paragraph_ranges lines s e =
     (let st = fold (paragraph_step lines) [s..<Suc e]
            \<lparr>pp_ranges = [], pp_start = None, pp_fence = None\<rparr> in
      case pp_start st of None \<Rightarrow> pp_ranges st | Some p \<Rightarrow> pp_ranges st @ [(p, e)])"

text \<open>The loop of \<open>_split_lines\<close> over the remaining line numbers, from the group \<open>start..last\<close>.\<close>

fun split_loop :: "chunker_limits \<Rightarrow> pystr list \<Rightarrow> nat \<Rightarrow> nat \<Rightarrow> nat list \<Rightarrow> line_range list option" where
  "split_loop lim lines start last_line [] = Some [(start, last_line)]"
| "split_loop lim lines start last_line (i # is) =
     (if max_chunk_bytes lim < utf8_len (line_slice lines i i) then None
      else if max_chunk_bytes lim < utf8_len (line_slice lines start i)
      then map_option (Cons (start, last_line)) (split_loop lim lines i i is)
      else split_loop lim lines start i is)"

definition split_lines :: "chunker_limits \<Rightarrow> pystr list \<Rightarrow> nat \<Rightarrow> nat \<Rightarrow> line_range list option" where
  "split_lines lim lines s e = split_loop lim lines s s [s..<Suc e]"

text \<open>The loop of \<open>_pack_ranges\<close>; \<open>emit\<close> is what happens to a finished group.\<close>

definition emit_group :: "chunker_limits \<Rightarrow> pystr list \<Rightarrow> nat \<Rightarrow> nat \<Rightarrow> line_range list option" where
  "emit_group lim lines s e =
     (if max_chunk_bytes lim < utf8_len (line_slice lines s e) then split_lines lim lines s e
      else Some [(s, e)])"

fun pack_loop :: "chunker_limits \<Rightarrow> pystr list \<Rightarrow> nat \<Rightarrow> nat \<Rightarrow> line_range list \<Rightarrow> line_range list option" where
  "pack_loop lim lines s e [] = emit_group lim lines s e"
| "pack_loop lim lines s e (r # rs) =
     (if slice_fits lim lines s (snd r) then pack_loop lim lines s (snd r) rs
      else case emit_group lim lines s e of
        None \<Rightarrow> None
      | Some out \<Rightarrow>
          (case pack_loop lim lines (fst r) (snd r) rs of
             None \<Rightarrow> None
           | Some tail \<Rightarrow> Some (out @ tail)))"

fun pack_ranges :: "chunker_limits \<Rightarrow> pystr list \<Rightarrow> line_range list \<Rightarrow> line_range list option" where
  "pack_ranges lim lines [] = Some []"
| "pack_ranges lim lines (r # rs) = pack_loop lim lines (fst r) (snd r) rs"

text \<open>\<open>source_text.replace("\r\n", "\n").replace("\r", "\n")\<close>.\<close>

fun replace_crlf :: "pystr \<Rightarrow> pystr" where
  "replace_crlf [] = []"
| "replace_crlf [c] = [c]"
| "replace_crlf (c # d # s) =
     (if c = 13 \<and> d = 10 then 10 # replace_crlf s else c # replace_crlf (d # s))"

definition normalize_newlines :: "pystr \<Rightarrow> pystr" where
  "normalize_newlines s = map (\<lambda>c. if c = 13 then 10 else c) (replace_crlf s)"

definition doc_chunk_of ::
  "(pystr \<Rightarrow> string) \<Rightarrow> pystr \<Rightarrow> bool \<Rightarrow> pystr list \<Rightarrow> uuid \<Rightarrow> nat \<Rightarrow> string \<Rightarrow> pystr list \<Rightarrow> line_range
    \<Rightarrow> content_chunk" where
  "doc_chunk_of H file_path is_markdown lines repo ver commit_sha headings r =
     \<lparr>ck_repository_id = repo, ck_index_version = ver, ck_ordinal = 0, ck_file_path = file_path,
      ck_language = (if is_markdown then ''markdown'' else ''text''),
      ck_chunk_type = (if is_markdown then CT_MARKDOWN else CT_DOCUMENTATION),
      ck_symbol_name = None, ck_qualified_name = None, ck_parent_qualified_name = None,
      ck_heading_hierarchy = headings, ck_imports = [], ck_decorators = [], ck_signature = None,
      ck_docstring = None, ck_start_line = fst r, ck_end_line = snd r, ck_commit_sha = commit_sha,
      ck_content_hash = H (line_slice lines (fst r) (snd r)),
      ck_content = line_slice lines (fst r) (snd r)\<rparr>"

text \<open>The loop of \<open>chunk\<close> over the sections: chunks and warnings.\<close>

fun section_pass ::
  "chunker_limits \<Rightarrow> pystr list \<Rightarrow> (pystr list \<Rightarrow> line_range \<Rightarrow> content_chunk)
    \<Rightarrow> documentation_section list \<Rightarrow> content_chunk list \<times> string list" where
  "section_pass lim lines mk [] = ([], [])"
| "section_pass lim lines mk (sec # secs) =
     (let (cs, ws) = section_pass lim lines mk secs;
          s = sec_start_line sec; e = sec_end_line sec in
      if max_section_bytes lim < utf8_len (line_slice lines s e)
      then (cs, ''documentation_section_too_large'' # ws)
      else case pack_ranges lim lines (paragraph_ranges lines s e) of
        None \<Rightarrow> (cs, ''documentation_section_too_large'' # ws)
      | Some packed \<Rightarrow>
          (map (mk (sec_heading_hierarchy sec))
             (filter (\<lambda>r. line_slice lines (fst r) (snd r) \<noteq> []) packed) @ cs, ws))"

definition doc_chunk_key :: "content_chunk \<Rightarrow> nat \<times> nat \<times> string" where
  "doc_chunk_key c = (ck_start_line c, ck_end_line c, ck_content_hash c)"

definition documentation_chunk ::
  "(pystr \<Rightarrow> string) \<Rightarrow> chunker_limits \<Rightarrow> pystr \<Rightarrow> pystr \<Rightarrow> uuid \<Rightarrow> nat \<Rightarrow> string \<Rightarrow> file_chunk_result" where
  "documentation_chunk H lim file_path source_text repo ver commit_sha =
     (let suffix = lower (path_suffix file_path);
          is_markdown = (suffix \<in> markdown_suffixes);
          lines = splitlines (normalize_newlines source_text);
          sections = (if is_markdown then markdown_sections lines
            else [\<lparr>sec_start_line = 1, sec_end_line = max 1 (length lines),
                   sec_heading_hierarchy = []\<rparr>]);
          (cs, ws) = section_pass lim lines
            (doc_chunk_of H file_path is_markdown lines repo ver commit_sha) sections in
      if suffix \<notin> markdown_suffixes \<union> documentation_suffixes
      then \<lparr>fcr_chunks = [], fcr_warnings = [''unsupported_file'']\<rparr>
      else if max_chunks_per_file lim < length cs
      then \<lparr>fcr_chunks = [], fcr_warnings = [''chunk_count_exceeded'']\<rparr>
      else \<lparr>fcr_chunks = with_ordinals (sort_key doc_chunk_key cs),
            fcr_warnings = take (max_warnings lim) ws\<rparr>)"

section \<open>Sections partition the lines\<close>

definition section_range :: "documentation_section \<Rightarrow> line_range" where
  "section_range sec = (sec_start_line sec, sec_end_line sec)"

text \<open>The starts collected after \<open>k\<close> lines.\<close>

definition starts_ok :: "nat \<Rightarrow> (nat \<times> pystr list) list \<Rightarrow> bool" where
  "starts_ok k starts \<longleftrightarrow>
     starts \<noteq> [] \<and> fst (hd starts) = 1 \<and> sorted_wrt (<) (map fst starts)
     \<and> (\<forall>x \<in> set starts. fst x \<le> max 1 k) \<and> (k = 0 \<longrightarrow> starts = [(1, [])])"

lemma section_step_ok:
  assumes "starts_ok k (ss_starts st)"
  shows "starts_ok (Suc k) (ss_starts (section_step (Suc k, line) st))"
proof (cases "k = 0")
  case True
  with assms show ?thesis
    by (auto simp: starts_ok_def section_step_def Let_def split: option.splits)
next
  case False
  have "starts_ok (Suc k) (ss_starts st)"
    using assms False by (auto simp: starts_ok_def)
  moreover have "starts_ok (Suc k) (ss_starts st @ [(Suc k, h)])" for h
    using assms False by (fastforce simp: starts_ok_def sorted_wrt_append)
  ultimately show ?thesis
    using False by (auto simp: section_step_def Let_def split: option.splits)
qed

lemma fold_section_step_ok:
  "starts_ok k (ss_starts st) \<Longrightarrow>
   starts_ok (k + length lines) (ss_starts (fold section_step (enumerate (Suc k) lines) st))"
proof (induction lines arbitrary: k st)
  case (Cons line lines)
  from Cons.IH [OF section_step_ok [OF Cons.prems]] show ?case by simp
qed simp

lemma sections_from_partition:
  assumes "sorted_wrt (<) (map fst starts)" and "\<forall>x \<in> set starts. fst x \<le> n" and "starts \<noteq> []"
  shows "separated (map section_range (sections_from n starts))
    \<and> within (fst (hd starts)) n (map section_range (sections_from n starts))
    \<and> concat (map (\<lambda>s. [sec_start_line s..<Suc (sec_end_line s)]) (sections_from n starts))
      = [fst (hd starts)..<Suc n]"
  using assms
proof (induction n starts rule: sections_from.induct)
  case (2 n start headings rest)
  show ?case
  proof (cases rest)
    case Nil
    with "2.prems" show ?thesis
      by (simp add: section_range_def separated_Cons within_def)
  next
    case (Cons x xs)
    obtain next_start h where x: "x = (next_start, h)" by (cases x)
    with "2.prems" Cons have lt: "start < next_start" "next_start \<le> n" by auto
    then have le: "start \<le> next_start - 1" by simp
    have IH: "separated (map section_range (sections_from n rest))"
      "within next_start n (map section_range (sections_from n rest))"
      "concat (map (\<lambda>s. [sec_start_line s..<Suc (sec_end_line s)]) (sections_from n rest))
        = [next_start..<Suc n]"
      using "2.IH" "2.prems" Cons x lt le by auto
    have "[start..<Suc (next_start - 1)] @ [next_start..<Suc n] = [start..<Suc n]"
      using lt by (metis Suc_diff_1 le_add_diff_inverse le_Suc_eq less_imp_le_nat not_less_zero
          upt_add_eq_append zero_less_iff_neq_zero)
    moreover have eq: "sections_from n ((start, headings) # rest)
        = \<lparr>sec_start_line = start, sec_end_line = next_start - 1, sec_heading_hierarchy = headings\<rparr>
          # sections_from n rest"
      using Cons x le by simp
    moreover have "\<forall>q \<in> set (map section_range (sections_from n rest)). next_start - 1 < fst q"
      using IH(2) lt unfolding within_def by (metis Suc_diff_1 Suc_le_lessD less_nat_zero_code neq0_conv)
    moreover have "within start n (map section_range (sections_from n rest))"
      using IH(2) lt by (auto intro: within_mono)
    moreover have "section_range \<lparr>sec_start_line = start, sec_end_line = next_start - 1,
        sec_heading_hierarchy = headings\<rparr> = (start, next_start - 1)"
      by (simp add: section_range_def)
    ultimately show ?thesis
      unfolding eq using IH le lt
      by (simp add: separated_Cons within_def del: sections_from.simps upt_Suc)
  qed
qed simp

lemma markdown_sections_partition:
  assumes "lines \<noteq> []"
  shows "separated (map section_range (markdown_sections lines))
    \<and> within 1 (length lines) (map section_range (markdown_sections lines))
    \<and> concat (map (\<lambda>s. [sec_start_line s..<Suc (sec_end_line s)]) (markdown_sections lines))
      = [1..<Suc (length lines)]"
proof -
  let ?st = "fold section_step (enumerate 1 lines)
      \<lparr>ss_starts = [(1, [])], ss_hierarchy = [], ss_fence = None\<rparr>"
  have "starts_ok (length lines) (ss_starts ?st)"
    using fold_section_step_ok [of 0 "\<lparr>ss_starts = [(1, [])], ss_hierarchy = [], ss_fence = None\<rparr>" lines]
    by (simp add: starts_ok_def)
  with assms sections_from_partition [of "ss_starts ?st" "length lines"] show ?thesis
    by (cases lines) (auto simp: markdown_sections_def starts_ok_def Let_def)
qed

section \<open>Paragraphs\<close>

lemma fence_not_blank: "fence_marker line \<noteq> None \<Longrightarrow> \<not> blank_line line"
proof
  assume f: "fence_marker line \<noteq> None" and b: "blank_line line"
  have "set (dropWhile is_blank_cp line) \<subseteq> set line" by (auto dest: set_dropWhileD)
  with b have space: "\<forall>c \<in> set (dropWhile is_blank_cp line). is_space c"
    by (auto simp: blank_line_iff)
  from f have "dropWhile is_blank_cp line \<noteq> []
      \<and> hd (dropWhile is_blank_cp line) \<in> {96, 126}"
    by (cases "dropWhile is_blank_cp line")
      (auto simp: fence_marker_def starts_with_def Let_def split: if_splits)
  with space have "is_space 96 \<or> is_space 126" by (metis hd_in_set insertE singletonD)
  then show False by (simp add: is_space_def)
qed

definition line_at :: "pystr list \<Rightarrow> nat \<Rightarrow> pystr" where
  "line_at lines i = (if i \<le> length lines then lines ! (i - 1) else [])"

text \<open>The state of the paragraph loop after the lines \<open>s..i\<close>.\<close>

definition paragraphs_ok :: "pystr list \<Rightarrow> nat \<Rightarrow> nat \<Rightarrow> paragraph_state \<Rightarrow> bool" where
  "paragraphs_ok lines s k st \<longleftrightarrow>
     separated (pp_ranges st) \<and> within s (k - 1) (pp_ranges st)
     \<and> (case pp_start st of
          None \<Rightarrow> pp_fence st = None
        | Some p \<Rightarrow> s \<le> p \<and> p < k \<and> (\<forall>r \<in> set (pp_ranges st). snd r < p))
     \<and> (\<forall>j. s \<le> j \<and> j < k \<and> \<not> blank_line (line_at lines j) \<longrightarrow>
          (\<exists>r \<in> set (pp_ranges st). fst r \<le> j \<and> j \<le> snd r)
          \<or> (\<exists>p. pp_start st = Some p \<and> p \<le> j))"

lemma paragraph_step_ok:
  assumes "paragraphs_ok lines s k st" and "1 \<le> s" and "s \<le> k"
  shows "paragraphs_ok lines s (Suc k) (paragraph_step lines k st)"
proof -
  have mono: "within s k (pp_ranges st)"
    using assms by (auto simp: paragraphs_ok_def intro: within_mono)
  show ?thesis
  proof (cases "blank_line (line_at lines k) \<and> pp_fence st = None")
    case blank: True
    then have nf: "fence_marker (line_at lines k) = None" using fence_not_blank by blast
    show ?thesis
    proof (cases "pp_start st")
      case None
      then have "paragraph_step lines k st = st"
        using blank nf by (simp add: paragraph_step_def line_at_def Let_def)
      with assms None mono blank show ?thesis
        by (auto simp: paragraphs_ok_def less_Suc_eq)
    next
      case (Some p)
      then have step: "paragraph_step lines k st = st\<lparr>pp_ranges := pp_ranges st @ [(p, k - 1)], pp_start := None\<rparr>"
        using blank nf by (simp add: paragraph_step_def line_at_def Let_def)
      from Some assms have p: "s \<le> p" "p < k" "\<forall>r \<in> set (pp_ranges st). snd r < p"
        by (auto simp: paragraphs_ok_def)
      have "separated (pp_ranges st @ [(p, k - 1)])"
        using assms p by (auto simp: paragraphs_ok_def separated_append separated_Cons)
      moreover have "within s k (pp_ranges st @ [(p, k - 1)])"
        using mono p by (auto simp: within_def)
      moreover have "\<exists>r \<in> set (pp_ranges st @ [(p, k - 1)]). fst r \<le> j \<and> j \<le> snd r"
        if "s \<le> j" "j < Suc k" "\<not> blank_line (line_at lines j)" for j
        using that assms Some blank p by (auto simp: paragraphs_ok_def less_Suc_eq)
      ultimately show ?thesis
        using blank by (simp add: step paragraphs_ok_def)
    qed
  next
    case False
    then have start: "pp_start (paragraph_step lines k st)
          = (case pp_start st of None \<Rightarrow> Some k | Some p \<Rightarrow> Some p)"
      and ranges: "pp_ranges (paragraph_step lines k st) = pp_ranges st"
      by (auto simp: paragraph_step_def line_at_def Let_def split: option.splits)
    have below: "\<forall>r \<in> set (pp_ranges st). snd r < k" if "pp_start st = None"
      using assms that by (auto simp: paragraphs_ok_def within_def)
    show ?thesis
      using assms mono below
      by (auto simp: paragraphs_ok_def start ranges less_Suc_eq split: option.splits)
  qed
qed

lemma paragraphs_ok_fold:
  assumes "1 \<le> s"
  shows "s \<le> k \<Longrightarrow> paragraphs_ok lines s k
    (fold (paragraph_step lines) [s..<k] \<lparr>pp_ranges = [], pp_start = None, pp_fence = None\<rparr>)"
proof (induction k rule: nat_induct_at_least)
  case base
  then show ?case by (simp add: paragraphs_ok_def within_def)
next
  case (Suc k)
  from paragraph_step_ok [OF Suc.IH assms Suc.hyps] Suc.hyps show ?case by simp
qed

lemma paragraph_ranges_ok:
  assumes "1 \<le> s" and "s \<le> e"
  shows "separated (paragraph_ranges lines s e) \<and> within s e (paragraph_ranges lines s e)
    \<and> (\<forall>j. s \<le> j \<and> j \<le> e \<and> \<not> blank_line (line_at lines j) \<longrightarrow>
        (\<exists>r \<in> set (paragraph_ranges lines s e). fst r \<le> j \<and> j \<le> snd r))"
proof -
  let ?st = "fold (paragraph_step lines) [s..<Suc e] \<lparr>pp_ranges = [], pp_start = None, pp_fence = None\<rparr>"
  have ok: "paragraphs_ok lines s (Suc e) ?st"
    using paragraphs_ok_fold [OF assms(1), of "Suc e"] assms(2) by simp
  show ?thesis
  proof (cases "pp_start ?st")
    case None
    with ok have "paragraph_ranges lines s e = pp_ranges ?st"
      by (simp add: paragraph_ranges_def del: upt_Suc)
    with ok None show ?thesis
      unfolding paragraphs_ok_def by (auto simp: less_Suc_eq_le simp del: upt_Suc)
  next
    case (Some p)
    then have eq: "paragraph_ranges lines s e = pp_ranges ?st @ [(p, e)]"
      by (simp add: paragraph_ranges_def del: upt_Suc)
    from ok Some show ?thesis
      unfolding eq paragraphs_ok_def
      by (auto simp: separated_append separated_Cons within_def less_Suc_eq_le simp del: upt_Suc)
  qed
qed

section \<open>Packing and splitting tile the lines\<close>

text \<open>A tiling of \<open>s..e\<close>: separate ranges that fit, inside the bounds, covering every line.\<close>

definition tiles :: "chunker_limits \<Rightarrow> pystr list \<Rightarrow> nat \<Rightarrow> nat \<Rightarrow> line_range list \<Rightarrow> bool" where
  "tiles lim lines s e out \<longleftrightarrow>
     separated out \<and> within s e out
     \<and> (\<forall>j. s \<le> j \<and> j \<le> e \<longrightarrow> (\<exists>r \<in> set out. fst r \<le> j \<and> j \<le> snd r))
     \<and> (\<forall>r \<in> set out. slice_fits lim lines (fst r) (snd r))"

lemma split_loop_groups:
  "split_loop lim lines s l is =
     (if \<exists>i \<in> set is. \<not> slice_fits lim lines i i then None
      else Some (group_ranges (slice_fits lim lines) s l (map (\<lambda>i. (i, i)) is)))"
  by (induction "is" arbitrary: s l) (auto simp: slice_fits_def not_le)

lemma separated_singles: "separated (map (\<lambda>i. (i, i)) [a..<b])"
  by (auto simp: separated_def sorted_wrt_map)

lemma split_lines_tiles:
  assumes "s \<le> e" and "split_lines lim lines s e = Some out"
  shows "tiles lim lines s e out"
proof -
  let ?fits = "slice_fits lim lines" and ?ones = "map (\<lambda>i. (i, i)) [Suc s..<Suc e]"
  have upt: "[s..<Suc e] = s # [Suc s..<Suc e]"
    using assms(1) by (simp add: upt_conv_Cons del: upt_Suc)
  from assms(2) have fit: "\<forall>i \<in> set (s # [Suc s..<Suc e]). ?fits i i"
    and out: "out = group_ranges ?fits s s ?ones"
    unfolding split_lines_def upt split_loop_groups by (auto split: if_splits)
  have ones: "(s, s) # ?ones = map (\<lambda>i. (i, i)) [s..<Suc e]" by (simp only: upt list.map)
  then have sep: "separated ((s, s) # ?ones)" by (simp only: separated_singles)
  have "last ((s, s) # ?ones) = (e, e)"
    unfolding ones using assms(1) by (simp add: last_map)
  with segments.pack_separated [OF sep, of ?fits] have "separated out" "within s e out"
    by (simp_all only: out snd_conv)
  moreover have "\<exists>r \<in> set out. fst r \<le> j \<and> j \<le> snd r" if "s \<le> j" "j \<le> e" for j
  proof -
    have "(j, j) \<in> set ((s, s) # ?ones)" unfolding ones using that by auto
    from segments.pack_covers [OF separated_monotone [OF sep] this, of ?fits] show ?thesis
      by (simp add: out del: upt_Suc)
  qed
  moreover have "\<forall>r \<in> set out. ?fits (fst r) (snd r)"
    unfolding out by (rule segments.pack_all_fit) (use fit in auto)
  ultimately show ?thesis by (simp add: tiles_def)
qed

lemma split_lines_Some:
  "\<forall>i. s \<le> i \<and> i \<le> e \<longrightarrow> slice_fits lim lines i i \<Longrightarrow> split_lines lim lines s e \<noteq> None"
  by (auto simp: split_lines_def split_loop_groups simp del: upt_Suc)

lemma emit_group_tiles:
  "s \<le> e \<Longrightarrow> emit_group lim lines s e = Some out \<Longrightarrow> tiles lim lines s e out"
proof (cases "max_chunk_bytes lim < utf8_len (line_slice lines s e)")
  case True
  assume "s \<le> e" and "emit_group lim lines s e = Some out"
  with True show ?thesis by (simp add: emit_group_def split_lines_tiles)
next
  case False
  assume "s \<le> e" and "emit_group lim lines s e = Some out"
  with False show ?thesis
    by (auto simp: emit_group_def slice_fits_def tiles_def separated_Cons within_def)
qed

lemma pack_loop_groups:
  "pack_loop lim lines s e rs =
     (let gs = group_ranges (slice_fits lim lines) s e rs in
      if \<exists>g \<in> set gs. emit_group lim lines (fst g) (snd g) = None then None
      else Some (concat (map (\<lambda>g. the (emit_group lim lines (fst g) (snd g))) gs)))"
  by (induction rs arbitrary: s e) (auto simp: Let_def split: option.splits)

lemma pack_ranges_ok:
  assumes "separated rs" and "within a b rs" and "pack_ranges lim lines rs = Some out"
  shows "separated out \<and> within a b out \<and> (\<forall>r \<in> set out. slice_fits lim lines (fst r) (snd r))
    \<and> (\<forall>q \<in> set rs. \<forall>j. fst q \<le> j \<and> j \<le> snd q \<longrightarrow> (\<exists>r \<in> set out. fst r \<le> j \<and> j \<le> snd r))"
proof (cases rs)
  case Nil
  with assms show ?thesis by (simp add: within_def)
next
  case (Cons r rest)
  let ?fits = "slice_fits lim lines" and ?emit = "\<lambda>g. emit_group lim lines (fst g) (snd g)"
  let ?gs = "group_ranges ?fits (fst r) (snd r) rest"
  have sep: "separated ((fst r, snd r) # rest)" using assms(1) Cons by simp
  have gs: "separated ?gs" "within (fst r) (snd (last rs)) ?gs"
    using segments.pack_separated [OF sep, of ?fits] Cons by simp_all
  have tile: "tiles lim lines (fst g) (snd g) (the (?emit g))" if "g \<in> set ?gs" for g
    using assms(3) that gs(1) Cons
    by (auto simp: pack_loop_groups Let_def separated_def split: if_splits intro!: emit_group_tiles)
  have out: "out = concat (map (\<lambda>g. the (?emit g)) ?gs)"
    using assms(3) Cons by (auto simp: pack_loop_groups Let_def split: if_splits)
  have sep_out: "separated out"
    unfolding out by (rule separated_concat [OF gs(1)]) (use tile in \<open>auto simp: tiles_def\<close>)
  have "within (fst r) (snd (last rs)) out"
    using tile gs(2) unfolding out tiles_def within_def by fastforce
  moreover have "a \<le> fst r" and "snd (last rs) \<le> b"
    using assms(2) Cons last_in_set [of rs] by (simp_all only: within_def list.set_intros) simp
  ultimately have in_out: "within a b out" by (auto intro: within_mono)
  have fit: "\<forall>q \<in> set out. ?fits (fst q) (snd q)"
    using tile unfolding out tiles_def by auto
  have "\<exists>x \<in> set out. fst x \<le> j \<and> j \<le> snd x"
    if "q \<in> set rs" "fst q \<le> j" "j \<le> snd q" for q j
  proof -
    have "q \<in> set ((fst r, snd r) # rest)" using that Cons by simp
    from segments.pack_covers [OF separated_monotone [OF sep] this, of ?fits]
    obtain g where g: "g \<in> set ?gs" "fst g \<le> fst q" "snd q \<le> snd g" by blast
    with that have "fst g \<le> j" "j \<le> snd g" by simp_all
    with tile [OF g(1)] obtain x where "x \<in> set (the (?emit g))" "fst x \<le> j" "j \<le> snd x"
      by (auto simp: tiles_def)
    with g(1) show ?thesis unfolding out by auto
  qed
  with sep_out in_out fit show ?thesis by blast
qed

lemma pack_ranges_Some:
  assumes "\<forall>i. slice_fits lim lines i i"
  shows "pack_ranges lim lines rs \<noteq> None"
  using assms split_lines_Some
  by (cases rs) (auto simp: pack_loop_groups Let_def emit_group_def)

section \<open>The chunks of a document\<close>

definition chunk_range :: "content_chunk \<Rightarrow> line_range" where
  "chunk_range c = (ck_start_line c, ck_end_line c)"

text \<open>A chunk of a document: bounded, and the slice at its own position.\<close>

definition doc_chunk_good :: "(pystr \<Rightarrow> string) \<Rightarrow> chunker_limits \<Rightarrow> pystr list \<Rightarrow> content_chunk \<Rightarrow> bool" where
  "doc_chunk_good H lim lines c \<longleftrightarrow>
     chunk_bounded H lim c \<and> ck_content c = line_slice lines (ck_start_line c) (ck_end_line c)"

abbreviation doc_maker where
  "doc_maker H path md lines repo ver sha \<equiv> doc_chunk_of H path md lines repo ver sha"

lemma section_pass_ok:
  assumes "separated (map section_range secs)" and "within lo hi (map section_range secs)" and "1 \<le> lo"
  shows "separated (map chunk_range (fst (section_pass lim lines (doc_maker H path md lines repo ver sha) secs)))
    \<and> within lo hi (map chunk_range (fst (section_pass lim lines (doc_maker H path md lines repo ver sha) secs)))
    \<and> (\<forall>c \<in> set (fst (section_pass lim lines (doc_maker H path md lines repo ver sha) secs)).
        doc_chunk_good H lim lines c)"
  using assms
proof (induction secs arbitrary: lo)
  case Nil
  then show ?case by (simp add: within_def)
next
  case (Cons sec secs)
  let ?s = "sec_start_line sec" and ?e = "sec_end_line sec"
  let ?mk = "doc_maker H path md lines repo ver sha"
  let ?tail = "fst (section_pass lim lines ?mk secs)"
  from Cons.prems have se: "lo \<le> ?s" "?s \<le> ?e" "?e \<le> hi"
    and tail_in: "within (Suc ?e) hi (map section_range secs)"
    by (auto simp: separated_Cons within_def section_range_def Suc_le_eq)
  from Cons.prems(1) have sep: "separated (map section_range secs)" by (simp add: separated_Cons)
  from Cons.IH [OF sep tail_in] have IH: "separated (map chunk_range ?tail)"
    "within (Suc ?e) hi (map chunk_range ?tail)" "\<forall>c \<in> set ?tail. doc_chunk_good H lim lines c" by auto
  show ?case
  proof (cases "max_section_bytes lim < utf8_len (line_slice lines ?s ?e)
      \<or> pack_ranges lim lines (paragraph_ranges lines ?s ?e) = None")
    case True
    then have "fst (section_pass lim lines ?mk (sec # secs)) = ?tail"
      by (auto simp: Let_def case_prod_unfold)
    with IH se show ?thesis by (auto intro: within_mono)
  next
    case False
    then obtain packed where packed: "pack_ranges lim lines (paragraph_ranges lines ?s ?e) = Some packed"
      by auto
    let ?keep = "filter (\<lambda>r. line_slice lines (fst r) (snd r) \<noteq> []) packed"
    let ?head = "map (?mk (sec_heading_hierarchy sec)) ?keep"
    have pass: "fst (section_pass lim lines ?mk (sec # secs)) = ?head @ ?tail"
      using False packed by (auto simp: Let_def case_prod_unfold)
    have "1 \<le> ?s" using se Cons.prems(3) by simp
    with se(2) paragraph_ranges_ok [of ?s ?e lines] pack_ranges_ok [OF _ _ packed]
    have ok: "separated packed" "within ?s ?e packed"
      "\<forall>r \<in> set packed. slice_fits lim lines (fst r) (snd r)" by blast+
    have ranges: "map chunk_range ?head = ?keep"
      by (simp add: chunk_range_def doc_chunk_of_def comp_def)
    have keep: "separated ?keep" "within ?s ?e ?keep"
      using ok by (auto simp: separated_def within_def intro: sorted_wrt_filter)
    then have "separated (?keep @ map chunk_range ?tail)"
      using IH by (intro separated_append_within) auto
    moreover have "within lo hi (?keep @ map chunk_range ?tail)"
      using keep(2) IH(2) se by (auto simp: within_append intro: within_mono)
    moreover have "\<forall>c \<in> set ?head. doc_chunk_good H lim lines c"
      using ok(3) by (auto simp: doc_chunk_good_def chunk_bounded_def doc_chunk_of_def slice_fits_def)
    ultimately show ?thesis
      unfolding pass map_append ranges using IH(3) by auto
  qed
qed

text \<open>The lines and sections of a document, as the code computes them.\<close>

definition doc_lines :: "pystr \<Rightarrow> pystr list" where
  "doc_lines source_text = splitlines (normalize_newlines source_text)"

definition doc_sections :: "pystr \<Rightarrow> pystr \<Rightarrow> documentation_section list" where
  "doc_sections file_path source_text =
     (if lower (path_suffix file_path) \<in> markdown_suffixes then markdown_sections (doc_lines source_text)
      else [\<lparr>sec_start_line = 1, sec_end_line = max 1 (length (doc_lines source_text)),
             sec_heading_hierarchy = []\<rparr>])"

lemma doc_sections_ok:
  "separated (map section_range (doc_sections path src))
   \<and> within 1 (max 1 (length (doc_lines src))) (map section_range (doc_sections path src))
   \<and> concat (map (\<lambda>s. [sec_start_line s..<Suc (sec_end_line s)]) (doc_sections path src))
      = [1..<Suc (max 1 (length (doc_lines src)))]"
proof (cases "lower (path_suffix path) \<in> markdown_suffixes \<and> doc_lines src \<noteq> []")
  case True
  then have "max 1 (length (doc_lines src)) = length (doc_lines src)"
    by (cases "doc_lines src") auto
  with True markdown_sections_partition [of "doc_lines src"] show ?thesis
    by (simp add: doc_sections_def del: upt_Suc)
next
  case False
  then show ?thesis
    by (auto simp: doc_sections_def markdown_sections_def section_range_def separated_Cons within_def)
qed

text \<open>The chunks before they are counted, sorted and numbered.\<close>

definition doc_raw_chunks ::
  "(pystr \<Rightarrow> string) \<Rightarrow> chunker_limits \<Rightarrow> pystr \<Rightarrow> pystr \<Rightarrow> uuid \<Rightarrow> nat \<Rightarrow> string \<Rightarrow> content_chunk list" where
  "doc_raw_chunks H lim path src repo ver sha =
     fst (section_pass lim (doc_lines src)
       (doc_maker H path (lower (path_suffix path) \<in> markdown_suffixes) (doc_lines src) repo ver sha)
       (doc_sections path src))"

lemma doc_raw_chunks_ok:
  "separated (map chunk_range (doc_raw_chunks H lim path src repo ver sha))
   \<and> within 1 (max 1 (length (doc_lines src))) (map chunk_range (doc_raw_chunks H lim path src repo ver sha))
   \<and> (\<forall>c \<in> set (doc_raw_chunks H lim path src repo ver sha). doc_chunk_good H lim (doc_lines src) c)"
  unfolding doc_raw_chunks_def
  by (rule section_pass_ok) (use doc_sections_ok in auto)

lemma separated_sorted_key: "separated (map chunk_range cs) \<Longrightarrow> sorted (map doc_chunk_key cs)"
proof (induction cs)
  case (Cons c cs)
  then have "sorted (map doc_chunk_key cs)" by (simp add: separated_Cons)
  moreover have "doc_chunk_key c \<le> doc_chunk_key d" if "d \<in> set cs" for d
  proof -
    have "fst (chunk_range c) \<le> snd (chunk_range c)" and "snd (chunk_range c) < fst (chunk_range d)"
      using Cons.prems that by (auto simp: separated_Cons)
    then show ?thesis by (simp add: chunk_range_def doc_chunk_key_def)
  qed
  ultimately show ?case by simp
qed simp

lemma documentation_chunk_cases:
  "fcr_chunks (documentation_chunk H lim path src repo ver sha) = []
     \<and> (lower (path_suffix path) \<notin> markdown_suffixes \<union> documentation_suffixes
        \<or> fcr_warnings (documentation_chunk H lim path src repo ver sha) = [''chunk_count_exceeded''])
   \<or> fcr_chunks (documentation_chunk H lim path src repo ver sha)
       = with_ordinals (doc_raw_chunks H lim path src repo ver sha)
     \<and> length (doc_raw_chunks H lim path src repo ver sha) \<le> max_chunks_per_file lim"
proof -
  let ?cs = "doc_raw_chunks H lim path src repo ver sha"
  have "sort_key doc_chunk_key ?cs = ?cs"
    using doc_raw_chunks_ok separated_sorted_key by (metis sort_key_id_if_sorted)
  moreover have "fst (section_pass lim (doc_lines src)
       (doc_maker H path (lower (path_suffix path) \<in> markdown_suffixes) (doc_lines src) repo ver sha)
       (doc_sections path src)) = ?cs" by (simp add: doc_raw_chunks_def)
  ultimately show ?thesis
    by (auto simp: documentation_chunk_def doc_sections_def doc_lines_def Let_def case_prod_unfold)
qed

text \<open>
  Every chunk of a document is non-empty, takes at most the configured number of bytes in
  UTF-8, carries the digest of its text, and its text is exactly the slice of the normalised lines
  at the position it reports.
\<close>

theorem documentation_chunk_bounded_and_sourced:
  "\<forall>c \<in> set (fcr_chunks (documentation_chunk H lim path src repo ver sha)).
     chunk_bounded H lim c
     \<and> ck_content c = line_slice (splitlines (normalize_newlines src)) (ck_start_line c) (ck_end_line c)"
proof -
  have "(\<forall>c \<in> set (with_ordinals (doc_raw_chunks H lim path src repo ver sha)).
        doc_chunk_good H lim (doc_lines src) c)
      \<longleftrightarrow> (\<forall>c \<in> set (doc_raw_chunks H lim path src repo ver sha). doc_chunk_good H lim (doc_lines src) c)"
    by (rule ball_with_ordinals) (simp add: doc_chunk_good_def chunk_bounded_def)
  with doc_raw_chunks_ok have "\<forall>c \<in> set (fcr_chunks (documentation_chunk H lim path src repo ver sha)).
      doc_chunk_good H lim (doc_lines src) c"
    using documentation_chunk_cases [of H lim path src repo ver sha] by auto
  then show ?thesis by (simp add: doc_chunk_good_def doc_lines_def)
qed

text \<open>
  The chunks of a document come in the order of the file, no line belongs to two of them, they
  are numbered 0, 1, 2, ... and there are at most as many as the limit allows.
\<close>

theorem documentation_chunk_disjoint:
  "let cs = fcr_chunks (documentation_chunk H lim path src repo ver sha) in
   separated (map (\<lambda>c. (ck_start_line c, ck_end_line c)) cs)
   \<and> map ck_ordinal cs = [0..<length cs] \<and> length cs \<le> max_chunks_per_file lim"
proof -
  let ?raw = "doc_raw_chunks H lim path src repo ver sha"
  have "map chunk_range (with_ordinals ?raw) = map chunk_range ?raw"
    by (rule map_with_ordinals) (simp add: chunk_range_def)
  with doc_raw_chunks_ok have "separated (map chunk_range (with_ordinals ?raw))" by metis
  moreover have "chunk_range = (\<lambda>c. (ck_start_line c, ck_end_line c))"
    by (simp add: fun_eq_iff chunk_range_def)
  ultimately show ?thesis
    using documentation_chunk_cases [of H lim path src repo ver sha]
    by (auto simp: Let_def ordinals_with_ordinals)
qed

lemma all_lines_fit:
  assumes "\<forall>l \<in> set lines. utf8_len l \<le> max_chunk_bytes lim"
  shows "slice_fits lim lines i i"
proof (cases "1 \<le> i \<and> i \<le> length lines")
  case True
  then have "lines ! (i - 1) \<in> set lines" by (intro nth_mem) linarith
  with True assms show ?thesis by (simp add: slice_fits_def line_slice_single)
next
  case False
  then have "line_slice lines i i = []" by (auto simp: line_slice_def not_le)
  then show ?thesis by (simp add: slice_fits_def)
qed

lemma slice_nonblank:
  assumes "1 \<le> s" "s \<le> i" "i \<le> e" "i \<le> length lines" "\<not> blank_line (lines ! (i - 1))"
  shows "line_slice lines s e \<noteq> []"
proof
  assume "line_slice lines s e = []"
  then have "utf8_len (line_slice lines i i) = 0"
    using line_slice_length_mono [of s i i e lines] assms by simp
  then have "lines ! (i - 1) = []" using assms by (simp add: line_slice_single)
  with assms(5) show False by (simp add: blank_line_iff)
qed

lemma section_pass_covers:
  assumes fit: "\<forall>i. slice_fits lim lines i i"
    and small: "\<forall>sec \<in> set secs. 1 \<le> sec_start_line sec \<and> sec_start_line sec \<le> sec_end_line sec
      \<and> utf8_len (line_slice lines (sec_start_line sec) (sec_end_line sec)) \<le> max_section_bytes lim"
    and sec: "sec \<in> set secs" "sec_start_line sec \<le> i" "i \<le> sec_end_line sec"
    and line: "i \<le> length lines" "\<not> blank_line (lines ! (i - 1))"
  shows "\<exists>c \<in> set (fst (section_pass lim lines (doc_maker H path md lines repo ver sha) secs)).
    ck_start_line c \<le> i \<and> i \<le> ck_end_line c"
  using small sec(1)
proof (induction secs)
  case (Cons x xs)
  let ?s = "sec_start_line x" and ?e = "sec_end_line x"
  obtain packed where packed: "pack_ranges lim lines (paragraph_ranges lines ?s ?e) = Some packed"
    using pack_ranges_Some [OF fit] by blast
  have pass: "fst (section_pass lim lines (doc_maker H path md lines repo ver sha) (x # xs))
      = map (doc_maker H path md lines repo ver sha (sec_heading_hierarchy x))
          (filter (\<lambda>r. line_slice lines (fst r) (snd r) \<noteq> []) packed)
        @ fst (section_pass lim lines (doc_maker H path md lines repo ver sha) xs)"
    using Cons.prems(1) packed by (auto simp: Let_def case_prod_unfold)
  show ?case
  proof (cases "sec = x")
    case True
    have s: "1 \<le> ?s" "?s \<le> ?e" using Cons.prems(1) by auto
    obtain q where q: "q \<in> set (paragraph_ranges lines ?s ?e)" "fst q \<le> i" "i \<le> snd q"
      using paragraph_ranges_ok [OF s, of lines] sec line True by (auto simp: line_at_def)
    obtain r where r: "r \<in> set packed" "fst r \<le> i" "i \<le> snd r"
      using pack_ranges_ok [OF _ _ packed] paragraph_ranges_ok [OF s, of lines] q by meson
    have "1 \<le> fst r"
      using pack_ranges_ok [OF _ _ packed] paragraph_ranges_ok [OF s, of lines] r(1) s(1)
      by (meson le_trans within_def)
    then have "line_slice lines (fst r) (snd r) \<noteq> []"
      using r line by (intro slice_nonblank) auto
    with r show ?thesis unfolding pass by (force simp: doc_chunk_of_def)
  next
    case False
    with Cons.prems have "\<exists>c \<in> set (fst (section_pass lim lines (doc_maker H path md lines repo ver sha) xs)).
        ck_start_line c \<le> i \<and> i \<le> ck_end_line c"
      by (intro Cons.IH) auto
    then show ?thesis unfolding pass by auto
  qed
qed simp


definition sample_document :: pystr where
  "sample_document = py ''# A'' @ [10, 10] @ py ''one line'' @ [10] @ py ''two'' @ [13, 10]"

lemmas doc_chunk_eval =
  documentation_chunk_def normalize_newlines_def markdown_suffixes_def documentation_suffixes_def
  markdown_sections_def section_step_def heading_match_def heading_tail_def fence_marker_def
  starts_with_def is_blank_cp_def paragraph_ranges_def paragraph_step_def toggle_fence_def
  emit_group_def split_lines_def slice_fits_def doc_chunk_of_def with_ordinals_def doc_chunk_key_def
  path_suffix_def path_name_def path_names_def inner_dot_def blank_line_def strip_def is_space_def
  sample_document_def sample_limits_def text_eval Let_def


lemma sample_document_chunked:
  "fcr_chunks (documentation_chunk (\<lambda>_. ''d'') sample_limits (py ''docs/README.MD'') sample_document 7 1 ''abc'') \<noteq> []"
  by (simp add: doc_chunk_eval)

theorem documentation_chunk_bounded_and_sourced_witness:
  "chunk_bounded (\<lambda>_. ''d'') sample_limits (hd (fcr_chunks (documentation_chunk (\<lambda>_. ''d'') sample_limits
     (py ''docs/README.MD'') sample_document 7 1 ''abc'')))"
  using documentation_chunk_bounded_and_sourced [of "\<lambda>_. ''d''" sample_limits "py ''docs/README.MD''" sample_document 7 1 "''abc''"]
    hd_in_set [OF sample_document_chunked] by blast

end
