(* ===== verification/Discovery.thy ===== *)
theory Discovery
  imports LinePacking
begin

text \<open>
  File discovery: \<^verbatim>\<open>backend/app/indexing/discovery.py\<close>. The checkout is a tree of the
  entries \<open>os.scandir\<close> yields, in any order; what the operating system answers is part of the tree
  (an unreadable directory, an unresolvable link, an unreadable file). A path is the list of its
  components, \<open>pending\<close> a stack with its top in front.
\<close>

section \<open>The checkout\<close>

datatype fs_entry =
    FsSymlink pystr "pystr list option"
  | FsDir pystr "fs_entry list option"
  | FsFile pystr nat "nat list option"
  | FsSpecial pystr

record discovered_file =
  df_relative_path :: pystr
  df_size_bytes :: nat

record discovery_result =
  dr_files :: "discovered_file list"
  dr_inspected_file_count :: nat
  dr_total_bytes :: nat
  dr_skipped :: counter

record discovery_limits =
  dl_max_file_bytes :: nat
  dl_max_file_count :: nat
  dl_max_total_bytes :: nat

definition supported_suffixes :: "pystr set" where
  "supported_suffixes = py ` {''.py'', ''.pyi'', ''.md'', ''.markdown'', ''.txt'', ''.rst'',
     ''.toml'', ''.yaml'', ''.yml'', ''.json'', ''.ini'', ''.cfg''}"

definition ignored_directories :: "pystr set" where
  "ignored_directories = py ` {''.git'', ''.mypy_cache'', ''.pytest_cache'', ''.ruff_cache'',
     ''.tox'', ''.venv'', ''__pycache__'', ''build'', ''coverage'', ''dist'', ''env'',
     ''node_modules'', ''site-packages'', ''target'', ''vendor'', ''venv''}"

section \<open>Operations\<close>

definition is_relative_to :: "pystr list \<Rightarrow> pystr list \<Rightarrow> bool" where
  "is_relative_to path root \<longleftrightarrow> take (length root) path = root"

definition filesystem_error :: indexing_error where
  "filesystem_error =
     IndexingError ''discovery_filesystem_error'' ''Repository files could not be inspected'' False"

definition assert_within :: "pystr list \<Rightarrow> pystr list \<Rightarrow> indexing_error option" where
  "assert_within root path =
     (if is_relative_to path root then None
      else Some (IndexingError ''unsafe_repository_path'' ''Repository contains an unsafe path'' False))"

definition handle_symlink ::
  "pystr list \<Rightarrow> pystr list option \<Rightarrow> counter \<Rightarrow> indexing_error + counter" where
  "handle_symlink root resolved skipped =
     (case resolved of
        None \<Rightarrow> Inl (IndexingError ''unsafe_symlink''
                  ''Repository contains an unsafe symbolic link'' False)
      | Some tgt \<Rightarrow>
          if is_relative_to tgt root then Inr (bump ''symlink'' 1 skipped)
          else Inl (IndexingError ''symlink_escape''
                 ''Repository contains a symbolic link outside its root'' False))"

text \<open>\<open>b"\x00" in file.read(8_192)\<close>, or an \<open>OSError\<close>.\<close>

definition is_binary :: "nat list option \<Rightarrow> bool option" where
  "is_binary content = map_option (\<lambda>bytes. 0 \<in> set (take 8192 bytes)) content"

record discovery_state =
  ds_skipped :: counter
  ds_files :: "discovered_file list"
  ds_inspected :: nat
  ds_total :: nat

definition discover_file ::
  "discovery_limits \<Rightarrow> pystr list \<Rightarrow> pystr list \<Rightarrow> pystr \<Rightarrow> nat \<Rightarrow> nat list option \<Rightarrow> discovery_state
    \<Rightarrow> indexing_error + discovery_state" where
  "discover_file lim root path name nbytes content st =
     (let st = st\<lparr>ds_inspected := ds_inspected st + 1\<rparr> in
      if dl_max_file_count lim < ds_inspected st
      then Inl (IndexingError ''file_count_limit_exceeded''
             ''Repository exceeds the configured file-count limit'' False)
      else if lower (path_suffix name) \<notin> supported_suffixes
      then Inr (st\<lparr>ds_skipped := bump ''unsupported_type'' 1 (ds_skipped st)\<rparr>)
      else if dl_max_file_bytes lim < nbytes
      then Inr (st\<lparr>ds_skipped := bump ''oversized_file'' 1 (ds_skipped st)\<rparr>)
      else case is_binary content of
        None \<Rightarrow> Inl filesystem_error
      | Some True \<Rightarrow> Inr (st\<lparr>ds_skipped := bump ''binary_file'' 1 (ds_skipped st)\<rparr>)
      | Some False \<Rightarrow>
          if dl_max_total_bytes lim < ds_total st + nbytes
          then Inl (IndexingError ''discovered_bytes_limit_exceeded''
                 ''Repository exceeds the configured discovery-size limit'' False)
          else Inr (st\<lparr>ds_files := ds_files st @
                   [\<lparr>df_relative_path = join [47] (drop (length root) path), df_size_bytes = nbytes\<rparr>],
                 ds_total := ds_total st + nbytes\<rparr>))"

type_synonym pending_dir = "pystr list \<times> fs_entry list option"

fun entry_name :: "fs_entry \<Rightarrow> pystr" where
  "entry_name (FsSymlink n _) = n"
| "entry_name (FsDir n _) = n"
| "entry_name (FsFile n _ _) = n"
| "entry_name (FsSpecial n) = n"

text \<open>One round of the inner loop: the new state and the directories pushed.\<close>

definition discover_entry ::
  "discovery_limits \<Rightarrow> pystr list \<Rightarrow> pystr list \<Rightarrow> fs_entry \<Rightarrow> pending_dir list \<Rightarrow> discovery_state
    \<Rightarrow> indexing_error + (pending_dir list \<times> discovery_state)" where
  "discover_entry lim root dir entry pending st =
     (let path = dir @ [entry_name entry] in
      case assert_within root path of
        Some e \<Rightarrow> Inl e
      | None \<Rightarrow>
          (case entry of
             FsSymlink _ resolved \<Rightarrow>
               (case handle_symlink root resolved (ds_skipped st) of
                  Inl e \<Rightarrow> Inl e
                | Inr sk \<Rightarrow> Inr (pending, st\<lparr>ds_skipped := sk\<rparr>))
           | FsDir name entries \<Rightarrow>
               (if name \<in> ignored_directories
                then Inr (pending, st\<lparr>ds_skipped := bump ''ignored_directory'' 1 (ds_skipped st)\<rparr>)
                else Inr ((path, entries) # pending, st))
           | FsSpecial _ \<Rightarrow>
               Inr (pending, st\<lparr>ds_skipped := bump ''special_file'' 1 (ds_skipped st)\<rparr>)
           | FsFile name nbytes content \<Rightarrow>
               (case discover_file lim root path name nbytes content st of
                  Inl e \<Rightarrow> Inl e
                | Inr st' \<Rightarrow> Inr (pending, st'))))"

fun discover_entries ::
  "discovery_limits \<Rightarrow> pystr list \<Rightarrow> pystr list \<Rightarrow> fs_entry list \<Rightarrow> pending_dir list \<Rightarrow> discovery_state
    \<Rightarrow> indexing_error + (pending_dir list \<times> discovery_state)" where
  "discover_entries lim root dir [] pending st = Inr (pending, st)"
| "discover_entries lim root dir (e # es) pending st =
     (case discover_entry lim root dir e pending st of
        Inl err \<Rightarrow> Inl err
      | Inr (pending', st') \<Rightarrow> discover_entries lim root dir es pending' st')"

definition pending_size :: "pending_dir list \<Rightarrow> nat" where
  "pending_size ps =
     sum_list (map (\<lambda>p. Suc (case snd p of None \<Rightarrow> 0 | Some es \<Rightarrow> size_list size es)) ps)"

lemma discover_entry_size:
  "discover_entry lim root dir e pending st = Inr (pending', st') \<Longrightarrow>
   pending_size pending' \<le> pending_size pending + size e"
  by (auto simp: discover_entry_def pending_size_def Let_def
      split: option.splits fs_entry.splits sum.splits if_splits)

lemma discover_entries_size:
  "discover_entries lim root dir es pending st = Inr (pending', st') \<Longrightarrow>
   pending_size pending' \<le> pending_size pending + size_list size es"
proof (induction es arbitrary: pending st)
  case (Cons e es)
  then obtain p1 s1 where e: "discover_entry lim root dir e pending st = Inr (p1, s1)"
    and es: "discover_entries lim root dir es p1 s1 = Inr (pending', st')"
    by (auto split: sum.splits prod.splits)
  from Cons.IH [OF es] discover_entry_size [OF e] show ?case by simp
qed simp

text \<open>The outer loop: each round pops a directory, and what it pushes is smaller.\<close>

function discover_loop ::
  "discovery_limits \<Rightarrow> pystr list \<Rightarrow> pending_dir list \<Rightarrow> discovery_state
    \<Rightarrow> indexing_error + discovery_state" where
  "discover_loop lim root [] st = Inr st"
| "discover_loop lim root ((dir, None) # pending) st = Inl filesystem_error"
| "discover_loop lim root ((dir, Some es) # pending) st =
     (case discover_entries lim root dir es pending st of
        Inl e \<Rightarrow> Inl e
      | Inr (pending', st') \<Rightarrow> discover_loop lim root pending' st')"
  by pat_completeness auto
termination
proof (relation "measure (\<lambda>(lim, root, pending, st). pending_size pending)", goal_cases)
  case (2 lim root dir es pending st q pending' st')
  then have "discover_entries lim root dir es pending st = Inr (pending', st')"
    by simp
  from discover_entries_size [OF this] show ?case
    by (simp add: pending_size_def)
qed simp

definition discover ::
  "discovery_limits \<Rightarrow> pystr list \<Rightarrow> bool \<Rightarrow> fs_entry list option \<Rightarrow> indexing_error + discovery_result" where
  "discover lim root root_is_dir tree =
     (if \<not> root_is_dir
      then Inl (IndexingError ''unsafe_clone_path'' ''Repository clone path is unsafe'' False)
      else case discover_loop lim root [(root, tree)]
             \<lparr>ds_skipped = [], ds_files = [], ds_inspected = 0, ds_total = 0\<rparr> of
        Inl e \<Rightarrow> Inl e
      | Inr st \<Rightarrow> Inr
          \<lparr>dr_files = sort_key df_relative_path (ds_files st),
           dr_inspected_file_count = ds_inspected st, dr_total_bytes = ds_total st,
           dr_skipped = sorted_items (ds_skipped st)\<rparr>)"

section \<open>What a run returns\<close>

text \<open>
  The reference: the entries a complete walk meets, each with its path, and what each of them
  contributes. A directory stays in the list when it is ignored or cannot be read.
\<close>

fun entry_leaves :: "pystr list \<Rightarrow> fs_entry \<Rightarrow> (pystr list \<times> fs_entry) list" where
  "entry_leaves dir (FsDir n es) =
     (if n \<in> ignored_directories then [(dir @ [n], FsDir n es)]
      else case es of
        None \<Rightarrow> [(dir @ [n], FsDir n None)]
      | Some l \<Rightarrow> concat (map (entry_leaves (dir @ [n])) l))"
| "entry_leaves dir (FsSymlink n t) = [(dir @ [n], FsSymlink n t)]"
| "entry_leaves dir (FsFile n sz c) = [(dir @ [n], FsFile n sz c)]"
| "entry_leaves dir (FsSpecial n) = [(dir @ [n], FsSpecial n)]"

definition dir_leaves :: "pystr list \<Rightarrow> fs_entry list option \<Rightarrow> (pystr list \<times> fs_entry) list" where
  "dir_leaves dir es =
     (case es of None \<Rightarrow> [(dir, FsDir [] None)] | Some l \<Rightarrow> concat (map (entry_leaves dir) l))"

text \<open>Why the walk passes over an entry, if it does.\<close>

fun skip_reason :: "discovery_limits \<Rightarrow> fs_entry \<Rightarrow> string option" where
  "skip_reason lim (FsSymlink _ _) = Some ''symlink''"
| "skip_reason lim (FsDir _ _) = Some ''ignored_directory''"
| "skip_reason lim (FsSpecial _) = Some ''special_file''"
| "skip_reason lim (FsFile n sz c) =
     (if lower (path_suffix n) \<notin> supported_suffixes then Some ''unsupported_type''
      else if dl_max_file_bytes lim < sz then Some ''oversized_file''
      else if is_binary c = Some True then Some ''binary_file'' else None)"

text \<open>An entry that ends the run whatever its place: the walk fails closed on it.\<close>

fun entry_safe :: "discovery_limits \<Rightarrow> pystr list \<Rightarrow> fs_entry \<Rightarrow> bool" where
  "entry_safe lim root (FsSymlink _ t) =
     (case t of None \<Rightarrow> False | Some p \<Rightarrow> is_relative_to p root)"
| "entry_safe lim root (FsDir n _) = (n \<in> ignored_directories)"
| "entry_safe lim root (FsSpecial _) = True"
| "entry_safe lim root (FsFile n sz c) = (skip_reason lim (FsFile n sz c) = None \<longrightarrow> c \<noteq> None)"

fun entry_bytes :: "fs_entry \<Rightarrow> nat" where
  "entry_bytes (FsFile _ sz _) = sz"
| "entry_bytes _ = 0"

fun is_regular :: "fs_entry \<Rightarrow> bool" where
  "is_regular (FsFile _ _ _) = True"
| "is_regular _ = False"

definition found_files ::
  "discovery_limits \<Rightarrow> pystr list \<Rightarrow> (pystr list \<times> fs_entry) list \<Rightarrow> discovered_file list" where
  "found_files lim root ls =
     map (\<lambda>(path, e). \<lparr>df_relative_path = join [47] (drop (length root) path),
                       df_size_bytes = entry_bytes e\<rparr>)
       (filter (\<lambda>(path, e). skip_reason lim e = None) ls)"

definition regular_count :: "(pystr list \<times> fs_entry) list \<Rightarrow> nat" where
  "regular_count ls = length (filter (is_regular \<circ> snd) ls)"

definition skip_count :: "discovery_limits \<Rightarrow> (pystr list \<times> fs_entry) list \<Rightarrow> string \<Rightarrow> nat" where
  "skip_count lim ls reason = length (filter (\<lambda>l. skip_reason lim (snd l) = Some reason) ls)"

definition file_bytes :: "discovered_file list \<Rightarrow> nat" where
  "file_bytes fs = sum_list (map df_size_bytes fs)"

text \<open>What a state and the entries still ahead of it come to.\<close>

definition tally where
  "tally lim root ls st =
     (mset (ds_files st) + mset (found_files lim root ls), ds_inspected st + regular_count ls,
      ds_total st + file_bytes (found_files lim root ls),
      \<lambda>reason. counter_get (ds_skipped st) reason + skip_count lim ls reason)"

definition all_safe where
  "all_safe lim root ls \<longleftrightarrow> (\<forall>l \<in> set ls. entry_safe lim root (snd l))"

definition acceptable where
  "acceptable lim root ls st \<longleftrightarrow> all_safe lim root ls
     \<and> ds_inspected st + regular_count ls \<le> dl_max_file_count lim
     \<and> ds_total st + file_bytes (found_files lim root ls) \<le> dl_max_total_bytes lim"

definition within_limits where
  "within_limits lim st \<longleftrightarrow>
     ds_inspected st \<le> dl_max_file_count lim \<and> ds_total st \<le> dl_max_total_bytes lim"

lemmas tally_defs = tally_def found_files_def regular_count_def skip_count_def file_bytes_def
  all_safe_def acceptable_def within_limits_def

definition pending_leaves :: "pending_dir list \<Rightarrow> (pystr list \<times> fs_entry) list" where
  "pending_leaves ps = concat (map (\<lambda>p. dir_leaves (fst p) (snd p)) ps)"

lemma pending_leaves_simps [simp]:
  "pending_leaves [] = []"
  "pending_leaves (p # ps) = dir_leaves (fst p) (snd p) @ pending_leaves ps"
  by (simp_all add: pending_leaves_def)

lemma dir_leaves_push:
  "n \<notin> ignored_directories \<Longrightarrow>
     all_safe lim root (dir_leaves (dir @ [n]) es @ ls)
       = all_safe lim root (entry_leaves dir (FsDir n es) @ ls)
   \<and> tally lim root (dir_leaves (dir @ [n]) es @ ls) st
       = tally lim root (entry_leaves dir (FsDir n es) @ ls) st"
  by (cases es) (auto simp: dir_leaves_def tally_defs ignored_directories_def py_def)

lemma acceptable_tally:
  "acceptable lim root ls st \<longleftrightarrow> all_safe lim root ls
     \<and> fst (snd (tally lim root ls st)) \<le> dl_max_file_count lim
     \<and> fst (snd (snd (tally lim root ls st))) \<le> dl_max_total_bytes lim"
  by (simp add: acceptable_def tally_def)

lemma relative_to_child: "is_relative_to dir root \<Longrightarrow> is_relative_to (dir @ [n]) root"
  by (auto simp: is_relative_to_def) (metis append_eq_conv_conj append_take_drop_id append.assoc
      length_take min.absorb2 nat_le_linear take_all)

lemma discover_file_tally:
  assumes "discover_file lim root path n sz c st = Inr st'" and "within_limits lim st"
  shows "tally lim root ls st' = tally lim root ((path, FsFile n sz c) # ls) st"
    and "entry_safe lim root (FsFile n sz c)" and "within_limits lim st'"
  using assms
  by (auto simp: discover_file_def Let_def tally_defs is_binary_def counter_get_bump fun_eq_iff
      split: if_splits option.splits bool.splits)

lemma discover_file_fails:
  assumes "discover_file lim root path n sz c st = Inl e"
  shows "\<not> acceptable lim root ((path, FsFile n sz c) # ls) st"
  using assms
  by (auto simp: discover_file_def Let_def tally_defs is_binary_def
      split: if_splits option.splits bool.splits)

lemma discover_entry_tally:
  assumes "discover_entry lim root dir e pending st = Inr (pending', st')"
    and "within_limits lim st" and "is_relative_to dir root"
    and "\<forall>p \<in> set pending. is_relative_to (fst p) root"
  shows "tally lim root (pending_leaves pending') st'
           = tally lim root (entry_leaves dir e @ pending_leaves pending) st
       \<and> all_safe lim root (pending_leaves pending')
           = all_safe lim root (entry_leaves dir e @ pending_leaves pending)
       \<and> within_limits lim st' \<and> (\<forall>p \<in> set pending'. is_relative_to (fst p) root)"
proof (cases e)
  case (FsSymlink n t)
  with assms show ?thesis
    by (auto simp: discover_entry_def assert_within_def handle_symlink_def tally_defs
        counter_get_bump fun_eq_iff relative_to_child split: option.splits if_splits)
next
  case (FsDir n es)
  show ?thesis
  proof (cases "n \<in> ignored_directories")
    case True
    with FsDir assms show ?thesis
      by (auto simp: discover_entry_def assert_within_def tally_defs counter_get_bump fun_eq_iff
          relative_to_child)
  next
    case False
    with FsDir assms have "pending' = (dir @ [n], es) # pending" "st' = st"
      by (simp_all add: discover_entry_def assert_within_def relative_to_child)
    with False FsDir assms dir_leaves_push [OF False, of lim root dir es "pending_leaves pending" st]
    show ?thesis by (auto simp del: entry_leaves.simps intro: relative_to_child)
  qed
next
  case (FsFile n sz c)
  with assms have f: "discover_file lim root (dir @ [n]) n sz c st = Inr st'" "pending' = pending"
    by (auto simp: discover_entry_def assert_within_def relative_to_child split: sum.splits)
  from discover_file_tally [OF f(1) assms(2)] FsFile f(2) assms(4) show ?thesis
    by (simp add: all_safe_def del: entry_safe.simps)
next
  case (FsSpecial n)
  with assms show ?thesis
    by (auto simp: discover_entry_def assert_within_def tally_defs counter_get_bump fun_eq_iff
        relative_to_child)
qed

lemma acceptable_append_left:
  "acceptable lim root (ls @ ls') st \<Longrightarrow> acceptable lim root ls st"
  by (auto simp: tally_defs)

lemma discover_entry_fails:
  assumes "discover_entry lim root dir e pending st = Inl err" and "is_relative_to dir root"
  shows "\<not> acceptable lim root (entry_leaves dir e @ ls) st"
proof -
  have "\<not> acceptable lim root (entry_leaves dir e) st"
  proof (cases e)
    case (FsFile n sz c)
    with assms have "discover_file lim root (dir @ [n]) n sz c st = Inl err"
      by (auto simp: discover_entry_def assert_within_def relative_to_child split: sum.splits)
    from discover_file_fails [OF this] FsFile show ?thesis by simp
  qed (use assms in \<open>auto simp: discover_entry_def assert_within_def handle_symlink_def
      relative_to_child acceptable_def all_safe_def split: option.splits if_splits\<close>)
  then show ?thesis by (blast dest: acceptable_append_left)
qed
lemma all_safe_append: "all_safe lim root (xs @ ys) \<longleftrightarrow> all_safe lim root xs \<and> all_safe lim root ys"
  by (auto simp: all_safe_def)

lemma tally_frame:
  "tally lim root xs st = tally lim root ys st' \<Longrightarrow>
   tally lim root (zs @ xs) st = tally lim root (zs @ ys) st'"
  by (auto simp: tally_defs fun_eq_iff ac_simps)

definition pending_inside :: "pystr list \<Rightarrow> pending_dir list \<Rightarrow> bool" where
  "pending_inside root pending \<longleftrightarrow> (\<forall>p \<in> set pending. is_relative_to (fst p) root)"

lemma discover_entries_tally:
  assumes "is_relative_to dir root" and "within_limits lim st" and "pending_inside root pending"
  shows "case discover_entries lim root dir es pending st of
      Inl err \<Rightarrow> \<not> acceptable lim root (dir_leaves dir (Some es) @ pending_leaves pending) st
    | Inr (pending', st') \<Rightarrow>
        tally lim root (pending_leaves pending') st'
          = tally lim root (dir_leaves dir (Some es) @ pending_leaves pending) st
      \<and> all_safe lim root (pending_leaves pending')
          = all_safe lim root (dir_leaves dir (Some es) @ pending_leaves pending)
      \<and> within_limits lim st' \<and> pending_inside root pending'"
  using assms(2,3)
proof (induction es arbitrary: pending st)
  case Nil
  then show ?case by (simp add: dir_leaves_def)
next
  case (Cons e es)
  have leaves: "dir_leaves dir (Some (e # es)) = entry_leaves dir e @ dir_leaves dir (Some es)"
    by (simp add: dir_leaves_def)
  show ?case
  proof (cases "discover_entry lim root dir e pending st")
    case (Inl err)
    from discover_entry_fails [OF Inl assms(1)] show ?thesis
      by (simp add: Inl leaves del: entry_leaves.simps)
  next
    case (Inr q)
    obtain p1 s1 where q: "q = (p1, s1)" by (cases q)
    note e = discover_entry_tally [OF Inr [unfolded q] Cons.prems(1) assms(1)
        Cons.prems(2) [unfolded pending_inside_def]]
    from e have "within_limits lim s1" "pending_inside root p1"
      by (simp_all add: pending_inside_def)
    note ih = Cons.IH [OF this]
    have t: "tally lim root (dir_leaves dir (Some es) @ pending_leaves p1) s1
        = tally lim root (dir_leaves dir (Some (e # es)) @ pending_leaves pending) st"
      using tally_frame [of lim root _ s1 _ st "dir_leaves dir (Some es)", OF conjunct1 [OF e]]
      by (simp add: leaves tally_defs fun_eq_iff ac_simps del: entry_leaves.simps)
    have s: "all_safe lim root (dir_leaves dir (Some es) @ pending_leaves p1)
        = all_safe lim root (dir_leaves dir (Some (e # es)) @ pending_leaves pending)"
      using e by (auto simp: leaves all_safe_append)
    from ih show ?thesis
      by (simp add: Inr q t s acceptable_tally split: sum.splits prod.splits)
  qed
qed

lemma discover_loop_tally:
  assumes "within_limits lim st" and "pending_inside root pending"
  shows "case discover_loop lim root pending st of
      Inl err \<Rightarrow> \<not> acceptable lim root (pending_leaves pending) st
    | Inr st' \<Rightarrow> tally lim root [] st' = tally lim root (pending_leaves pending) st
        \<and> all_safe lim root (pending_leaves pending) \<and> within_limits lim st'"
  using assms
proof (induction lim root pending st rule: discover_loop.induct)
  case (1 lim root st)
  then show ?case by (simp add: all_safe_def)
next
  case (2 lim root dir pending st)
  then show ?case
    by (simp add: acceptable_def all_safe_def dir_leaves_def ignored_directories_def py_def)
next
  case (3 lim root dir es pending st)
  from 3(3) have dir: "is_relative_to dir root" and inside: "pending_inside root pending"
    by (simp_all add: pending_inside_def)
  note es = discover_entries_tally [OF dir 3(2) inside, of es]
  show ?case
  proof (cases "discover_entries lim root dir es pending st")
    case (Inl err)
    with es show ?thesis by simp
  next
    case (Inr q)
    obtain p1 s1 where q: "q = (p1, s1)" by (cases q)
    from es have e: "tally lim root (pending_leaves p1) s1
          = tally lim root (dir_leaves dir (Some es) @ pending_leaves pending) st"
      "all_safe lim root (pending_leaves p1)
          = all_safe lim root (dir_leaves dir (Some es) @ pending_leaves pending)"
      "within_limits lim s1" "pending_inside root p1"
      by (simp_all add: Inr q)
    from 3(1) [OF Inr q [symmetric] e(3,4)] show ?thesis
      by (simp add: Inr q e(1,2) acceptable_tally split: sum.splits)
  qed
qed

lemma discovery_outcome:
  "case discover lim root True (Some tree) of
     Inl err \<Rightarrow> \<not> (let ls = dir_leaves root (Some tree) in
       all_safe lim root ls \<and> regular_count ls \<le> dl_max_file_count lim
       \<and> file_bytes (found_files lim root ls) \<le> dl_max_total_bytes lim)
   | Inr r \<Rightarrow> (let ls = dir_leaves root (Some tree) in
       all_safe lim root ls \<and> regular_count ls \<le> dl_max_file_count lim
       \<and> file_bytes (found_files lim root ls) \<le> dl_max_total_bytes lim
       \<and> mset (dr_files r) = mset (found_files lim root ls)
       \<and> sorted (map df_relative_path (dr_files r))
       \<and> dr_inspected_file_count r = regular_count ls
       \<and> dr_total_bytes r = file_bytes (dr_files r)
       \<and> (\<forall>reason. counter_get (dr_skipped r) reason = skip_count lim ls reason))"
proof -
  define ls where "ls = dir_leaves root (Some tree)"
  define st where "st = \<lparr>ds_skipped = [], ds_files = [], ds_inspected = 0, ds_total = 0\<rparr>"
  have "within_limits lim st" and "pending_inside root [(root, Some tree)]"
    by (simp_all add: within_limits_def st_def pending_inside_def is_relative_to_def)
  note run = discover_loop_tally [OF this]
  have acc: "acceptable lim root (pending_leaves [(root, Some tree)]) st \<longleftrightarrow>
      all_safe lim root ls \<and> regular_count ls \<le> dl_max_file_count lim
       \<and> file_bytes (found_files lim root ls) \<le> dl_max_total_bytes lim"
    by (simp add: acceptable_def ls_def st_def)
  show ?thesis
  proof (cases "discover_loop lim root [(root, Some tree)] st")
    case (Inl err)
    with run acc show ?thesis by (simp add: discover_def st_def [symmetric] ls_def Let_def)
  next
    case (Inr st')
    with run have t: "tally lim root [] st' = tally lim root ls st"
      and safe: "all_safe lim root ls" and limits: "within_limits lim st'"
      by (simp_all add: ls_def)
    from t have files: "mset (ds_files st') = mset (found_files lim root ls)"
      and counts: "ds_inspected st' = regular_count ls"
      "ds_total st' = file_bytes (found_files lim root ls)"
      "counter_get (ds_skipped st') reason = skip_count lim ls reason" for reason
      by (simp_all add: tally_def st_def regular_count_def [of "[]"] skip_count_def [of _ "[]"]
          found_files_def [of _ _ "[]"] file_bytes_def [of "[]"] counter_get_def [of "[]"] fun_eq_iff)
    have bytes: "file_bytes (sort_key df_relative_path (ds_files st')) = file_bytes (found_files lim root ls)"
      unfolding file_bytes_def using files by (metis mset_map mset_sort sum_mset_sum_list)
    have "discover lim root True (Some tree) = Inr
      \<lparr>dr_files = sort_key df_relative_path (ds_files st'),
       dr_inspected_file_count = ds_inspected st', dr_total_bytes = ds_total st',
       dr_skipped = sorted_items (ds_skipped st')\<rparr>"
      by (simp add: discover_def st_def [symmetric] Inr del: discover_loop.simps)
    then show ?thesis
      using safe limits by (simp add: Let_def ls_def [symmetric] counts bytes files within_limits_def)
  qed
qed

text \<open>
  C31: discovery of a readable root succeeds exactly when every entry of the tree is safe (each
  symbolic link resolves inside the root, each directory that is not ignored and each candidate
  file can be read) and the numbers of regular files and of accepted bytes are within the
  configured limits. What it returns then is the set of accepted files in path order, with the
  counts of the files inspected, of the bytes and of every reason to skip; none of it depends on
  the order in which the operating system lists a directory.
\<close>

theorem discovery_exact:
  "case discover lim root True (Some tree) of
     Inl err \<Rightarrow> \<not> (let ls = dir_leaves root (Some tree) in
       all_safe lim root ls \<and> regular_count ls \<le> dl_max_file_count lim
       \<and> file_bytes (found_files lim root ls) \<le> dl_max_total_bytes lim)
   | Inr r \<Rightarrow> (let ls = dir_leaves root (Some tree) in
       all_safe lim root ls \<and> regular_count ls \<le> dl_max_file_count lim
       \<and> file_bytes (found_files lim root ls) \<le> dl_max_total_bytes lim
       \<and> mset (dr_files r) = mset (found_files lim root ls)
       \<and> sorted (map df_relative_path (dr_files r))
       \<and> dr_inspected_file_count r = regular_count ls
       \<and> dr_total_bytes r = file_bytes (dr_files r)
       \<and> (\<forall>reason. counter_get (dr_skipped r) reason = skip_count lim ls reason))"
  by (rule discovery_outcome)

lemmas discovery_eval = discover_def discover_entry_def discover_file_def assert_within_def
  is_relative_to_def handle_symlink_def is_binary_def supported_suffixes_def
  ignored_directories_def lower_def lower_cp_def path_suffix_def inner_dot_def path_name_def
  path_names_def py_def Let_def



end
