(* ===== verification/CallGraph.thy ===== *)
theory CallGraph
  imports Models
begin

text \<open>
  The static call graph: \<^verbatim>\<open>backend/app/indexing/call_graph.py\<close>. A \<open>digests\<close> holds what the
  code takes from the standard library without looking inside: the SHA-256 hex digest, the
  version 5 UUID, and the two Unicode tables of \<open>str.isidentifier()\<close> beyond ASCII.
\<close>

section \<open>Values\<close>

record digests =
  sha256_hex :: "pystr \<Rightarrow> string"
  uuid5 :: "uuid \<Rightarrow> pystr \<Rightarrow> uuid"
  xid_start :: "nat \<Rightarrow> bool"
  xid_continue :: "nat \<Rightarrow> bool"

record call_graph =
  cg_edges :: "call_edge_record list"
  cg_call_site_count :: nat
  cg_exact_edge_count :: nat
  cg_ambiguous_edge_count :: nat
  cg_unresolved_call_count :: nat
  cg_warning_count :: nat
  cg_fingerprint :: string

record resolution =
  res_callee :: "symbol_record option"
  res_kind :: resolution_type
  res_confidence :: confidence
  res_ambiguous :: bool

text \<open>\<open>str(n)\<close>, and \<open>str(uuid)\<close>: 32 hex digits in groups of 8, 4, 4, 4 and 12.\<close>

fun dec_digits :: "nat \<Rightarrow> pystr" where
  "dec_digits n = (if n < 10 then [48 + n] else dec_digits (n div 10) @ [48 + n mod 10])"

declare dec_digits.simps [simp del]

lemma dec_digits_small: "n < 10 \<Longrightarrow> dec_digits n = [48 + n]"
  by (simp add: dec_digits.simps)

definition hex_digit :: "nat \<Rightarrow> nat" where
  "hex_digit d = (if d < 10 then 48 + d else 87 + d)"

definition uuid_str :: "uuid \<Rightarrow> pystr" where
  "uuid_str u =
     (let h = map (\<lambda>i. hex_digit (u div 16 ^ (31 - i) mod 16)) [0..<32] in
      join [45] [take 8 h, take 4 (drop 8 h), take 4 (drop 12 h), take 4 (drop 16 h), drop 20 h])"

definition symbol_namespace :: uuid where
  "symbol_namespace = 0x1b9f66f026764a3eb0da73c9432c74cc"

definition edge_namespace :: uuid where
  "edge_namespace = 0x14f608ecd9dc4dd8a1827a9cd7b3f5c7"

definition deterministic_symbol_id :: "digests \<Rightarrow> uuid \<Rightarrow> nat \<Rightarrow> symbol_record \<Rightarrow> uuid" where
  "deterministic_symbol_id D repo ver s = uuid5 D symbol_namespace
     (join [31] [uuid_str repo, dec_digits ver, sr_file_path s, sr_qualified_name s,
        dec_digits (sr_start_line s), py (sr_content_hash s)])"

text \<open>\<open>str.isidentifier()\<close>.\<close>

definition identifier_start :: "digests \<Rightarrow> nat \<Rightarrow> bool" where
  "identifier_start D c \<longleftrightarrow>
     (if c < 128 then 65 \<le> c \<and> c \<le> 90 \<or> 97 \<le> c \<and> c \<le> 122 \<or> c = 95 else xid_start D c)"

definition identifier_part :: "digests \<Rightarrow> nat \<Rightarrow> bool" where
  "identifier_part D c \<longleftrightarrow>
     (if c < 128 then identifier_start D c \<or> 48 \<le> c \<and> c \<le> 57 else xid_continue D c)"

definition is_identifier :: "digests \<Rightarrow> pystr \<Rightarrow> bool" where
  "is_identifier D s \<longleftrightarrow>
     (case s of [] \<Rightarrow> False | c # cs \<Rightarrow> identifier_start D c \<and> list_all (identifier_part D) cs)"

section \<open>Lookup of symbols\<close>

definition group :: "symbol_record list \<Rightarrow> (symbol_record \<Rightarrow> pystr) \<Rightarrow> pystr \<rightharpoonup> symbol_record list" where
  "group symbols key =
     fold (\<lambda>s m. m(key s \<mapsto> (case m (key s) of None \<Rightarrow> [] | Some items \<Rightarrow> items) @ [s])) symbols Map.empty"

text \<open>\<open>by_qualified.get(name, ())\<close>.\<close>

definition get_or_empty :: "(pystr \<rightharpoonup> symbol_record list) \<Rightarrow> pystr \<Rightarrow> symbol_record list" where
  "get_or_empty m k = (case m k of None \<Rightarrow> [] | Some items \<Rightarrow> items)"

definition one :: "symbol_record list \<Rightarrow> symbol_record option" where
  "one items = (if length items = 1 then Some (items ! 0) else None)"

fun first_unique :: "pystr list \<Rightarrow> (pystr \<rightharpoonup> symbol_record list) \<Rightarrow> symbol_record list option" where
  "first_unique [] by_qualified = None"
| "first_unique (c # cs) by_qualified =
     (let matches = get_or_empty by_qualified c in
      if matches \<noteq> [] then Some matches else first_unique cs by_qualified)"

definition exact_or_ambiguous :: "symbol_record list \<Rightarrow> resolution_type \<Rightarrow> resolution" where
  "exact_or_ambiguous matches kind =
     (if length matches = 1
      then \<lparr>res_callee = Some (matches ! 0), res_kind = kind, res_confidence = HIGH,
            res_ambiguous = False\<rparr>
      else \<lparr>res_callee = None, res_kind = (if matches \<noteq> [] then AMBIGUOUS else UNRESOLVED),
            res_confidence = LOW, res_ambiguous = (matches \<noteq> [])\<rparr>)"

definition unresolved :: resolution where
  "unresolved = \<lparr>res_callee = None, res_kind = UNRESOLVED, res_confidence = LOW, res_ambiguous = False\<rparr>"

section \<open>Candidates\<close>

text \<open>The scopes of the caller, innermost first, with the target appended.\<close>

function local_scopes :: "pystr \<Rightarrow> pystr \<Rightarrow> pystr \<Rightarrow> pystr list" where
  "local_scopes parent module_name tgt =
     (if parent \<noteq> [] \<and> (parent = module_name \<or> starts_with parent (module_name @ [46]))
      then (parent @ [46] @ tgt) #
        (if parent = module_name then []
         else local_scopes (rpartition_head 46 parent) module_name tgt)
      else [])"
  by pat_completeness auto
termination
  by (relation "measure (\<lambda>(parent, _, _). length parent)") (auto intro: rpartition_head_shorter)

declare local_scopes.simps [simp del]

definition local_candidates :: "symbol_record \<Rightarrow> pystr \<Rightarrow> pystr \<Rightarrow> pystr list" where
  "local_candidates caller module_name tgt = local_scopes (sr_qualified_name caller) module_name tgt"

text \<open>\<open>s.strip(".")\<close> and \<open>".".join(filter(None, items))\<close>.\<close>

definition strip_dots :: "pystr \<Rightarrow> pystr" where
  "strip_dots s = rev (dropWhile (\<lambda>c. c = 46) (rev (dropWhile (\<lambda>c. c = 46) s)))"

definition dotted :: "pystr list \<Rightarrow> pystr" where
  "dotted items = join [46] (filter (\<lambda>s. s \<noteq> []) items)"

definition module_or_empty :: "parsed_import \<Rightarrow> pystr" where
  "module_or_empty imp = (case imp_module imp of None \<Rightarrow> [] | Some m \<Rightarrow> m)"

definition absolute_module :: "parsed_file \<Rightarrow> parsed_import \<Rightarrow> pystr" where
  "absolute_module parsed imp =
     (if imp_relative_level imp = 0 then module_or_empty imp
      else
        (let package = (if path_stem (pf_file_path parsed) = py ''__init__'' then pf_module_name parsed
                        else rpartition_head 46 (pf_module_name parsed));
             parts = (if package \<noteq> [] then split_on 46 package else []);
             ascend = imp_relative_level imp - 1;
             parts' = (if ascend > 0
                       then (if ascend \<le> length parts then take (length parts - ascend) parts else [])
                       else parts)
         in strip_dots (join [46] (parts' @ split_on 46 (module_or_empty imp)))))"

text \<open>\<open>alias or name\<close>: an empty alias counts as none.\<close>

definition alias_or :: "pystr option \<Rightarrow> pystr \<Rightarrow> pystr" where
  "alias_or a other = (case a of None \<Rightarrow> other | Some s \<Rightarrow> if s = [] then other else s)"

definition direct_import_candidates :: "parsed_file \<Rightarrow> pystr \<Rightarrow> pystr list" where
  "direct_import_candidates parsed tgt =
     concat (map (\<lambda>imp.
       if imp_module imp = None \<and> imp_relative_level imp = 0 then []
       else map (\<lambda>i. dotted [absolute_module parsed imp, ia_name i])
              (filter (\<lambda>i. \<not> (ia_name i = py ''*'' \<or> alias_or (ia_alias i) (ia_name i) \<noteq> tgt))
                (imp_names imp)))
       (pf_imports parsed))"

definition qualified_import_candidates :: "parsed_file \<Rightarrow> pystr list \<Rightarrow> pystr list" where
  "qualified_import_candidates parsed parts =
     concat (map (\<lambda>imp.
       if imp_module imp = None \<and> imp_relative_level imp = 0
       then map (\<lambda>i. join [46] ((if alias_or (ia_alias i) [] \<noteq> [] then ia_name i else hd parts) # tl parts))
              (filter (\<lambda>i. alias_or (ia_alias i) (hd (split_on 46 (ia_name i))) = hd parts)
                (imp_names imp))
       else map (\<lambda>i. dotted (absolute_module parsed imp # ia_name i # tl parts))
              (filter (\<lambda>i. \<not> (ia_name i = py ''*'' \<or> alias_or (ia_alias i) (ia_name i) \<noteq> hd parts))
                (imp_names imp)))
       (pf_imports parsed))"

section \<open>Resolution\<close>

definition resolve_identifier ::
  "pystr \<Rightarrow> symbol_record \<Rightarrow> parsed_file \<Rightarrow> (pystr \<rightharpoonup> symbol_record list) \<Rightarrow> resolution" where
  "resolve_identifier expression caller parsed by_qualified =
     (case first_unique (local_candidates caller (pf_module_name parsed) expression) by_qualified of
        Some matches \<Rightarrow> exact_or_ambiguous matches EXACT_SAME_FILE
      | None \<Rightarrow>
        (case first_unique (direct_import_candidates parsed expression) by_qualified of
           Some matches \<Rightarrow> exact_or_ambiguous matches EXACT_DIRECT_IMPORT
         | None \<Rightarrow> unresolved))"

definition resolve_attribute ::
  "pystr list \<Rightarrow> symbol_record \<Rightarrow> parsed_file \<Rightarrow> (pystr \<rightharpoonup> symbol_record list)
    \<Rightarrow> (pystr \<rightharpoonup> symbol_record list) \<Rightarrow> resolution" where
  "resolve_attribute parts caller parsed by_qualified by_name =
     (if hd parts = py ''self'' \<or> hd parts = py ''cls''
      then exact_or_ambiguous
        (get_or_empty by_qualified (rpartition_head 46 (sr_qualified_name caller) @ [46] @ last parts))
        EXACT_SAME_FILE
      else case first_unique (qualified_import_candidates parsed parts) by_qualified of
        Some matches \<Rightarrow> exact_or_ambiguous matches QUALIFIED_MODULE
      | None \<Rightarrow>
        (let same_module = get_or_empty by_qualified (pf_module_name parsed @ [46] @ join [46] parts) in
         if same_module \<noteq> [] then exact_or_ambiguous same_module EXACT_SAME_FILE
         else
           (let methods = filter (\<lambda>s. sr_symbol_type s = METHOD) (get_or_empty by_name (last parts)) in
            if length methods = 1
            then \<lparr>res_callee = Some (methods ! 0), res_kind = PROBABLE_METHOD,
                  res_confidence = MEDIUM, res_ambiguous = False\<rparr>
            else \<lparr>res_callee = None,
                  res_kind = (if length methods > 1 then AMBIGUOUS else UNRESOLVED),
                  res_confidence = LOW, res_ambiguous = (length methods > 1)\<rparr>)))"

definition resolve ::
  "digests \<Rightarrow> parsed_call_site \<Rightarrow> symbol_record \<Rightarrow> parsed_file \<Rightarrow> (pystr \<rightharpoonup> symbol_record list)
    \<Rightarrow> (pystr \<rightharpoonup> symbol_record list) \<Rightarrow> resolution" where
  "resolve D site caller parsed by_qualified by_name =
     (if is_identifier D (site_expression site)
      then resolve_identifier (site_expression site) caller parsed by_qualified
      else
        (let parts = split_on 46 (site_expression site) in
         if length parts < 2 \<or> \<not> list_all (is_identifier D) parts then unresolved
         else resolve_attribute parts caller parsed by_qualified by_name))"

section \<open>Edges\<close>

definition call_site_fingerprint :: "digests \<Rightarrow> parsed_call_site \<Rightarrow> string" where
  "call_site_fingerprint D site = sha256_hex D
     (join [31] [site_file_path site, site_caller_qualified_name site, site_expression site,
        dec_digits (site_start_line site), dec_digits (site_end_line site),
        dec_digits (site_start_column site)])"

definition call_edge_of ::
  "digests \<Rightarrow> uuid \<Rightarrow> nat \<Rightarrow> string \<Rightarrow> parsed_call_site \<Rightarrow> symbol_record \<Rightarrow> resolution
    \<Rightarrow> call_edge_record" where
  "call_edge_of D repo ver commit_sha site caller r =
     (let callee_id = map_option (deterministic_symbol_id D repo ver) (res_callee r);
          fp = call_site_fingerprint D site;
          caller_id = deterministic_symbol_id D repo ver caller in
      \<lparr>ce_id = uuid5 D edge_namespace
          (join [31] [uuid_str repo, dec_digits ver, uuid_str caller_id, py fp]),
       ce_caller_symbol_id = caller_id, ce_callee_symbol_id = callee_id,
       ce_unresolved_callee_name = (if callee_id \<noteq> None then None else Some (site_expression site)),
       ce_file_path = site_file_path site, ce_call_line = site_start_line site,
       ce_call_end_line = site_end_line site, ce_call_expression = site_expression site,
       ce_call_site_fingerprint = fp, ce_resolution_type = res_kind r,
       ce_confidence = res_confidence r, ce_commit_sha = commit_sha\<rparr>)"

text \<open>One round of the loop over the call sites; \<open>None\<close> is a skipped site.\<close>

definition site_resolution ::
  "digests \<Rightarrow> parsed_file list \<Rightarrow> symbol_record list \<Rightarrow> parsed_call_site
    \<Rightarrow> (symbol_record \<times> resolution) option" where
  "site_resolution D parsed_files symbols site =
     (let by_qualified = group symbols sr_qualified_name;
          by_name = group symbols sr_symbol_name;
          files = map_of (rev (map (\<lambda>p. (pf_file_path p, p)) parsed_files)) in
      case one (get_or_empty by_qualified (site_caller_qualified_name site)) of
        None \<Rightarrow> None
      | Some caller \<Rightarrow>
          (case files (site_file_path site) of
             None \<Rightarrow> None
           | Some parsed \<Rightarrow> Some (caller, resolve D site caller parsed by_qualified by_name)))"

record graph_state =
  gs_edges :: "call_edge_record list"
  gs_ambiguous :: nat
  gs_unresolved :: nat
  gs_exact :: nat
  gs_skipped :: nat

definition graph_step where
  "graph_step D repo ver commit_sha parsed_files symbols site st =
     (case site_resolution D parsed_files symbols site of
        None \<Rightarrow> st\<lparr>gs_skipped := gs_skipped st + 1\<rparr>
      | Some (caller, r) \<Rightarrow>
          st\<lparr>gs_ambiguous := gs_ambiguous st + (if res_kind r = AMBIGUOUS then 1 else 0),
             gs_unresolved := gs_unresolved st + (if res_kind r = UNRESOLVED then 1 else 0),
             gs_exact := gs_exact st
               + (if res_callee r \<noteq> None \<and> res_kind r \<noteq> PROBABLE_METHOD then 1 else 0),
             gs_edges := gs_edges st @ [call_edge_of D repo ver commit_sha site caller r]\<rparr>)"

definition edge_key where
  "edge_key e = (ce_file_path e, ce_call_line e, ce_call_end_line e,
     uuid_str (ce_caller_symbol_id e), ce_call_expression e, ce_call_site_fingerprint e)"

definition edge_line :: "call_edge_record \<Rightarrow> pystr" where
  "edge_line e = join [31]
     [uuid_str (ce_id e), uuid_str (ce_caller_symbol_id e),
      (case ce_callee_symbol_id e of None \<Rightarrow> [] | Some u \<Rightarrow> uuid_str u),
      py (ce_call_site_fingerprint e), py (resolution_value (ce_resolution_type e)),
      py (confidence_value (ce_confidence e))]"

definition graph_fingerprint :: "digests \<Rightarrow> call_edge_record list \<Rightarrow> string" where
  "graph_fingerprint D edges = sha256_hex D (join [10] (map edge_line edges))"

definition build_call_graph ::
  "digests \<Rightarrow> nat \<Rightarrow> uuid \<Rightarrow> nat \<Rightarrow> string \<Rightarrow> parsed_file list \<Rightarrow> symbol_record list
    \<Rightarrow> indexing_error + call_graph" where
  "build_call_graph D max_total_call_sites repo ver commit_sha parsed_files symbols =
     (let sites = concat (map pf_call_sites parsed_files) in
      if max_total_call_sites < length sites
      then Inl (IndexingError ''call_site_count_exceeded''
             ''Repository exceeds the configured static call-site limit'' False)
      else
        (let st = fold (graph_step D repo ver commit_sha parsed_files symbols) sites
               \<lparr>gs_edges = [], gs_ambiguous = 0, gs_unresolved = 0, gs_exact = 0, gs_skipped = 0\<rparr>;
             ordered = sort_key edge_key (gs_edges st) in
         Inr \<lparr>cg_edges = ordered, cg_call_site_count = length ordered,
              cg_exact_edge_count = gs_exact st, cg_ambiguous_edge_count = gs_ambiguous st,
              cg_unresolved_call_count = gs_unresolved st,
              cg_warning_count = gs_ambiguous st + gs_skipped st,
              cg_fingerprint = graph_fingerprint D ordered\<rparr>))"

section \<open>Lookup lemmas\<close>

lemma group_eq:
  "get_or_empty (group symbols key) k = filter (\<lambda>s. key s = k) symbols"
proof -
  have "get_or_empty (fold (\<lambda>s m. m(key s \<mapsto> (case m (key s) of None \<Rightarrow> [] | Some items \<Rightarrow> items) @ [s]))
      symbols m0) k = get_or_empty m0 k @ filter (\<lambda>s. key s = k) symbols" for m0
    by (induction symbols arbitrary: m0) (auto simp: get_or_empty_def split: option.splits)
  then show ?thesis by (simp add: group_def get_or_empty_def [of Map.empty])
qed

lemma one_Some: "one items = Some s \<longleftrightarrow> items = [s]"
  by (cases items) (auto simp: one_def)

lemma exact_or_ambiguous_cases:
  "(\<exists>s. matches = [s] \<and> exact_or_ambiguous matches kind
      = \<lparr>res_callee = Some s, res_kind = kind, res_confidence = HIGH, res_ambiguous = False\<rparr>)
   \<or> length matches \<noteq> 1 \<and> exact_or_ambiguous matches kind
      = \<lparr>res_callee = None, res_kind = (if matches \<noteq> [] then AMBIGUOUS else UNRESOLVED),
         res_confidence = LOW, res_ambiguous = (matches \<noteq> [])\<rparr>"
  by (cases matches) (auto simp: exact_or_ambiguous_def)

lemma first_unique_SomeD:
  "first_unique cs m = Some matches \<Longrightarrow> \<exists>c \<in> set cs. matches = get_or_empty m c \<and> matches \<noteq> []"
  by (induction cs m rule: first_unique.induct) (auto simp: Let_def split: if_splits)

text \<open>
  What a resolution may be: an exact callee is the only symbol of its qualified name, a probable
  one the only method of its name, and without a callee the call is ambiguous or unresolved.
\<close>

definition sound_resolution :: "symbol_record list \<Rightarrow> resolution \<Rightarrow> bool" where
  "sound_resolution symbols r \<longleftrightarrow>
     (case res_callee r of
        None \<Rightarrow> res_confidence r = LOW \<and> (res_kind r = AMBIGUOUS \<or> res_kind r = UNRESOLVED)
      | Some s \<Rightarrow> s \<in> set symbols \<and>
          (if res_kind r = PROBABLE_METHOD
           then res_confidence r = MEDIUM
             \<and> filter (\<lambda>t. sr_symbol_type t = METHOD \<and> sr_symbol_name t = sr_symbol_name s) symbols = [s]
           else res_confidence r = HIGH \<and> res_kind r \<notin> {AMBIGUOUS, UNRESOLVED}
             \<and> filter (\<lambda>t. sr_qualified_name t = sr_qualified_name s) symbols = [s]))"

lemma filter_singleton_mem: "filter P xs = [x] \<Longrightarrow> x \<in> set xs \<and> P x"
  by (drule arg_cong [of _ _ set]) auto

lemma sound_exact_or_ambiguous:
  assumes "kind \<notin> {AMBIGUOUS, UNRESOLVED, PROBABLE_METHOD}"
  shows "sound_resolution symbols (exact_or_ambiguous (get_or_empty (group symbols sr_qualified_name) q) kind)"
proof -
  consider (one) s where "filter (\<lambda>t. sr_qualified_name t = q) symbols = [s]"
    | (other) "length (filter (\<lambda>t. sr_qualified_name t = q) symbols) \<noteq> 1"
    by (metis One_nat_def length_0_conv length_Suc_conv)
  then show ?thesis
  proof cases
    case one
    with assms filter_singleton_mem [OF one] show ?thesis
      by (auto simp: group_eq exact_or_ambiguous_def sound_resolution_def)
  next
    case other
    then show ?thesis
      by (simp add: group_eq exact_or_ambiguous_def sound_resolution_def)
  qed
qed

lemma sound_unresolved: "sound_resolution symbols unresolved"
  by (simp add: sound_resolution_def unresolved_def)

lemma sound_resolve_identifier:
  "sound_resolution symbols (resolve_identifier expr caller parsed (group symbols sr_qualified_name))"
  unfolding resolve_identifier_def
  by (auto split: option.split intro!: sound_unresolved
      dest!: first_unique_SomeD intro: sound_exact_or_ambiguous)

lemma sound_resolve_attribute:
  "sound_resolution symbols
     (resolve_attribute parts caller parsed (group symbols sr_qualified_name) (group symbols sr_symbol_name))"
proof -
  let ?ms = "filter (\<lambda>s. sr_symbol_type s = METHOD)
      (get_or_empty (group symbols sr_symbol_name) (last parts))"
  have ms: "?ms = filter (\<lambda>s. sr_symbol_type s = METHOD \<and> sr_symbol_name s = last parts) symbols"
    by (simp add: group_eq conj_commute)
  have probable: "sound_resolution symbols \<lparr>res_callee = Some (?ms ! 0), res_kind = PROBABLE_METHOD,
      res_confidence = MEDIUM, res_ambiguous = False\<rparr>" if one: "length ?ms = 1"
  proof -
    from one obtain s where s: "?ms = [s]" by (metis One_nat_def length_0_conv length_Suc_conv)
    with ms have f: "filter (\<lambda>s. sr_symbol_type s = METHOD \<and> sr_symbol_name s = last parts) symbols = [s]"
      by simp
    from filter_singleton_mem [OF f] f show ?thesis
      unfolding s by (simp add: sound_resolution_def)
  qed
  have rest: "sound_resolution symbols \<lparr>res_callee = None, res_kind = k, res_confidence = LOW,
      res_ambiguous = b\<rparr>" if "k = AMBIGUOUS \<or> k = UNRESOLVED" for k b
    using that by (auto simp: sound_resolution_def)
  show ?thesis
    unfolding resolve_attribute_def Let_def
    by (auto split: option.split simp del: One_nat_def dest!: first_unique_SomeD
        intro: sound_exact_or_ambiguous probable rest)
qed

lemma sound_resolve:
  "sound_resolution symbols
     (resolve D site caller parsed (group symbols sr_qualified_name) (group symbols sr_symbol_name))"
  by (simp add: resolve_def Let_def sound_resolve_identifier sound_resolve_attribute sound_unresolved)

section \<open>The fold over the call sites\<close>

definition resolved_sites where
  "resolved_sites D parsed_files symbols sites =
     concat (map (\<lambda>site. case site_resolution D parsed_files symbols site of
       None \<Rightarrow> [] | Some (caller, r) \<Rightarrow> [(site, caller, r)]) sites)"

lemma resolved_sites_simps [simp]:
  "resolved_sites D fs symbols [] = []"
  "resolved_sites D fs symbols (site # sites) =
     (case site_resolution D fs symbols site of
        None \<Rightarrow> resolved_sites D fs symbols sites
      | Some (caller, r) \<Rightarrow> (site, caller, r) # resolved_sites D fs symbols sites)"
  by (simp_all add: resolved_sites_def split: option.split prod.split)

lemma resolved_sitesD:
  "(site, caller, r) \<in> set (resolved_sites D fs symbols sites) \<Longrightarrow>
   site \<in> set sites \<and> caller \<in> set symbols \<and> sr_qualified_name caller = site_caller_qualified_name site
   \<and> filter (\<lambda>t. sr_qualified_name t = sr_qualified_name caller) symbols = [caller]
   \<and> sound_resolution symbols r"
proof (induction sites)
  case (Cons x xs)
  have head: "caller \<in> set symbols \<and> sr_qualified_name caller = site_caller_qualified_name x
      \<and> filter (\<lambda>t. sr_qualified_name t = sr_qualified_name caller) symbols = [caller]
      \<and> sound_resolution symbols r"
    if "site_resolution D fs symbols x = Some (caller, r)" for caller r
  proof -
    from that have f: "filter (\<lambda>t. sr_qualified_name t = site_caller_qualified_name x) symbols = [caller]"
      and r: "sound_resolution symbols r"
      by (auto simp: site_resolution_def Let_def one_Some group_eq sound_resolve split: option.splits)
    with filter_singleton_mem [OF f] show ?thesis by auto
  qed
  from Cons show ?case by (auto split: option.splits dest: head)
qed simp

lemma resolved_sites_value:
  "(site, caller, r) \<in> set (resolved_sites D fs symbols sites) \<Longrightarrow>
   site_resolution D fs symbols site = Some (caller, r)"
  by (induction sites) (auto split: option.splits)

definition tally_kind :: "resolution_type \<Rightarrow> (parsed_call_site \<times> symbol_record \<times> resolution) list \<Rightarrow> nat" where
  "tally_kind k xs = length (filter (\<lambda>x. res_kind (snd (snd x)) = k) xs)"

definition tally_exact :: "(parsed_call_site \<times> symbol_record \<times> resolution) list \<Rightarrow> nat" where
  "tally_exact xs = length (filter (\<lambda>x. res_callee (snd (snd x)) \<noteq> None
     \<and> res_kind (snd (snd x)) \<noteq> PROBABLE_METHOD) xs)"

lemma resolved_sites_length: "length (resolved_sites D fs symbols sites) \<le> length sites"
  by (induction sites) (auto split: option.splits)

lemma graph_fold:
  "fold (graph_step D repo ver sha fs symbols) sites st =
     (let xs = resolved_sites D fs symbols sites in
      st\<lparr>gs_edges := gs_edges st @ map (\<lambda>(site, caller, r). call_edge_of D repo ver sha site caller r) xs,
         gs_ambiguous := gs_ambiguous st + tally_kind AMBIGUOUS xs,
         gs_unresolved := gs_unresolved st + tally_kind UNRESOLVED xs,
         gs_exact := gs_exact st + tally_exact xs,
         gs_skipped := gs_skipped st + (length sites - length xs)\<rparr>)"
proof (induction sites arbitrary: st)
  case (Cons site sites)
  show ?case
    using resolved_sites_length [of D fs symbols sites]
    by (cases "site_resolution D fs symbols site")
      (auto simp: Cons.IH graph_step_def [of D repo ver sha fs symbols site] Let_def tally_kind_def tally_exact_def Suc_diff_le)
qed (simp add: tally_kind_def tally_exact_def)

lemma build_call_graph_eq:
  assumes "build_call_graph D m repo ver sha fs symbols = Inr g"
  defines "xs \<equiv> resolved_sites D fs symbols (concat (map pf_call_sites fs))"
  defines "edges \<equiv> sort_key edge_key (map (\<lambda>(site, caller, r). call_edge_of D repo ver sha site caller r) xs)"
  shows "g = \<lparr>cg_edges = edges, cg_call_site_count = length edges,
      cg_exact_edge_count = tally_exact xs, cg_ambiguous_edge_count = tally_kind AMBIGUOUS xs,
      cg_unresolved_call_count = tally_kind UNRESOLVED xs,
      cg_warning_count = tally_kind AMBIGUOUS xs
        + (length (concat (map pf_call_sites fs)) - length xs),
      cg_fingerprint = graph_fingerprint D edges\<rparr>"
    and "length xs \<le> length (concat (map pf_call_sites fs))"
    and "length (concat (map pf_call_sites fs)) \<le> m"
proof -
  define sites where "sites = concat (map pf_call_sites fs)"
  have xs: "xs = resolved_sites D fs symbols sites" by (simp add: xs_def sites_def)
  have run: "fold (graph_step D repo ver sha fs symbols) sites
        \<lparr>gs_edges = [], gs_ambiguous = 0, gs_unresolved = 0, gs_exact = 0, gs_skipped = 0\<rparr>
      = \<lparr>gs_edges = map (\<lambda>(site, caller, r). call_edge_of D repo ver sha site caller r) xs,
         gs_ambiguous = tally_kind AMBIGUOUS xs, gs_unresolved = tally_kind UNRESOLVED xs,
         gs_exact = tally_exact xs, gs_skipped = length sites - length xs\<rparr>"
    by (subst graph_fold) (simp add: xs Let_def)
  show "length xs \<le> length (concat (map pf_call_sites fs))"
    by (simp only: xs_def resolved_sites_length)
  from assms(1) show "length (concat (map pf_call_sites fs)) \<le> m"
    by (auto simp: build_call_graph_def Let_def simp del: length_concat split: if_splits)
  from assms(1) run show "g = \<lparr>cg_edges = edges, cg_call_site_count = length edges,
      cg_exact_edge_count = tally_exact xs, cg_ambiguous_edge_count = tally_kind AMBIGUOUS xs,
      cg_unresolved_call_count = tally_kind UNRESOLVED xs,
      cg_warning_count = tally_kind AMBIGUOUS xs
        + (length (concat (map pf_call_sites fs)) - length xs),
      cg_fingerprint = graph_fingerprint D edges\<rparr>"
    by (simp add: build_call_graph_def Let_def sites_def [symmetric] edges_def del: length_concat
        split: if_splits)
qed

lemma tally_edges:
  assumes "\<And>site caller r. P (call_edge_of D repo ver sha site caller r) = Q r"
  shows "length (filter P (sort_key edge_key (map (\<lambda>(site, caller, r). call_edge_of D repo ver sha site caller r) xs)))
    = length (filter (\<lambda>x. Q (snd (snd x))) xs)"
proof -
  have "filter P (map (\<lambda>(site, caller, r). call_edge_of D repo ver sha site caller r) xs)
      = map (\<lambda>(site, caller, r). call_edge_of D repo ver sha site caller r) (filter (\<lambda>x. Q (snd (snd x))) xs)"
    by (induction xs) (auto simp: assms)
  then show ?thesis by (simp add: filter_sort)
qed

lemma call_edge_of_simps [simp]:
  "ce_resolution_type (call_edge_of D repo ver sha site caller r) = res_kind r"
  "ce_confidence (call_edge_of D repo ver sha site caller r) = res_confidence r"
  "ce_commit_sha (call_edge_of D repo ver sha site caller r) = sha"
  "ce_caller_symbol_id (call_edge_of D repo ver sha site caller r) = deterministic_symbol_id D repo ver caller"
  "ce_callee_symbol_id (call_edge_of D repo ver sha site caller r)
     = map_option (deterministic_symbol_id D repo ver) (res_callee r)"
  "ce_unresolved_callee_name (call_edge_of D repo ver sha site caller r)
     = (if res_callee r = None then Some (site_expression site) else None)"
  by (simp_all add: call_edge_of_def Let_def)

definition edge_is_exact :: "call_edge_record \<Rightarrow> bool" where
  "edge_is_exact e \<longleftrightarrow> ce_callee_symbol_id e \<noteq> None \<and> ce_resolution_type e \<noteq> PROBABLE_METHOD"

definition count_edges :: "(call_edge_record \<Rightarrow> bool) \<Rightarrow> call_edge_record list \<Rightarrow> nat" where
  "count_edges P es = length (filter P es)"

lemma build_call_graph_counts:
  assumes "build_call_graph D m repo ver sha fs symbols = Inr g"
  shows "cg_call_site_count g = length (cg_edges g)"
    and "cg_exact_edge_count g = count_edges edge_is_exact (cg_edges g)"
    and "cg_ambiguous_edge_count g = count_edges (\<lambda>e. ce_resolution_type e = AMBIGUOUS) (cg_edges g)"
    and "cg_unresolved_call_count g = count_edges (\<lambda>e. ce_resolution_type e = UNRESOLVED) (cg_edges g)"
    and "cg_fingerprint g = graph_fingerprint D (cg_edges g)"
    and "sorted (map edge_key (cg_edges g))"
    and "cg_warning_count g + length (cg_edges g)
      = cg_ambiguous_edge_count g + length (concat (map pf_call_sites fs))"
proof -
  note g = build_call_graph_eq [OF assms]
  show "cg_call_site_count g = length (cg_edges g)" and "cg_fingerprint g = graph_fingerprint D (cg_edges g)"
    and "sorted (map edge_key (cg_edges g))"
    by (simp_all add: g(1))
  show "cg_exact_edge_count g = count_edges edge_is_exact (cg_edges g)"
    unfolding count_edges_def
    by (simp add: g(1) tally_exact_def edge_is_exact_def
        tally_edges [where Q = "\<lambda>r. res_callee r \<noteq> None \<and> res_kind r \<noteq> PROBABLE_METHOD"])
  show "cg_ambiguous_edge_count g = count_edges (\<lambda>e. ce_resolution_type e = AMBIGUOUS) (cg_edges g)"
    unfolding count_edges_def
    by (simp add: g(1) tally_kind_def tally_edges [where Q = "\<lambda>r. res_kind r = AMBIGUOUS"])
  show "cg_unresolved_call_count g = count_edges (\<lambda>e. ce_resolution_type e = UNRESOLVED) (cg_edges g)"
    unfolding count_edges_def
    by (simp add: g(1) tally_kind_def tally_edges [where Q = "\<lambda>r. res_kind r = UNRESOLVED"])
  show "cg_warning_count g + length (cg_edges g)
      = cg_ambiguous_edge_count g + length (concat (map pf_call_sites fs))"
    using g(2) by (simp add: g(1) del: length_concat)
qed

text \<open>Every edge comes from one site, one caller and a sound resolution.\<close>

lemma build_call_graph_edge:
  assumes "build_call_graph D m repo ver sha fs symbols = Inr g" and "e \<in> set (cg_edges g)"
  obtains site caller r where "e = call_edge_of D repo ver sha site caller r"
    and "site \<in> set (concat (map pf_call_sites fs))"
    and "filter (\<lambda>t. sr_qualified_name t = sr_qualified_name caller) symbols = [caller]"
    and "sr_qualified_name caller = site_caller_qualified_name site"
    and "sound_resolution symbols r"
proof -
  from assms(2) obtain site caller r where
    x: "(site, caller, r) \<in> set (resolved_sites D fs symbols (concat (map pf_call_sites fs)))"
    and e: "e = call_edge_of D repo ver sha site caller r"
    unfolding build_call_graph_eq(1) [OF assms(1)] by auto
  from resolved_sitesD [OF x] e that show ?thesis by blast
qed

lemma sound_kind_split:
  "sound_resolution symbols r \<Longrightarrow>
     (if res_callee r \<noteq> None \<and> res_kind r \<noteq> PROBABLE_METHOD then 1 else 0 :: nat)
   + (if res_kind r = AMBIGUOUS then 1 else 0) + (if res_kind r = UNRESOLVED then 1 else 0)
   + (if res_kind r = PROBABLE_METHOD then 1 else 0) = 1"
  by (auto simp: sound_resolution_def split: option.splits if_splits)

lemma count_edges_partition:
  assumes "\<forall>e \<in> set es. \<exists>site caller r. e = call_edge_of D repo ver sha site caller r
      \<and> sound_resolution symbols r"
  shows "count_edges edge_is_exact es + count_edges (\<lambda>e. ce_resolution_type e = AMBIGUOUS) es
    + count_edges (\<lambda>e. ce_resolution_type e = UNRESOLVED) es
    + count_edges (\<lambda>e. ce_resolution_type e = PROBABLE_METHOD) es = length es"
  using assms
proof (induction es)
  case (Cons e es)
  then obtain site caller r where e: "e = call_edge_of D repo ver sha site caller r"
    and r: "sound_resolution symbols r" by auto
  from sound_kind_split [OF r] Cons show ?case
    by (auto simp: count_edges_def edge_is_exact_def e split: if_splits)
qed (simp add: count_edges_def)

text \<open>
  C33: the graph accounts for every call site: each is skipped or becomes one edge, the edges split
  into exact, probable, ambiguous and unresolved ones, and the counts and the fingerprint are those
  of the edge list, which is in the order of its sort key. These are the numbers a build is
  validated against.
\<close>

theorem call_graph_accounts:
  assumes "build_call_graph D m repo ver sha fs symbols = Inr g"
  shows "cg_call_site_count g = length (cg_edges g)
    \<and> cg_exact_edge_count g = count_edges edge_is_exact (cg_edges g)
    \<and> cg_ambiguous_edge_count g = count_edges (\<lambda>e. ce_resolution_type e = AMBIGUOUS) (cg_edges g)
    \<and> cg_unresolved_call_count g = count_edges (\<lambda>e. ce_resolution_type e = UNRESOLVED) (cg_edges g)
    \<and> cg_exact_edge_count g + cg_ambiguous_edge_count g + cg_unresolved_call_count g
        + count_edges (\<lambda>e. ce_resolution_type e = PROBABLE_METHOD) (cg_edges g) = cg_call_site_count g
    \<and> cg_warning_count g + cg_call_site_count g
        = cg_ambiguous_edge_count g + length (concat (map pf_call_sites fs))
    \<and> length (concat (map pf_call_sites fs)) \<le> m
    \<and> sorted (map edge_key (cg_edges g))
    \<and> cg_fingerprint g = graph_fingerprint D (cg_edges g)"
proof -
  have "\<forall>e \<in> set (cg_edges g). \<exists>site caller r. e = call_edge_of D repo ver sha site caller r
      \<and> sound_resolution symbols r"
    using build_call_graph_edge [OF assms] by metis
  from count_edges_partition [OF this] show ?thesis
    using build_call_graph_counts [OF assms] build_call_graph_eq(3) [OF assms]
    by (simp del: length_concat)
qed

text \<open>
  C34: resolution fails closed. The caller of an edge is the only symbol of its qualified name. An
  edge of an exact kind has high confidence and the id of a symbol whose qualified name is unique
  in the repository, a probable one has medium confidence and the id of the only method of its
  name, and every other edge has no callee, low confidence and the text of the call.
\<close>

theorem call_graph_fails_closed:
  assumes "build_call_graph D m repo ver sha fs symbols = Inr g" and "e \<in> set (cg_edges g)"
  shows "(\<exists>c. ce_caller_symbol_id e = deterministic_symbol_id D repo ver c
      \<and> filter (\<lambda>t. sr_qualified_name t = sr_qualified_name c) symbols = [c])
    \<and> (case ce_callee_symbol_id e of
        None \<Rightarrow> ce_resolution_type e \<in> {AMBIGUOUS, UNRESOLVED} \<and> ce_confidence e = LOW
          \<and> ce_unresolved_callee_name e \<noteq> None
      | Some u \<Rightarrow> ce_unresolved_callee_name e = None
          \<and> (\<exists>s. u = deterministic_symbol_id D repo ver s
            \<and> (if ce_resolution_type e = PROBABLE_METHOD
               then ce_confidence e = MEDIUM
                 \<and> filter (\<lambda>t. sr_symbol_type t = METHOD \<and> sr_symbol_name t = sr_symbol_name s) symbols = [s]
               else ce_confidence e = HIGH
                 \<and> ce_resolution_type e \<in> {EXACT_SAME_FILE, EXACT_DIRECT_IMPORT, QUALIFIED_MODULE}
                 \<and> filter (\<lambda>t. sr_qualified_name t = sr_qualified_name s) symbols = [s])))"
proof -
  from assms obtain site caller r where e: "e = call_edge_of D repo ver sha site caller r"
    and c: "filter (\<lambda>t. sr_qualified_name t = sr_qualified_name caller) symbols = [caller]"
    and r: "sound_resolution symbols r"
    by (rule build_call_graph_edge)
  have kinds: "k \<in> {EXACT_SAME_FILE, EXACT_DIRECT_IMPORT, QUALIFIED_MODULE}"
    if "k \<noteq> PROBABLE_METHOD" "k \<notin> {AMBIGUOUS, UNRESOLVED}" for k
    using that by (cases k) auto
  show ?thesis
  proof (cases "res_callee r")
    case None
    with r c show ?thesis by (auto simp: e sound_resolution_def)
  next
    case (Some s)
    with r c kinds [of "res_kind r"] show ?thesis
      by (auto simp: e sound_resolution_def split: if_splits)
  qed
qed

section \<open>Independence of the input order\<close>

lemma exact_or_ambiguous_mset:
  assumes "mset ms = mset ms'"
  shows "exact_or_ambiguous ms k = exact_or_ambiguous ms' k"
proof (cases "length ms = 1")
  case True
  then obtain s where "ms = [s]" by (metis One_nat_def length_0_conv length_Suc_conv)
  with assms have "ms' = [s]" by simp
  with \<open>ms = [s]\<close> show ?thesis by simp
next
  case False
  with mset_eq_length [OF assms] show ?thesis
    by (auto simp: exact_or_ambiguous_def)
qed

lemma group_mset:
  "mset symbols = mset symbols' \<Longrightarrow>
   mset (get_or_empty (group symbols key) k) = mset (get_or_empty (group symbols' key) k)"
  by (simp add: group_eq mset_filter)

lemma group_empty_iff:
  "mset symbols = mset symbols' \<Longrightarrow>
   get_or_empty (group symbols key) k = [] \<longleftrightarrow> get_or_empty (group symbols' key) k = []"
  by (metis group_mset mset_zero_iff)

lemma first_unique_mset:
  assumes "mset symbols = mset symbols'"
  shows "rel_option (\<lambda>a b. mset a = mset b) (first_unique cs (group symbols key))
    (first_unique cs (group symbols' key))"
proof (induction cs)
  case (Cons c cs)
  then show ?case
    using group_mset [OF assms, of key c] group_empty_iff [OF assms, of key c]
    by (simp add: Let_def)
qed simp

lemma case_matches_mset:
  assumes "rel_option (\<lambda>a b. mset a = mset b) x y"
  shows "(case x of Some ms \<Rightarrow> exact_or_ambiguous ms k | None \<Rightarrow> other)
       = (case y of Some ms \<Rightarrow> exact_or_ambiguous ms k | None \<Rightarrow> other)"
  using assms by (cases x; cases y) (auto intro: exact_or_ambiguous_mset)

lemma mset_single_nth:
  assumes "mset xs = mset ys" and "length xs = 1"
  shows "xs ! 0 = ys ! 0"
proof -
  from assms(2) obtain x where x: "xs = [x]" by (metis One_nat_def length_0_conv length_Suc_conv)
  with assms(1) have "ys = [x]" by simp
  with x show ?thesis by simp
qed

lemma mset_filter_length: "mset xs = mset ys \<Longrightarrow> length (filter P xs) = length (filter P ys)"
  by (metis mset_eq_length mset_filter)

lemma mset_concat_map: "mset (concat (map f xs)) = \<Sum>\<^sub># (image_mset (\<lambda>x. mset (f x)) (mset xs))"
  by (induction xs) auto

lemma resolve_mset:
  assumes "mset symbols = mset symbols'"
  shows "resolve D site caller parsed (group symbols sr_qualified_name) (group symbols sr_symbol_name)
    = resolve D site caller parsed (group symbols' sr_qualified_name) (group symbols' sr_symbol_name)"
proof -
  note fu = first_unique_mset [OF assms]
  have ident: "resolve_identifier e caller parsed (group symbols sr_qualified_name)
      = resolve_identifier e caller parsed (group symbols' sr_qualified_name)" for e
    unfolding resolve_identifier_def
    by (subst case_matches_mset [OF fu [of _ sr_qualified_name]],
        subst case_matches_mset [OF fu [of "direct_import_candidates parsed e" sr_qualified_name]]) (rule refl)
  have attr: "resolve_attribute ps caller parsed (group symbols sr_qualified_name) (group symbols sr_symbol_name)
      = resolve_attribute ps caller parsed (group symbols' sr_qualified_name) (group symbols' sr_symbol_name)" for ps
  proof -
    let ?ms = "filter (\<lambda>s. sr_symbol_type s = METHOD) (get_or_empty (group symbols sr_symbol_name) (last ps))"
    let ?ms' = "filter (\<lambda>s. sr_symbol_type s = METHOD) (get_or_empty (group symbols' sr_symbol_name) (last ps))"
    have ms: "mset ?ms = mset ?ms'"
      using group_mset [OF assms, of sr_symbol_name "last ps"] by (simp only: mset_filter)
    have len: "length ?ms = length ?ms'" by (rule mset_eq_length [OF ms])
    have hd: "?ms ! 0 = ?ms' ! 0" if "length ?ms = 1"
      by (rule mset_single_nth [OF ms that])
    let ?q = "pf_module_name parsed @ [46] @ join [46] ps"
    let ?c = "rpartition_head 46 (sr_qualified_name caller) @ [46] @ last ps"
    show ?thesis
      unfolding resolve_attribute_def Let_def
        case_matches_mset [OF fu [of "qualified_import_candidates parsed ps" sr_qualified_name]]
        group_empty_iff [OF assms, of sr_qualified_name ?q]
        exact_or_ambiguous_mset [OF group_mset [OF assms, of sr_qualified_name ?q]]
        exact_or_ambiguous_mset [OF group_mset [OF assms, of sr_qualified_name ?c]]
      using hd by (simp only: len cong: if_cong)
  qed
  show ?thesis by (simp add: resolve_def Let_def ident attr)
qed

lemma one_mset: "mset xs = mset ys \<Longrightarrow> one xs = one ys"
  by (metis mset_eq_length mset_single_iff_right one_def one_Some)

lemma map_of_files_mset:
  assumes "mset fs = mset fs'" and "distinct (map pf_file_path fs)"
  shows "map_of (rev (map (\<lambda>p. (pf_file_path p, p)) fs)) = map_of (rev (map (\<lambda>p. (pf_file_path p, p)) fs'))"
proof -
  have "distinct (map pf_file_path fs')"
    using assms by (metis mset_eq_imp_distinct_iff mset_map)
  moreover have "set fs = set fs'" by (rule mset_eq_setD [OF assms(1)])
  ultimately show ?thesis
    using assms(2) by (subst map_of_inject_set) (simp_all add: rev_map [symmetric] comp_def)
qed

lemma site_resolution_mset:
  assumes "mset fs = mset fs'" and "distinct (map pf_file_path fs)" and "mset symbols = mset symbols'"
  shows "site_resolution D fs symbols site = site_resolution D fs' symbols' site"
  unfolding site_resolution_def Let_def
  by (simp only: map_of_files_mset [OF assms(1,2)] resolve_mset [OF assms(3)]
      one_mset [OF group_mset [OF assms(3)]])

lemma resolved_sites_mset:
  assumes "\<And>site. site_resolution D fs symbols site = site_resolution D fs' symbols' site"
    and "mset sites = mset sites'"
  shows "mset (resolved_sites D fs symbols sites) = mset (resolved_sites D fs' symbols' sites')"
proof -
  have eq: "resolved_sites D fs symbols sites = resolved_sites D fs' symbols' sites"
    by (induction sites) (auto simp: assms(1) split: option.split)
  show ?thesis
    unfolding eq unfolding resolved_sites_def mset_concat_map assms(2) ..
qed

text \<open>
  C35: the graph does not depend on the order in which files and symbols are listed: permuting
  either gives the same edges in the same order, the same counts and the same fingerprint, or the
  same failure, as long as file paths are distinct and call sites have distinct fingerprints.
\<close>

theorem call_graph_order_independent:
  assumes "mset fs = mset fs'" and "distinct (map pf_file_path fs)" and "mset symbols = mset symbols'"
    and "inj_on (call_site_fingerprint D) (set (concat (map pf_call_sites fs)))"
  shows "build_call_graph D m repo ver sha fs symbols = build_call_graph D m repo ver sha fs' symbols'"
proof -
  define sites where "sites = concat (map pf_call_sites fs)"
  define sites' where "sites' = concat (map pf_call_sites fs')"
  define edges where "edges = (\<lambda>xs. map (\<lambda>(site, caller, r). call_edge_of D repo ver sha site caller r) xs)"
  define xs where "xs = resolved_sites D fs symbols sites"
  define xs' where "xs' = resolved_sites D fs' symbols' sites'"
  have sites: "mset sites = mset sites'"
    unfolding sites_def sites'_def mset_concat_map assms(1) ..
  have xs: "mset xs = mset xs'"
    unfolding xs_def xs'_def
    by (rule resolved_sites_mset [OF site_resolution_mset [OF assms(1,2,3)] sites])
  have edges_mset: "mset (edges xs) = mset (edges xs')"
    unfolding edges_def mset_map xs ..
  have func: "(caller, r) = (caller', r')"
    if "(site, caller, r) \<in> set xs" "(site, caller', r') \<in> set xs" for site caller r caller' r'
    using that [unfolded xs_def, THEN resolved_sites_value] by simp
  have "inj_on edge_key (set (edges xs))"
  proof (rule inj_onI)
    fix e e' assume "e \<in> set (edges xs)" "e' \<in> set (edges xs)" and key: "edge_key e = edge_key e'"
    then obtain site caller r site' caller' r' where x: "(site, caller, r) \<in> set xs"
      and x': "(site', caller', r') \<in> set xs"
      and e: "e = call_edge_of D repo ver sha site caller r"
      and e': "e' = call_edge_of D repo ver sha site' caller' r'"
      unfolding edges_def by auto
    have "call_site_fingerprint D site = call_site_fingerprint D site'"
      using key by (simp add: e e' edge_key_def call_edge_of_def Let_def)
    moreover have "site \<in> set sites" "site' \<in> set sites"
      using resolved_sitesD x x' unfolding xs_def by blast+
    ultimately have "site = site'"
      using assms(4) unfolding sites_def by (rule inj_onD [rotated])
    with func x x' e e' show "e = e'" by blast
  qed
  then have ordered: "sort_key edge_key (edges xs) = sort_key edge_key (edges xs')"
    by (intro sort_key_inj_key_eq) (simp_all add: edges_mset)
  have counts: "tally_kind k xs = tally_kind k xs'" "tally_exact xs = tally_exact xs'"
    "length xs = length xs'" "length sites = length sites'" for k
    using mset_filter_length [OF xs] mset_eq_length [OF xs] mset_eq_length [OF sites]
    unfolding tally_kind_def tally_exact_def by blast+
  show ?thesis
    unfolding build_call_graph_def Let_def sites_def [symmetric] sites'_def [symmetric] graph_fold
      xs_def [symmetric] xs'_def [symmetric]
    by (simp add: edges_def [symmetric] counts ordered del: filter.simps)
qed

section \<open>Sample values\<close>

definition sample_digests :: digests where
  "sample_digests = \<lparr>sha256_hex = map char_of, uuid5 = \<lambda>n s. sum_list s, xid_start = \<lambda>_. False,
     xid_continue = \<lambda>_. False\<rparr>"

definition symbol_named :: "symbol_type \<Rightarrow> pystr \<Rightarrow> pystr \<Rightarrow> symbol_record" where
  "symbol_named t path q = \<lparr>sr_file_path = path, sr_language = ''python'', sr_symbol_type = t,
     sr_symbol_name = last (split_on 46 q), sr_qualified_name = q, sr_start_line = 1,
     sr_end_line = 2, sr_content_hash = ''h'', sr_commit_sha = ''c''\<rparr>"

definition call_of :: "pystr \<Rightarrow> pystr \<Rightarrow> pystr \<Rightarrow> parsed_call_site" where
  "call_of path caller expression = \<lparr>site_file_path = path, site_module_name = [],
     site_caller_qualified_name = caller, site_expression = expression, site_start_line = 2,
     site_end_line = 2, site_start_column = 4\<rparr>"

definition file_of :: "pystr \<Rightarrow> pystr \<Rightarrow> parsed_call_site list \<Rightarrow> parsed_file" where
  "file_of path module_name sites = \<lparr>pf_file_path = path, pf_language = ''python'',
     pf_module_name = module_name, pf_source_text = [], pf_imports = [], pf_module_docstring = None,
     pf_module_segments = [], pf_symbols = [], pf_call_sites = sites, pf_commit_sha = ''c'',
     pf_parse_status = PS_COMPLETE, pf_warnings = []\<rparr>"

definition sample_files :: "parsed_file list" where
  "sample_files = [file_of (py ''a.py'') (py ''a'') [call_of (py ''a.py'') (py ''a.f'') (py ''g'')],
     file_of (py ''b.py'') (py ''b'') [call_of (py ''b.py'') (py ''b.h'') (py ''x.y'')]]"

definition sample_symbols :: "symbol_record list" where
  "sample_symbols = [symbol_named FUNCTION (py ''a.py'') (py ''a.f''),
     symbol_named FUNCTION (py ''a.py'') (py ''a.g''), symbol_named FUNCTION (py ''b.py'') (py ''b.h'')]"

lemmas sample_eval = sample_digests_def symbol_named_def call_of_def file_of_def sample_files_def
  sample_symbols_def py_def

lemma sample_build:
  "\<exists>g. build_call_graph sample_digests 5 7 1 ''c'' sample_files sample_symbols = Inr g"
  by (simp add: build_call_graph_def Let_def sample_files_def file_of_def)

theorem call_graph_accounts_witness:
  "\<exists>g. build_call_graph sample_digests 5 7 1 ''c'' sample_files sample_symbols = Inr g
     \<and> cg_call_site_count g = length (cg_edges g)
     \<and> cg_warning_count g + cg_call_site_count g = cg_ambiguous_edge_count g + 2"
proof -
  obtain g where g: "build_call_graph sample_digests 5 7 1 ''c'' sample_files sample_symbols = Inr g"
    using sample_build by blast
  from call_graph_accounts [OF g] g show ?thesis
    by (auto simp: sample_files_def file_of_def)
qed

lemma sample_first_edge:
  assumes "build_call_graph sample_digests 5 7 1 ''c'' sample_files sample_symbols = Inr g"
  shows "cg_edges g \<noteq> []"
proof -
  have q: "group sample_symbols sr_qualified_name (py ''a.f'') = Some [symbol_named FUNCTION (py ''a.py'') (py ''a.f'')]"
    by (simp add: group_def sample_symbols_def symbol_named_def py_def)
  have "site_resolution sample_digests sample_files sample_symbols
      (call_of (py ''a.py'') (py ''a.f'') (py ''g'')) \<noteq> None"
    by (simp add: site_resolution_def Let_def call_of_def q get_or_empty_def one_def)
      (simp add: sample_files_def file_of_def py_def)
  then have "resolved_sites sample_digests sample_files sample_symbols (concat (map pf_call_sites sample_files)) \<noteq> []"
    by (auto simp: sample_files_def file_of_def split: option.splits)
  then have "length (cg_edges g) \<noteq> 0"
    using build_call_graph_eq(1) [OF assms] by simp
  then show ?thesis by simp
qed

theorem call_graph_fails_closed_witness:
  "\<exists>g c. build_call_graph sample_digests 5 7 1 ''c'' sample_files sample_symbols = Inr g
     \<and> ce_caller_symbol_id (hd (cg_edges g)) = deterministic_symbol_id sample_digests 7 1 c
     \<and> c \<in> set sample_symbols"
proof -
  obtain g where g: "build_call_graph sample_digests 5 7 1 ''c'' sample_files sample_symbols = Inr g"
    using sample_build by blast
  obtain c where "ce_caller_symbol_id (hd (cg_edges g)) = deterministic_symbol_id sample_digests 7 1 c"
    and c: "filter (\<lambda>t. sr_qualified_name t = sr_qualified_name c) sample_symbols = [c]"
    using call_graph_fails_closed [OF g hd_in_set [OF sample_first_edge [OF g]]] by blast
  with g filter_singleton_mem [OF c] show ?thesis by blast
qed

lemma sample_order:
  "mset sample_files = mset (rev sample_files)" "mset sample_symbols = mset (rev sample_symbols)"
  "distinct (map pf_file_path sample_files)"
  by (simp_all add: sample_files_def file_of_def py_def)

lemma sample_fingerprints:
  "inj_on (call_site_fingerprint sample_digests) (set (concat (map pf_call_sites sample_files)))"
proof -
  have "set (concat (map pf_call_sites sample_files))
      = {call_of (py ''a.py'') (py ''a.f'') (py ''g''), call_of (py ''b.py'') (py ''b.h'') (py ''x.y'')}"
    by (simp add: sample_files_def file_of_def)
  moreover have "call_site_fingerprint sample_digests (call_of (py ''a.py'') (py ''a.f'') (py ''g''))
      \<noteq> call_site_fingerprint sample_digests (call_of (py ''b.py'') (py ''b.h'') (py ''x.y''))"
    by (simp add: call_site_fingerprint_def call_of_def sample_digests_def py_def dec_digits_small)
  moreover have "inj_on f {a, b}" if "f a \<noteq> f b" for f :: "parsed_call_site \<Rightarrow> string" and a b
    using that by (auto simp: inj_on_def)
  ultimately show ?thesis by (simp only: )
qed

theorem call_graph_order_independent_witness:
  "build_call_graph sample_digests 5 7 1 ''c'' sample_files sample_symbols
     = build_call_graph sample_digests 5 7 1 ''c'' (rev sample_files) (rev sample_symbols)"
  by (rule call_graph_order_independent [OF sample_order(1,3,2) sample_fingerprints])

section \<open>Two calls the resolver gets wrong\<close>

lemma identifier_no_dot: "is_identifier D s \<Longrightarrow> 46 \<notin> set s"
  by (auto simp: is_identifier_def identifier_start_def identifier_part_def list_all_iff
      split: list.splits)

lemma dotted_not_identifier: "46 \<in> set s \<Longrightarrow> \<not> is_identifier D s"
  using identifier_no_dot by blast

lemma self_is_identifier: "is_identifier D (py ''self'')"
  by (simp add: is_identifier_def identifier_start_def identifier_part_def py_def)

text \<open>
  Only the last component of a \<open>self\<close> chain counts: \<open>self.attr.m()\<close> is resolved to the method
  \<open>m\<close> of the caller's own class, exactly and with high confidence, although the receiver is the
  attribute and its class is unknown.
\<close>

theorem self_chain_ignores_attribute:
  assumes "site_expression site = py ''self'' @ 46 # attr @ 46 # m"
    and "is_identifier D attr" and "is_identifier D m"
    and "sr_qualified_name caller = cls @ 46 # caller_name" and "46 \<notin> set caller_name"
    and "filter (\<lambda>s. sr_qualified_name s = cls @ 46 # m) symbols = [method]"
  shows "resolve D site caller parsed (group symbols sr_qualified_name) (group symbols sr_symbol_name)
    = \<lparr>res_callee = Some method, res_kind = EXACT_SAME_FILE, res_confidence = HIGH, res_ambiguous = False\<rparr>"
proof -
  have dots: "46 \<notin> set (py ''self'')" "46 \<notin> set attr" "46 \<notin> set m"
    using identifier_no_dot assms(2,3) by (auto simp: py_def)
  have parts: "split_on 46 (site_expression site) = [py ''self'', attr, m]"
    by (simp add: assms(1) split_on_append split_on_single dots)
  have "\<not> is_identifier D (site_expression site)"
    by (rule dotted_not_identifier) (simp add: assms(1))
  then show ?thesis
    using assms(2,3) self_is_identifier [of D]
    by (simp add: resolve_def parts resolve_attribute_def assms(4,6) rpartition_head_append assms(5)
        group_eq exact_or_ambiguous_def)
qed

definition pool_symbols :: "symbol_record list" where
  "pool_symbols = [symbol_named METHOD (py ''p.py'') (py ''p.Pool.stop''),
     symbol_named METHOD (py ''p.py'') (py ''p.Pool.close''),
     symbol_named FUNCTION (py ''p.py'') (py ''p.close'')]"

theorem self_chain_ignores_attribute_witness:
  "resolve sample_digests (call_of (py ''p.py'') (py ''p.Pool.stop'') (py ''self.socket.close''))
     (pool_symbols ! 0) (file_of (py ''p.py'') (py ''p'') []) (group pool_symbols sr_qualified_name)
     (group pool_symbols sr_symbol_name)
   = \<lparr>res_callee = Some (pool_symbols ! 1), res_kind = EXACT_SAME_FILE, res_confidence = HIGH,
      res_ambiguous = False\<rparr>"
  by (rule self_chain_ignores_attribute [where attr = "py ''socket''" and m = "py ''close''"
        and cls = "py ''p.Pool''" and caller_name = "py ''stop''"])
    (simp_all add: pool_symbols_def symbol_named_def call_of_def is_identifier_def
      identifier_start_def identifier_part_def py_def)

lemma starts_with_append: "starts_with (p @ s) p"
  by (simp add: starts_with_def)

text \<open>
  The class is treated as an enclosing scope of its methods: in a method of class \<open>cls\<close> a bare
  call \<open>f()\<close> resolves to the method \<open>f\<close> of that class, exactly and with high confidence, also when
  the module defines the function \<open>f\<close>, which is the one Python calls.
\<close>

theorem class_scope_captures_bare_call:
  assumes "is_identifier D f" and "site_expression site = f"
    and "sr_qualified_name caller = pf_module_name parsed @ 46 # cls @ 46 # caller_name"
    and "46 \<notin> set caller_name"
    and "filter (\<lambda>s. sr_qualified_name s = sr_qualified_name caller @ 46 # f) symbols = []"
    and "filter (\<lambda>s. sr_qualified_name s = pf_module_name parsed @ 46 # cls @ 46 # f) symbols = [method]"
    and "shadowed \<in> set symbols" and "sr_qualified_name shadowed = pf_module_name parsed @ 46 # f"
  shows "resolve D site caller parsed (group symbols sr_qualified_name) (group symbols sr_symbol_name)
    = \<lparr>res_callee = Some method, res_kind = EXACT_SAME_FILE, res_confidence = HIGH, res_ambiguous = False\<rparr>"
proof -
  let ?m = "pf_module_name parsed"
  have q1: "sr_qualified_name caller = (?m @ [46]) @ cls @ 46 # caller_name"
    and q2: "?m @ 46 # cls = (?m @ [46]) @ cls" by (simp_all add: assms(3))
  have r1: "rpartition_head 46 (sr_qualified_name caller) = ?m @ 46 # cls"
    using rpartition_head_append [OF assms(4), of "?m @ 46 # cls"] by (simp add: assms(3))
  have "local_scopes (sr_qualified_name caller) ?m f
      = (sr_qualified_name caller @ 46 # f) # local_scopes (?m @ 46 # cls) ?m f"
    by (subst local_scopes.simps)
      (simp add: r1, simp only: q1 starts_with_append, simp)
  moreover have "\<exists>rest. local_scopes (?m @ 46 # cls) ?m f = (?m @ 46 # cls @ 46 # f) # rest"
    by (subst local_scopes.simps) (simp only: q2 starts_with_append, simp)
  ultimately obtain rest where
    "local_candidates caller ?m f
      = (sr_qualified_name caller @ 46 # f) # (?m @ 46 # cls @ 46 # f) # rest"
    by (auto simp: local_candidates_def)
  then have "resolve_identifier f caller parsed (group symbols sr_qualified_name)
      = exact_or_ambiguous [method] EXACT_SAME_FILE"
    by (simp add: resolve_identifier_def Let_def group_eq assms(5,6))
  then show ?thesis
    by (simp add: resolve_def assms(1,2) exact_or_ambiguous_def)
qed

theorem class_scope_captures_bare_call_witness:
  "resolve sample_digests (call_of (py ''p.py'') (py ''p.Pool.stop'') (py ''close''))
     (pool_symbols ! 0) (file_of (py ''p.py'') (py ''p'') []) (group pool_symbols sr_qualified_name)
     (group pool_symbols sr_symbol_name)
   = \<lparr>res_callee = Some (pool_symbols ! 1), res_kind = EXACT_SAME_FILE, res_confidence = HIGH,
      res_ambiguous = False\<rparr>"
  by (rule class_scope_captures_bare_call [where f = "py ''close''" and cls = "py ''Pool''"
        and caller_name = "py ''stop''" and shadowed = "pool_symbols ! 2"])
    (simp_all add: pool_symbols_def symbol_named_def call_of_def file_of_def is_identifier_def
      identifier_start_def identifier_part_def py_def)

end
