(* ===== verification/Database.thy ===== *)
theory Database
  imports Models Discovery
begin

text \<open>
  The tables of the indexing pipeline, after \<^verbatim>\<open>backend/app/db/models/\<close>: a row is a record, a
  table the list of its rows. Columns that are always written together are one nested record: the
  counts of a scan, of vectors and of the graph, the identity of the embedding model and the
  outcome of a refresh. A column no component of the pipeline reads or writes is left out. The
  unique indexes, foreign keys, checks and column widths that a statement of the pipeline can
  violate are predicates here, and the operations test them where the database does.
\<close>

section \<open>Column groups\<close>

record scan_counts =
  sc_discovered_file_count :: nat
  sc_discovered_total_bytes :: nat
  sc_skipped_files :: counter
  sc_parsed_file_count :: nat
  sc_partial_file_count :: nat
  sc_parser_skipped_file_count :: nat
  sc_symbol_count :: nat
  sc_chunk_count :: nat
  sc_parser_warnings :: counter

record vector_counts =
  vc_embedded_chunk_count :: nat
  vc_vector_count :: nat
  vc_reused_chunk_count :: nat
  vc_reembedded_chunk_count :: nat

record graph_counts =
  gc_call_site_count :: nat
  gc_exact_edge_count :: nat
  gc_ambiguous_edge_count :: nat
  gc_unresolved_call_count :: nat
  gc_graph_warning_count :: nat

record embedding_identity =
  ei_model_identifier :: string
  ei_model_revision :: string
  ei_dimension :: nat
  ei_preprocessing_fingerprint :: string

record refresh_outcome =
  ro_actual_mode :: "indexing_mode option"
  ro_full_rebuild_reason :: "string option"
  ro_changed_files :: counter
  ro_changed_file_count :: nat
  ro_graph_rebuilt :: bool

section \<open>Rows\<close>

record indexing_job =
  job_id :: uuid
  job_repository_id :: uuid
  job_requested_by_user_id :: "uuid option"
  job_type :: indexing_job_type
  job_status :: indexing_job_status
  job_attempt :: nat
  job_progress :: nat
  job_stage :: "string option"
  job_source_commit_sha :: "string option"
  job_target_commit_sha :: "string option"
  job_target_branch :: "string option"
  job_requested_mode :: "indexing_mode option"
  job_refresh_generation :: nat
  job_outcome :: refresh_outcome
  job_error_code :: "string option"
  job_safe_error_message :: "string option"
  job_locked_by :: "string option"
  job_next_attempt_at :: "time option"
  job_last_enqueued_at :: "time option"
  job_scan :: scan_counts
  job_target_index_version :: "nat option"
  job_vectors :: vector_counts
  job_embedding :: "embedding_identity option"
  job_graph :: graph_counts
  job_created_at :: time
  job_started_at :: "time option"
  job_heartbeat_at :: "time option"
  job_completed_at :: "time option"

record repository =
  repo_id :: uuid
  repo_installation_id :: "uuid option"
  repo_access_mode :: repository_access_mode
  repo_github_repository_id :: nat
  repo_github_owner :: string
  repo_github_name :: string
  repo_github_full_name :: string
  repo_github_url :: string
  repo_is_private :: bool
  repo_default_branch :: string
  repo_indexed_branch :: "string option"
  repo_refresh_generation :: nat
  repo_latest_webhook_commit_sha :: "string option"
  repo_last_delivery_status :: "string option"
  repo_last_delivery_at :: "time option"
  repo_current_remote_sha :: "string option"
  repo_last_indexed_commit_sha :: "string option"
  repo_index_version :: nat
  repo_indexing_status :: repository_indexing_status
  repo_indexing_progress :: nat
  repo_indexing_stage :: "string option"
  repo_indexing_error_code :: "string option"
  repo_indexing_error_message :: "string option"
  repo_size_bytes :: "nat option"
  repo_primary_language :: "string option"
  repo_visibility_checked_at :: "time option"
  repo_last_indexed_at :: "time option"
  repo_active_vector_count :: nat
  repo_access_revoked_at :: "time option"
  repo_deleted_at :: "time option"

text \<open>A build is identified by its repository and version, which are unique.\<close>

record index_build =
  bld_repository_id :: uuid
  bld_job_id :: "uuid option"
  bld_index_version :: nat
  bld_state :: index_build_state
  bld_cleanup_status :: index_cleanup_status
  bld_commit_sha :: string
  bld_embedding :: embedding_identity
  bld_expected_chunk_count :: nat
  bld_embedded_chunk_count :: nat
  bld_vector_count :: nat
  bld_failed_chunk_count :: nat
  bld_skipped_chunk_count :: nat
  bld_graph :: graph_counts
  bld_graph_fingerprint :: "string option"
  bld_graph_validated :: bool
  bld_activated_at :: "time option"
  bld_cleanup_completed_at :: "time option"

record webhook_delivery =
  dlv_id :: uuid
  dlv_delivery_id :: string
  dlv_event_name :: string
  dlv_action :: "string option"
  dlv_github_installation_id :: "nat option"
  dlv_github_repository_id :: "nat option"
  dlv_repository_id :: "uuid option"
  dlv_indexing_job_id :: "uuid option"
  dlv_ref :: "string option"
  dlv_before_commit_sha :: "string option"
  dlv_after_commit_sha :: "string option"
  dlv_retry_count :: nat
  dlv_status :: webhook_delivery_status
  dlv_safe_error_code :: "string option"
  dlv_received_at :: time
  dlv_processed_at :: "time option"

record symbol_definition =
  sd_id :: uuid
  sd_repository_id :: uuid
  sd_index_version :: nat
  sd_symbol :: symbol_record

record call_edge =
  ed_repository_id :: uuid
  ed_index_version :: nat
  ed_edge :: call_edge_record

record github_installation =
  inst_id :: uuid
  inst_github_installation_id :: nat
  inst_account_type :: github_account_type
  inst_account_github_id :: nat
  inst_account_login :: string
  inst_permissions :: "(string \<times> string) list"
  inst_repository_selection :: repository_selection
  inst_status :: installation_status
  inst_suspended_at :: "time option"
  inst_deleted_at :: "time option"

record installation_member =
  mem_installation_id :: uuid
  mem_user_id :: uuid
  mem_role :: installation_member_role
  mem_verified_at :: time

record user =
  usr_id :: uuid
  usr_github_user_id :: "nat option"
  usr_github_login :: "string option"
  usr_display_name :: "pystr option"
  usr_avatar_url :: "pystr option"
  usr_email :: "pystr option"
  usr_last_login_at :: "time option"
  usr_custom_display_name :: "pystr option"
  usr_avatar_color :: "pystr option"

record user_repository =
  ur_user_id :: uuid
  ur_repository_id :: uuid

record db =
  db_jobs :: "indexing_job list"
  db_repositories :: "repository list"
  db_builds :: "index_build list"
  db_deliveries :: "webhook_delivery list"
  db_symbols :: "symbol_definition list"
  db_edges :: "call_edge list"
  db_installations :: "github_installation list"
  db_members :: "installation_member list"
  db_users :: "user list"
  db_user_repositories :: "user_repository list"

section \<open>Statements\<close>

text \<open>\<open>update(Table).where(P).values(f)\<close>.\<close>

definition update_jobs :: "(indexing_job \<Rightarrow> bool) \<Rightarrow> (indexing_job \<Rightarrow> indexing_job) \<Rightarrow> db \<Rightarrow> db" where
  "update_jobs P f db = db\<lparr>db_jobs := update_where P f (db_jobs db)\<rparr>"

definition update_repositories :: "(repository \<Rightarrow> bool) \<Rightarrow> (repository \<Rightarrow> repository) \<Rightarrow> db \<Rightarrow> db" where
  "update_repositories P f db = db\<lparr>db_repositories := update_where P f (db_repositories db)\<rparr>"

definition update_builds :: "(index_build \<Rightarrow> bool) \<Rightarrow> (index_build \<Rightarrow> index_build) \<Rightarrow> db \<Rightarrow> db" where
  "update_builds P f db = db\<lparr>db_builds := update_where P f (db_builds db)\<rparr>"

definition update_deliveries ::
  "(webhook_delivery \<Rightarrow> bool) \<Rightarrow> (webhook_delivery \<Rightarrow> webhook_delivery) \<Rightarrow> db \<Rightarrow> db" where
  "update_deliveries P f db = db\<lparr>db_deliveries := update_where P f (db_deliveries db)\<rparr>"

text \<open>
  \<open>delivery = await session.scalar(select(WebhookDelivery).where(indexing_job_id == job))\<close> and the
  changes to it: only the first delivery the query returns is touched.
\<close>

definition first_delivery :: "uuid \<Rightarrow> db \<Rightarrow> webhook_delivery option" where
  "first_delivery job db = select_first (\<lambda>d. dlv_indexing_job_id d = Some job) (db_deliveries db)"

definition update_first_delivery :: "uuid \<Rightarrow> (webhook_delivery \<Rightarrow> webhook_delivery) \<Rightarrow> db \<Rightarrow> db" where
  "update_first_delivery job f db =
     (case first_delivery job db of
        None \<Rightarrow> db
      | Some d \<Rightarrow> update_deliveries (\<lambda>x. dlv_id x = dlv_id d) f db)"

text \<open>
  \<open>delete(SymbolDefinition)\<close> of one version: the foreign keys of the edges cascade.
\<close>

definition delete_version_symbols :: "uuid \<Rightarrow> nat \<Rightarrow> db \<Rightarrow> db" where
  "delete_version_symbols repo ver db =
     (let gone = map sd_id (filter (\<lambda>s. sd_repository_id s = repo \<and> sd_index_version s = ver) (db_symbols db)) in
      db\<lparr>db_symbols := delete_where (\<lambda>s. sd_repository_id s = repo \<and> sd_index_version s = ver) (db_symbols db),
         db_edges := delete_where (\<lambda>e. ed_repository_id e = repo \<and> ed_index_version e = ver
             \<and> (ce_caller_symbol_id (ed_edge e) \<in> set gone
                \<or> (case ce_callee_symbol_id (ed_edge e) of None \<Rightarrow> False | Some u \<Rightarrow> u \<in> set gone)))
           (db_edges db)\<rparr>)"

section \<open>Constraints\<close>

text \<open>The partial unique index \<open>uq_indexing_jobs_repository_active\<close>.\<close>

definition running_of :: "uuid \<Rightarrow> indexing_job list \<Rightarrow> indexing_job list" where
  "running_of repo jobs = filter (\<lambda>j. job_repository_id j = repo \<and> job_status j = RUNNING) jobs"

definition one_running_ok :: "uuid \<Rightarrow> indexing_job list \<Rightarrow> bool" where
  "one_running_ok repo jobs \<longleftrightarrow> length (running_of repo jobs) \<le> 1"

text \<open>The partial unique index \<open>uq_repository_index_builds_repository_active\<close>.\<close>

definition active_of :: "uuid \<Rightarrow> index_build list \<Rightarrow> index_build list" where
  "active_of repo builds = filter (\<lambda>b. bld_repository_id b = repo \<and> bld_state b = ACTIVE) builds"

definition one_active_ok :: "uuid \<Rightarrow> index_build list \<Rightarrow> bool" where
  "one_active_ok repo builds \<longleftrightarrow> length (active_of repo builds) \<le> 1"

text \<open>The checks \<open>ready_counts_match\<close> and \<open>active_cleanup_not_required\<close>.\<close>

definition build_checks :: "index_build \<Rightarrow> bool" where
  "build_checks b \<longleftrightarrow>
     (bld_state b = READY \<or> bld_state b = ACTIVE \<longrightarrow>
        bld_expected_chunk_count b = bld_embedded_chunk_count b
        \<and> bld_expected_chunk_count b = bld_vector_count b
        \<and> bld_failed_chunk_count b = 0 \<and> bld_skipped_chunk_count b = 0)
     \<and> (bld_state b = ACTIVE \<longrightarrow> bld_cleanup_status b = NOT_REQUIRED)"

text \<open>Widths and checks of a symbol row and of an edge row.\<close>

definition symbol_row_ok :: "symbol_definition \<Rightarrow> bool" where
  "symbol_row_ok s \<longleftrightarrow>
     length (sr_file_path (sd_symbol s)) \<le> 1024 \<and> length (sr_symbol_name (sd_symbol s)) \<le> 512
     \<and> length (sr_qualified_name (sd_symbol s)) \<le> 1024 \<and> 1 \<le> sd_index_version s
     \<and> 1 \<le> sr_start_line (sd_symbol s) \<and> sr_start_line (sd_symbol s) \<le> sr_end_line (sd_symbol s)"

definition edge_row_ok :: "call_edge \<Rightarrow> bool" where
  "edge_row_ok e \<longleftrightarrow>
     (case ce_unresolved_callee_name (ed_edge e) of None \<Rightarrow> True | Some n \<Rightarrow> length n \<le> 1024)
     \<and> length (ce_file_path (ed_edge e)) \<le> 1024 \<and> length (ce_call_expression (ed_edge e)) \<le> 2048
     \<and> 1 \<le> ed_index_version e \<and> 1 \<le> ce_call_line (ed_edge e)
     \<and> ce_call_line (ed_edge e) \<le> ce_call_end_line (ed_edge e)
     \<and> (ce_callee_symbol_id (ed_edge e) \<noteq> None \<or> ce_unresolved_callee_name (ed_edge e) \<noteq> None)"

text \<open>The unique keys of both tables, and the foreign keys of an edge into its own version.\<close>

definition symbol_keys_ok :: "symbol_definition list \<Rightarrow> bool" where
  "symbol_keys_ok ss \<longleftrightarrow> distinct (map sd_id ss)
     \<and> distinct (map (\<lambda>s. (sd_repository_id s, sd_index_version s, sr_file_path (sd_symbol s),
          sr_qualified_name (sd_symbol s), sr_start_line (sd_symbol s))) ss)"

definition edge_keys_ok :: "call_edge list \<Rightarrow> bool" where
  "edge_keys_ok es \<longleftrightarrow> distinct (map (\<lambda>e. ce_id (ed_edge e)) es)
     \<and> distinct (map (\<lambda>e. (ed_repository_id e, ed_index_version e, ce_call_site_fingerprint (ed_edge e))) es)"

definition edge_refs_ok :: "symbol_definition list \<Rightarrow> call_edge \<Rightarrow> bool" where
  "edge_refs_ok ss e \<longleftrightarrow>
     list_ex (\<lambda>s. sd_id s = ce_caller_symbol_id (ed_edge e) \<and> sd_repository_id s = ed_repository_id e
        \<and> sd_index_version s = ed_index_version e) ss
     \<and> (case ce_callee_symbol_id (ed_edge e) of None \<Rightarrow> True
        | Some u \<Rightarrow> list_ex (\<lambda>s. sd_id s = u \<and> sd_repository_id s = ed_repository_id e
            \<and> sd_index_version s = ed_index_version e) ss)"

definition integrity_error :: indexing_error where
  "integrity_error = InternalError ''IntegrityError''"

section \<open>Frame facts\<close>

lemmas statement_defs = update_jobs_def update_repositories_def update_builds_def update_deliveries_def

lemma update_jobs_simps [simp]:
  "db_jobs (update_jobs P f db) = update_where P f (db_jobs db)"
  "db_repositories (update_jobs P f db) = db_repositories db"
  "db_builds (update_jobs P f db) = db_builds db"
  "db_deliveries (update_jobs P f db) = db_deliveries db"
  "db_symbols (update_jobs P f db) = db_symbols db"
  "db_edges (update_jobs P f db) = db_edges db"
  by (simp_all add: update_jobs_def)

lemma update_repositories_simps [simp]:
  "db_jobs (update_repositories P g db) = db_jobs db"
  "db_repositories (update_repositories P g db) = update_where P g (db_repositories db)"
  "db_builds (update_repositories P g db) = db_builds db"
  "db_deliveries (update_repositories P g db) = db_deliveries db"
  "db_symbols (update_repositories P g db) = db_symbols db"
  "db_edges (update_repositories P g db) = db_edges db"
  by (simp_all add: update_repositories_def)

lemma update_builds_simps [simp]:
  "db_jobs (update_builds P h db) = db_jobs db"
  "db_repositories (update_builds P h db) = db_repositories db"
  "db_builds (update_builds P h db) = update_where P h (db_builds db)"
  "db_deliveries (update_builds P h db) = db_deliveries db"
  "db_symbols (update_builds P h db) = db_symbols db"
  "db_edges (update_builds P h db) = db_edges db"
  by (simp_all add: update_builds_def)

lemma update_deliveries_simps [simp]:
  "db_jobs (update_deliveries P k db) = db_jobs db"
  "db_repositories (update_deliveries P k db) = db_repositories db"
  "db_builds (update_deliveries P k db) = db_builds db"
  "db_deliveries (update_deliveries P k db) = update_where P k (db_deliveries db)"
  "db_symbols (update_deliveries P k db) = db_symbols db"
  "db_edges (update_deliveries P k db) = db_edges db"
  by (simp_all add: update_deliveries_def)

lemma update_first_delivery_simps [simp]:
  "db_jobs (update_first_delivery j k db) = db_jobs db"
  "db_repositories (update_first_delivery j k db) = db_repositories db"
  "db_builds (update_first_delivery j k db) = db_builds db"
  "db_symbols (update_first_delivery j k db) = db_symbols db"
  "db_edges (update_first_delivery j k db) = db_edges db"
  by (simp_all add: update_first_delivery_def split: option.split)

lemma delete_version_symbols_simps [simp]:
  "db_jobs (delete_version_symbols repo ver db) = db_jobs db"
  "db_repositories (delete_version_symbols repo ver db) = db_repositories db"
  "db_builds (delete_version_symbols repo ver db) = db_builds db"
  "db_deliveries (delete_version_symbols repo ver db) = db_deliveries db"
  "db_symbols (delete_version_symbols repo ver db)
     = delete_where (\<lambda>s. sd_repository_id s = repo \<and> sd_index_version s = ver) (db_symbols db)"
  by (simp_all add: delete_version_symbols_def Let_def)

end
