(* ===== verification/JobStore.thy ===== *)
theory JobStore
  imports Database CallGraph
begin

text \<open>
  The job store: \<^verbatim>\<open>backend/app/services/indexing_jobs.py\<close>. Every method is one transaction: it maps
  a database to a result and a database, or to an error, after which the session is rolled back and
  the database is as before. The clock, the worker and the jitter are arguments; where a method
  reads the clock several times it is one \<open>now\<close>. An \<open>UPDATE ... RETURNING\<close> on a primary key
  returns the row \<open>select_first\<close> finds.
\<close>

section \<open>Arguments and results\<close>

record store_settings =
  st_membership_ttl_seconds :: nat
  st_abandoned_after_seconds :: nat
  st_max_attempts :: nat
  st_retry_base_seconds :: nat
  st_retry_max_seconds :: nat
  st_embedding_model_identifier :: string
  st_embedding_model_revision :: string
  st_embedding_dimension :: nat

record claimed_job =
  cl_id :: uuid
  cl_repository_id :: uuid
  cl_attempt :: nat

record job_context =
  ctx_job_id :: uuid
  ctx_repository_id :: uuid
  ctx_installation_id :: "uuid option"
  ctx_github_installation_id :: "nat option"
  ctx_owner :: string
  ctx_name :: string
  ctx_default_branch :: string
  ctx_index_version :: nat
  ctx_github_repository_id :: nat
  ctx_refresh_generation :: nat
  ctx_active_index_version :: nat
  ctx_active_commit_sha :: "string option"
  ctx_indexed_branch :: "string option"
  ctx_requested_mode :: indexing_mode
  ctx_access_mode :: repository_access_mode

definition activation_race :: indexing_error where
  "activation_race = IndexingError ''index_activation_race''
     ''The inactive index is no longer eligible for activation'' False"

definition graph_validation_error :: indexing_error where
  "graph_validation_error = IndexingError ''call_graph_validation_failed''
     ''The inactive static call graph failed validation'' False"

text \<open>The condition of nearly every statement: the job runs and this worker holds its lock.\<close>

definition owned :: "claimed_job \<Rightarrow> string \<Rightarrow> indexing_job \<Rightarrow> bool" where
  "owned claimed worker j \<longleftrightarrow>
     job_id j = cl_id claimed \<and> job_status j = RUNNING \<and> job_locked_by j = Some worker"

definition owned_job :: "claimed_job \<Rightarrow> string \<Rightarrow> db \<Rightarrow> indexing_job option" where
  "owned_job claimed worker db = select_first (owned claimed worker) (db_jobs db)"

definition repository_by_id :: "uuid \<Rightarrow> db \<Rightarrow> repository option" where
  "repository_by_id r db = select_first (\<lambda>x. repo_id x = r) (db_repositories db)"

text \<open>\<open>select(IndexingJob, Repository).join(...)\<close> on an owned job.\<close>

definition owned_job_repository ::
  "claimed_job \<Rightarrow> string \<Rightarrow> db \<Rightarrow> (indexing_job \<times> repository) option" where
  "owned_job_repository claimed worker db =
     (case owned_job claimed worker db of
        None \<Rightarrow> None
      | Some j \<Rightarrow>
          (case repository_by_id (job_repository_id j) db of
             None \<Rightarrow> None
           | Some r \<Rightarrow> Some (j, r)))"

section \<open>Claiming\<close>

definition claimable :: "time \<Rightarrow> indexing_job \<Rightarrow> bool" where
  "claimable now j \<longleftrightarrow>
     (job_status j = QUEUED \<or> job_status j = RETRYING) \<and> due_by (job_next_attempt_at j) now"

definition claim :: "time \<Rightarrow> uuid \<Rightarrow> string \<Rightarrow> db \<Rightarrow> claimed_job option \<times> db" where
  "claim now job worker db =
     (case select_first (\<lambda>j. job_id j = job \<and> claimable now j) (db_jobs db) of
        None \<Rightarrow> (None, db)
      | Some row \<Rightarrow>
          (let db1 = update_jobs (\<lambda>j. job_id j = job \<and> claimable now j)
                 (\<lambda>j. j\<lparr>job_status := RUNNING, job_attempt := job_attempt j + 1,
                    job_locked_by := Some worker, job_started_at := Some now,
                    job_heartbeat_at := Some now, job_next_attempt_at := None,
                    job_error_code := None, job_safe_error_message := None\<rparr>) db in
           if \<not> one_running_ok (job_repository_id row) (db_jobs db1) then (None, db)
           else
             (let db2 = update_repositories (\<lambda>r. repo_id r = job_repository_id row)
                    (\<lambda>r. r\<lparr>repo_indexing_status := CLONING, repo_indexing_progress := 5,
                       repo_indexing_stage := Some ''cloning'', repo_indexing_error_code := None,
                       repo_indexing_error_message := None\<rparr>) db1;
                  db3 = update_deliveries (\<lambda>d. dlv_indexing_job_id d = Some job)
                    (\<lambda>d. d\<lparr>dlv_status := W_PROCESSING\<rparr>) db2 in
              (Some \<lparr>cl_id = job, cl_repository_id = job_repository_id row,
                     cl_attempt = job_attempt row + 1\<rparr>, db3))))"

definition requested_by :: "indexing_job \<Rightarrow> uuid \<Rightarrow> bool" where
  "requested_by j user \<longleftrightarrow>
     (case job_requested_by_user_id j of None \<Rightarrow> True | Some u \<Rightarrow> user = u)"

definition installation_of :: "repository \<Rightarrow> db \<Rightarrow> github_installation option" where
  "installation_of r db =
     (case repo_installation_id r of
        None \<Rightarrow> None
      | Some i \<Rightarrow> select_first (\<lambda>x. inst_id x = i) (db_installations db))"

definition access_granted :: "time \<Rightarrow> indexing_job \<Rightarrow> repository \<Rightarrow> db \<Rightarrow> bool" where
  "access_granted cutoff j r db \<longleftrightarrow>
     repo_access_revoked_at r = None \<and> repo_deleted_at r = None
     \<and> (repo_access_mode r = PUBLIC
          \<and> list_ex (\<lambda>u. ur_repository_id u = repo_id r \<and> requested_by j (ur_user_id u))
              (db_user_repositories db)
        \<or> repo_access_mode r = GITHUB_INSTALLATION
          \<and> (case installation_of r db of
               None \<Rightarrow> False
             | Some i \<Rightarrow> inst_status i = INST_ACTIVE \<and> inst_deleted_at i = None
                 \<and> list_ex (\<lambda>m. mem_installation_id m = inst_id i \<and> cutoff \<le> mem_verified_at m
                       \<and> requested_by j (mem_user_id m))
                     (db_members db)))"

definition context_of :: "claimed_job \<Rightarrow> nat \<Rightarrow> indexing_job \<Rightarrow> repository \<Rightarrow> github_installation option \<Rightarrow> job_context" where
  "context_of claimed target j r inst =
     \<lparr>ctx_job_id = cl_id claimed, ctx_repository_id = repo_id r,
      ctx_installation_id = map_option inst_id inst,
      ctx_github_installation_id = map_option inst_github_installation_id inst,
      ctx_owner = repo_github_owner r, ctx_name = repo_github_name r,
      ctx_default_branch = repo_default_branch r, ctx_index_version = target,
      ctx_github_repository_id = repo_github_repository_id r,
      ctx_refresh_generation = job_refresh_generation j,
      ctx_active_index_version = repo_index_version r,
      ctx_active_commit_sha = repo_last_indexed_commit_sha r,
      ctx_indexed_branch = repo_indexed_branch r,
      ctx_requested_mode = (case job_requested_mode j of None \<Rightarrow> FULL | Some m \<Rightarrow> m),
      ctx_access_mode = repo_access_mode r\<rparr>"

definition authorized_context ::
  "store_settings \<Rightarrow> time \<Rightarrow> claimed_job \<Rightarrow> db \<Rightarrow> job_context option \<times> db" where
  "authorized_context S now claimed db =
     (let cutoff = now - seconds (st_membership_ttl_seconds S) in
      case select_first (\<lambda>j. job_id j = cl_id claimed \<and> job_status j = RUNNING) (db_jobs db) of
        None \<Rightarrow> (None, db)
      | Some j \<Rightarrow>
          (case repository_by_id (job_repository_id j) db of
             None \<Rightarrow> (None, db)
           | Some r \<Rightarrow>
               if \<not> access_granted cutoff j r db then (None, db)
               else
                 (let target = (case job_target_index_version j of
                        None \<Rightarrow> repo_index_version r + 1 | Some v \<Rightarrow> v);
                      db1 = update_jobs (\<lambda>x. job_id x = job_id j)
                        (\<lambda>x. x\<lparr>job_target_index_version := Some target\<rparr>) db
                  in (Some (context_of claimed target j r (installation_of r db)), db1))))"

definition revoke_public_access :: "time \<Rightarrow> uuid \<Rightarrow> db \<Rightarrow> db" where
  "revoke_public_access now repo db =
     update_repositories (\<lambda>r. repo_id r = repo \<and> repo_access_mode r = PUBLIC)
       (\<lambda>r. r\<lparr>repo_access_revoked_at := Some now, repo_indexing_status := ACCESS_REVOKED,
          repo_indexing_stage := Some ''public_access_unavailable''\<rparr>) db"

definition heartbeat :: "time \<Rightarrow> claimed_job \<Rightarrow> string \<Rightarrow> db \<Rightarrow> db" where
  "heartbeat now claimed worker db =
     update_jobs (owned claimed worker) (\<lambda>j. j\<lparr>job_heartbeat_at := Some now\<rparr>) db"

text \<open>A job is current while its generation and branch are those of the repository.\<close>

definition same_branch :: "indexing_job \<Rightarrow> repository \<Rightarrow> bool" where
  "same_branch j r \<longleftrightarrow>
     (case job_target_branch j of None \<Rightarrow> True | Some b \<Rightarrow> b = repo_default_branch r)"

definition is_current :: "claimed_job \<Rightarrow> string \<Rightarrow> db \<Rightarrow> bool" where
  "is_current claimed worker db =
     (case owned_job_repository claimed worker db of
        None \<Rightarrow> False
      | Some (j, r) \<Rightarrow> job_refresh_generation j = repo_refresh_generation r \<and> same_branch j r)"

section \<open>Progress\<close>

definition mark_stale :: "time \<Rightarrow> claimed_job \<Rightarrow> string \<Rightarrow> string \<Rightarrow> bool \<Rightarrow> db \<Rightarrow> db" where
  "mark_stale now claimed worker code superseded db =
     (case owned_job claimed worker db of
        None \<Rightarrow> db
      | Some job \<Rightarrow>
          (let db1 = update_jobs (\<lambda>j. job_id j = job_id job)
                 (\<lambda>j. j\<lparr>job_status := CANCELLED,
                    job_stage := Some (if superseded then ''superseded'' else ''stale''),
                    job_error_code := Some code,
                    job_safe_error_message := Some ''A newer repository state superseded this refresh'',
                    job_completed_at := Some now, job_heartbeat_at := Some now,
                    job_locked_by := None\<rparr>) db in
           update_first_delivery (job_id job)
             (\<lambda>d. d\<lparr>dlv_status := (if superseded then W_SUPERSEDED else W_STALE),
                dlv_safe_error_code := Some code, dlv_processed_at := Some now\<rparr>) db1))"

definition record_freshness_plan ::
  "claimed_job \<Rightarrow> string \<Rightarrow> indexing_mode \<Rightarrow> string option \<Rightarrow> counter \<Rightarrow> nat \<Rightarrow> db \<Rightarrow> db" where
  "record_freshness_plan claimed worker mode fallback changed_counts changed_count db =
     update_jobs (owned claimed worker)
       (\<lambda>j. j\<lparr>job_outcome := \<lparr>ro_actual_mode = Some mode, ro_full_rebuild_reason = fallback,
          ro_changed_files = changed_counts, ro_changed_file_count = changed_count,
          ro_graph_rebuilt = True\<rparr>\<rparr>) db"

definition stage ::
  "time \<Rightarrow> claimed_job \<Rightarrow> string \<Rightarrow> repository_indexing_status \<Rightarrow> string \<Rightarrow> nat \<Rightarrow> string option \<Rightarrow> db \<Rightarrow> db" where
  "stage now claimed worker status name progress commit_sha db =
     (case owned_job claimed worker db of
        None \<Rightarrow> db
      | Some job \<Rightarrow>
          (let db1 = update_jobs (owned claimed worker)
                 (\<lambda>j. j\<lparr>job_stage := Some name, job_progress := progress,
                    job_heartbeat_at := Some now,
                    job_source_commit_sha := (case commit_sha of
                       None \<Rightarrow> job_source_commit_sha j | Some c \<Rightarrow> Some c)\<rparr>) db in
           update_repositories (\<lambda>r. repo_id r = job_repository_id job)
             (\<lambda>r. r\<lparr>repo_indexing_status := status, repo_indexing_stage := Some name,
                repo_indexing_progress := progress,
                repo_current_remote_sha := (case commit_sha of
                   None \<Rightarrow> repo_current_remote_sha r | Some c \<Rightarrow> Some c)\<rparr>) db1))"

section \<open>Preparing a build\<close>

definition embedding_of :: "store_settings \<Rightarrow> string \<Rightarrow> embedding_identity" where
  "embedding_of S fingerprint =
     \<lparr>ei_model_identifier = st_embedding_model_identifier S,
      ei_model_revision = st_embedding_model_revision S, ei_dimension = st_embedding_dimension S,
      ei_preprocessing_fingerprint = fingerprint\<rparr>"

definition graph_counts_of :: "processing_result \<Rightarrow> graph_counts" where
  "graph_counts_of p =
     \<lparr>gc_call_site_count = pr_call_site_count p, gc_exact_edge_count = pr_exact_edge_count p,
      gc_ambiguous_edge_count = pr_ambiguous_edge_count p,
      gc_unresolved_call_count = pr_unresolved_call_count p,
      gc_graph_warning_count = pr_graph_warning_count p\<rparr>"

definition build_at :: "uuid \<Rightarrow> nat \<Rightarrow> index_build \<Rightarrow> bool" where
  "build_at repo ver b \<longleftrightarrow> bld_repository_id b = repo \<and> bld_index_version b = ver"

text \<open>The new row, and the reset of an existing one.\<close>

definition new_build ::
  "store_settings \<Rightarrow> claimed_job \<Rightarrow> uuid \<Rightarrow> string \<Rightarrow> processing_result \<Rightarrow> string \<Rightarrow> index_build" where
  "new_build S claimed repo commit_sha p fingerprint =
     \<lparr>bld_repository_id = repo, bld_job_id = Some (cl_id claimed),
      bld_index_version = pr_index_version p, bld_state = BUILDING, bld_cleanup_status = PENDING,
      bld_commit_sha = commit_sha, bld_embedding = embedding_of S fingerprint,
      bld_expected_chunk_count = pr_chunk_count p, bld_embedded_chunk_count = 0,
      bld_vector_count = 0, bld_failed_chunk_count = 0, bld_skipped_chunk_count = 0,
      bld_graph = graph_counts_of p, bld_graph_fingerprint = Some (pr_graph_fingerprint p),
      bld_graph_validated = False, bld_activated_at = None, bld_cleanup_completed_at = None\<rparr>"

definition reset_build ::
  "store_settings \<Rightarrow> claimed_job \<Rightarrow> string \<Rightarrow> processing_result \<Rightarrow> string \<Rightarrow> index_build \<Rightarrow> index_build" where
  "reset_build S claimed commit_sha p fingerprint b =
     b\<lparr>bld_job_id := Some (cl_id claimed), bld_state := BUILDING, bld_cleanup_status := PENDING,
       bld_commit_sha := commit_sha, bld_embedding := embedding_of S fingerprint,
       bld_expected_chunk_count := pr_chunk_count p, bld_embedded_chunk_count := 0,
       bld_vector_count := 0, bld_failed_chunk_count := 0, bld_skipped_chunk_count := 0,
       bld_graph := graph_counts_of p, bld_graph_fingerprint := Some (pr_graph_fingerprint p),
       bld_graph_validated := False, bld_activated_at := None, bld_cleanup_completed_at := None\<rparr>"

definition symbol_rows :: "digests \<Rightarrow> uuid \<Rightarrow> processing_result \<Rightarrow> symbol_definition list" where
  "symbol_rows D repo p =
     map (\<lambda>s. \<lparr>sd_id = deterministic_symbol_id D repo (pr_index_version p) s,
               sd_repository_id = repo, sd_index_version = pr_index_version p, sd_symbol = s\<rparr>)
       (pr_symbols p)"

definition edge_rows :: "uuid \<Rightarrow> processing_result \<Rightarrow> call_edge list" where
  "edge_rows repo p =
     map (\<lambda>e. \<lparr>ed_repository_id = repo, ed_index_version = pr_index_version p, ed_edge = e\<rparr>)
       (pr_call_edges p)"

definition scan_counts_of :: "discovery_result \<Rightarrow> processing_result \<Rightarrow> scan_counts" where
  "scan_counts_of d p =
     \<lparr>sc_discovered_file_count = length (dr_files d), sc_discovered_total_bytes = dr_total_bytes d,
      sc_skipped_files = dr_skipped d, sc_parsed_file_count = pr_parsed_file_count p,
      sc_partial_file_count = pr_partial_file_count p,
      sc_parser_skipped_file_count = pr_skipped_file_count p, sc_symbol_count = pr_symbol_count p,
      sc_chunk_count = pr_chunk_count p, sc_parser_warnings = pr_warning_counts p\<rparr>"

definition store_build ::
  "store_settings \<Rightarrow> claimed_job \<Rightarrow> uuid \<Rightarrow> string \<Rightarrow> processing_result \<Rightarrow> string \<Rightarrow> db \<Rightarrow> db" where
  "store_build S claimed repo commit_sha p fingerprint db =
     (case select_first (build_at repo (pr_index_version p)) (db_builds db) of
        None \<Rightarrow> db\<lparr>db_builds := db_builds db @ [new_build S claimed repo commit_sha p fingerprint]\<rparr>
      | Some b \<Rightarrow> update_builds (build_at repo (pr_index_version p))
          (reset_build S claimed commit_sha p fingerprint) db)"

text \<open>The unique key \<open>uq_repository_index_builds_job\<close>.\<close>

definition build_job_unique :: "uuid \<Rightarrow> index_build list \<Rightarrow> bool" where
  "build_job_unique job builds \<longleftrightarrow> length (filter (\<lambda>b. bld_job_id b = Some job) builds) \<le> 1"

text \<open>The build of the version belongs to another job.\<close>

definition build_taken :: "claimed_job \<Rightarrow> uuid \<Rightarrow> nat \<Rightarrow> db \<Rightarrow> bool" where
  "build_taken claimed repo ver db =
     (case select_first (build_at repo ver) (db_builds db) of
        None \<Rightarrow> False
      | Some b \<Rightarrow> bld_job_id b \<noteq> None \<and> bld_job_id b \<noteq> Some (cl_id claimed))"

definition prepare_build ::
  "digests \<Rightarrow> store_settings \<Rightarrow> claimed_job \<Rightarrow> string \<Rightarrow> string \<Rightarrow> discovery_result
    \<Rightarrow> processing_result \<Rightarrow> string \<Rightarrow> db \<Rightarrow> indexing_error + db" where
  "prepare_build D S claimed worker commit_sha discovery p fingerprint db =
     (if pr_repository_id p \<noteq> cl_repository_id claimed \<or> pr_commit_sha p \<noteq> commit_sha
         \<or> pr_index_version p < 1
      then Inl (InternalError ''processing_result_mismatch'')
      else case owned_job_repository claimed worker db of
        None \<Rightarrow> Inl activation_race
      | Some (job, repository) \<Rightarrow>
          if job_target_index_version job \<noteq> Some (pr_index_version p)
             \<or> pr_index_version p \<noteq> repo_index_version repository + 1
          then Inl activation_race
          else if build_taken claimed (repo_id repository) (pr_index_version p) db
          then Inl activation_race
          else
            (let db1 = store_build S claimed (repo_id repository) commit_sha p fingerprint db;
                 db2 = delete_version_symbols (repo_id repository) (pr_index_version p) db1;
                 db3 = db2\<lparr>db_symbols := db_symbols db2 @ symbol_rows D (repo_id repository) p\<rparr>;
                 db4 = db3\<lparr>db_edges := db_edges db3 @ edge_rows (repo_id repository) p\<rparr>;
                 db5 = update_jobs (\<lambda>j. job_id j = job_id job)
                   (\<lambda>j. j\<lparr>job_source_commit_sha := Some commit_sha,
                      job_scan := scan_counts_of discovery p,
                      job_embedding := Some (embedding_of S fingerprint),
                      job_graph := graph_counts_of p\<rparr>) db4;
                 db6 = update_repositories (\<lambda>r. repo_id r = repo_id repository)
                   (\<lambda>r. r\<lparr>repo_current_remote_sha := Some commit_sha,
                      repo_size_bytes := Some (dr_total_bytes discovery)\<rparr>) db5
             in if build_job_unique (cl_id claimed) (db_builds db6)
                   \<and> symbol_keys_ok (db_symbols db6)
                   \<and> list_all symbol_row_ok (symbol_rows D (repo_id repository) p)
                   \<and> edge_keys_ok (db_edges db6)
                   \<and> list_all edge_row_ok (edge_rows (repo_id repository) p)
                   \<and> list_all (edge_refs_ok (db_symbols db6)) (edge_rows (repo_id repository) p)
                then Inr db6 else Inl integrity_error))"

section \<open>Validation and activation\<close>

text \<open>
  \<open>ORDER BY\<close> of the validation query. \<open>collate\<close> is the sort key of the database's collation for
  text; PostgreSQL breaks its ties by code point.
\<close>

definition sql_edge_key where
  "sql_edge_key collate e =
     ((collate (ce_file_path e), ce_file_path e), ce_call_line e, ce_call_end_line e,
      ce_caller_symbol_id e, (collate (ce_call_expression e), ce_call_expression e),
      (collate (py (ce_call_site_fingerprint e)), py (ce_call_site_fingerprint e)))"

definition version_edges :: "uuid \<Rightarrow> nat \<Rightarrow> string \<Rightarrow> db \<Rightarrow> call_edge_record list" where
  "version_edges repo ver commit_sha db =
     map ed_edge (filter (\<lambda>e. ed_repository_id e = repo \<and> ed_index_version e = ver
       \<and> ce_commit_sha (ed_edge e) = commit_sha) (db_edges db))"

definition building_of :: "claimed_job \<Rightarrow> nat \<Rightarrow> index_build \<Rightarrow> bool" where
  "building_of claimed ver b \<longleftrightarrow>
     build_at (cl_repository_id claimed) ver b \<and> bld_job_id b = Some (cl_id claimed)
     \<and> bld_state b = BUILDING"

definition validate_graph ::
  "digests \<Rightarrow> (pystr \<Rightarrow> pystr) \<Rightarrow> claimed_job \<Rightarrow> string \<Rightarrow> db \<Rightarrow> indexing_error + db" where
  "validate_graph D collate claimed worker db =
     (case owned_job claimed worker db of
        None \<Rightarrow> Inl activation_race
      | Some job \<Rightarrow>
          (case job_target_index_version job of
             None \<Rightarrow> Inl activation_race
           | Some ver \<Rightarrow>
               (case select_first (building_of claimed ver) (db_builds db) of
                  None \<Rightarrow> Inl graph_validation_error
                | Some b \<Rightarrow>
                    if bld_graph_fingerprint b = None \<or> bld_graph_fingerprint b = Some []
                    then Inl graph_validation_error
                    else
                      (let edges = sort_key (sql_edge_key collate)
                             (version_edges (cl_repository_id claimed) ver (bld_commit_sha b) db) in
                       if length edges \<noteq> gc_call_site_count (bld_graph b)
                          \<or> count_edges edge_is_exact edges \<noteq> gc_exact_edge_count (bld_graph b)
                          \<or> count_edges (\<lambda>e. ce_resolution_type e = AMBIGUOUS) edges
                              \<noteq> gc_ambiguous_edge_count (bld_graph b)
                          \<or> count_edges (\<lambda>e. ce_resolution_type e = UNRESOLVED) edges
                              \<noteq> gc_unresolved_call_count (bld_graph b)
                          \<or> Some (graph_fingerprint D edges) \<noteq> bld_graph_fingerprint b
                       then Inl graph_validation_error
                       else Inr (update_builds (building_of claimed ver)
                              (\<lambda>b. b\<lparr>bld_graph_validated := True\<rparr>) db)))))"

definition record_vector_counts ::
  "claimed_job \<Rightarrow> string \<Rightarrow> nat \<Rightarrow> nat \<Rightarrow> nat \<Rightarrow> nat option \<Rightarrow> db \<Rightarrow> indexing_error + db" where
  "record_vector_counts claimed worker embedded vectors reused reembedded db =
     (case owned_job claimed worker db of
        None \<Rightarrow> Inl activation_race
      | Some job \<Rightarrow>
          (case job_target_index_version job of
             None \<Rightarrow> Inl activation_race
           | Some ver \<Rightarrow>
               (case select_first (building_of claimed ver) (db_builds db) of
                  None \<Rightarrow> Inl activation_race
                | Some b \<Rightarrow> Inr
                    (update_builds (building_of claimed ver)
                      (\<lambda>b. b\<lparr>bld_embedded_chunk_count := embedded, bld_vector_count := vectors\<rparr>)
                      (update_jobs (\<lambda>j. job_id j = job_id job)
                        (\<lambda>j. j\<lparr>job_vectors := \<lparr>vc_embedded_chunk_count = embedded,
                           vc_vector_count = vectors, vc_reused_chunk_count = reused,
                           vc_reembedded_chunk_count = (case reembedded of
                             None \<Rightarrow> embedded | Some n \<Rightarrow> n)\<rparr>\<rparr>) db)))))"

text \<open>The counts and the graph of a build are complete.\<close>

definition build_complete :: "index_build \<Rightarrow> bool" where
  "build_complete b \<longleftrightarrow>
     bld_expected_chunk_count b = bld_embedded_chunk_count b
     \<and> bld_expected_chunk_count b = bld_vector_count b
     \<and> bld_graph_validated b \<and> bld_graph_fingerprint b \<noteq> None"

definition mark_build_ready :: "claimed_job \<Rightarrow> string \<Rightarrow> db \<Rightarrow> indexing_error + db" where
  "mark_build_ready claimed worker db =
     (case owned_job claimed worker db of
        None \<Rightarrow> Inl activation_race
      | Some job \<Rightarrow>
          (case job_target_index_version job of
             None \<Rightarrow> Inl activation_race
           | Some ver \<Rightarrow>
               (let P = (\<lambda>b. building_of claimed ver b \<and> build_complete b);
                    db1 = update_builds P (\<lambda>b. b\<lparr>bld_state := READY\<rparr>) db in
                if select_first P (db_builds db) = None
                then Inl (IndexingError ''vector_count_mismatch''
                       ''The inactive vector index failed count validation'' False)
                else if \<not> list_all build_checks (db_builds db1) then Inl integrity_error
                else Inr db1)))"

definition activatable :: "claimed_job \<Rightarrow> uuid \<Rightarrow> nat \<Rightarrow> string \<Rightarrow> index_build \<Rightarrow> bool" where
  "activatable claimed repo tgt commit_sha b \<longleftrightarrow>
     build_at repo tgt b \<and> bld_job_id b = Some (cl_id claimed) \<and> bld_state b = READY
     \<and> bld_commit_sha b = commit_sha \<and> build_complete b"

definition active_at :: "uuid \<Rightarrow> nat \<Rightarrow> index_build \<Rightarrow> bool" where
  "active_at repo ver b \<longleftrightarrow> build_at repo ver b \<and> bld_state b = ACTIVE"

text \<open>The changes to the three rows, and to the previous build.\<close>

definition activated_repository ::
  "time \<Rightarrow> nat \<Rightarrow> string \<Rightarrow> nat \<Rightarrow> bool \<Rightarrow> repository \<Rightarrow> repository" where
  "activated_repository now tgt commit_sha vectors delivered r =
     r\<lparr>repo_index_version := tgt, repo_last_indexed_commit_sha := Some commit_sha,
       repo_current_remote_sha := Some commit_sha,
       repo_indexed_branch := Some (repo_default_branch r), repo_last_indexed_at := Some now,
       repo_active_vector_count := vectors, repo_indexing_status := R_COMPLETE,
       repo_indexing_progress := 100, repo_indexing_stage := Some ''complete'',
       repo_indexing_error_code := None, repo_indexing_error_message := None,
       repo_last_delivery_status := (if delivered then Some (delivery_status_value W_COMPLETED)
         else repo_last_delivery_status r),
       repo_last_delivery_at := (if delivered then Some now else repo_last_delivery_at r)\<rparr>"

definition supersede_previous :: "uuid \<Rightarrow> nat \<Rightarrow> db \<Rightarrow> db" where
  "supersede_previous repo previous_version db =
     (if previous_version > 0
      then update_builds (active_at repo previous_version)
        (\<lambda>b. b\<lparr>bld_state := B_SUPERSEDED, bld_cleanup_status := PENDING\<rparr>) db
      else db)"

definition activate ::
  "time \<Rightarrow> claimed_job \<Rightarrow> string \<Rightarrow> string \<Rightarrow> db \<Rightarrow> indexing_error + (nat \<times> db)" where
  "activate now claimed worker commit_sha db =
     (case owned_job_repository claimed worker db of
        None \<Rightarrow> Inl activation_race
      | Some (job, repository) \<Rightarrow>
          let repo = repo_id repository; previous_version = repo_index_version repository;
              tgt = previous_version + 1 in
          if job_target_index_version job \<noteq> Some tgt
             \<or> job_refresh_generation job \<noteq> repo_refresh_generation repository
             \<or> \<not> same_branch job repository
          then Inl activation_race
          else case select_first (activatable claimed repo tgt commit_sha) (db_builds db) of
            None \<Rightarrow> Inl activation_race
          | Some build \<Rightarrow>
              if previous_version > 0
                 \<and> select_first (active_at repo previous_version) (db_builds db) = None
                 \<and> repo_active_vector_count repository \<noteq> 0
              then Inl activation_race
              else
                (let db1 = supersede_previous repo previous_version db;
                     db2 = update_builds (build_at repo tgt)
                       (\<lambda>b. b\<lparr>bld_state := ACTIVE, bld_cleanup_status := NOT_REQUIRED,
                          bld_activated_at := Some now\<rparr>) db1;
                     delivered = (first_delivery (job_id job) db \<noteq> None);
                     db3 = update_repositories (\<lambda>r. repo_id r = repo)
                       (activated_repository now tgt commit_sha (bld_vector_count build) delivered) db2;
                     db4 = update_jobs (\<lambda>j. job_id j = job_id job)
                       (\<lambda>j. j\<lparr>job_status := COMPLETE, job_progress := 100,
                          job_stage := Some ''complete'', job_target_commit_sha := Some commit_sha,
                          job_heartbeat_at := Some now, job_completed_at := Some now,
                          job_locked_by := None\<rparr>) db3;
                     db5 = update_first_delivery (job_id job)
                       (\<lambda>d. d\<lparr>dlv_status := W_COMPLETED, dlv_safe_error_code := None,
                          dlv_processed_at := Some now\<rparr>) db4
                 in if one_active_ok repo (db_builds db5) \<and> list_all build_checks (db_builds db5)
                    then Inr (previous_version, db5) else Inl integrity_error))"

section \<open>Cleanup\<close>

definition can_cleanup_inactive :: "uuid \<Rightarrow> nat \<Rightarrow> db \<Rightarrow> bool" where
  "can_cleanup_inactive repo ver db =
     (case repository_by_id repo db of None \<Rightarrow> False | Some r \<Rightarrow> repo_index_version r \<noteq> ver)"

definition record_failed_build_cleanup :: "time \<Rightarrow> uuid \<Rightarrow> nat \<Rightarrow> bool \<Rightarrow> db \<Rightarrow> db" where
  "record_failed_build_cleanup now repo ver cleanup_complete db =
     (let P = (\<lambda>b. build_at repo ver b \<and> bld_state b \<noteq> ACTIVE) in
      case select_first P (db_builds db) of
        None \<Rightarrow> db
      | Some _ \<Rightarrow>
          (let db1 = update_builds P
                 (\<lambda>b. b\<lparr>bld_state := B_FAILED,
                    bld_cleanup_status := (if cleanup_complete then CLEANED else PENDING),
                    bld_cleanup_completed_at := (if cleanup_complete then Some now else None)\<rparr>) db in
           if cleanup_complete then delete_version_symbols repo ver db1 else db1))"

definition complete_superseded_cleanup :: "time \<Rightarrow> uuid \<Rightarrow> nat \<Rightarrow> db \<Rightarrow> indexing_error + db" where
  "complete_superseded_cleanup now repo ver db =
     (case repository_by_id repo db of
        None \<Rightarrow> Inl activation_race
      | Some r \<Rightarrow>
          if repo_index_version r = ver then Inl activation_race
          else Inr (delete_version_symbols repo ver
            (update_builds
              (\<lambda>b. build_at repo ver b \<and> (bld_state b = B_SUPERSEDED \<or> bld_state b = B_FAILED))
              (\<lambda>b. b\<lparr>bld_cleanup_status := CLEANED, bld_cleanup_completed_at := Some now\<rparr>) db)))"

section \<open>Failure and recovery\<close>

text \<open>
  \<open>_retry_delay\<close>: exponential back-off up to the maximum, plus a jitter of up to half of it.
  \<open>secrets.randbelow(n)\<close> is some number below \<open>n\<close>: \<open>rnd mod n\<close>.
\<close>

definition retry_base :: "store_settings \<Rightarrow> nat \<Rightarrow> nat" where
  "retry_base S attempt =
     min (st_retry_max_seconds S) (st_retry_base_seconds S * 2 ^ (attempt - 1))"

definition retry_delay :: "store_settings \<Rightarrow> nat \<Rightarrow> nat \<Rightarrow> time" where
  "retry_delay S rnd attempt =
     (let base = retry_base S attempt in
      seconds base + milliseconds (rnd mod (base * 500 + 1)))"

definition cancel_revoked :: "time \<Rightarrow> claimed_job \<Rightarrow> string \<Rightarrow> db \<Rightarrow> db" where
  "cancel_revoked now claimed worker db =
     (case owned_job claimed worker db of
        None \<Rightarrow> db
      | Some job \<Rightarrow>
          (let db1 = update_jobs (owned claimed worker)
                 (\<lambda>j. j\<lparr>job_status := CANCELLED, job_error_code := Some ''repository_access_revoked'',
                    job_safe_error_message := Some ''Repository access is no longer authorized'',
                    job_completed_at := Some now, job_heartbeat_at := Some now,
                    job_locked_by := None\<rparr>) db;
               db2 = update_repositories (\<lambda>r. repo_id r = job_repository_id job)
                 (\<lambda>r. r\<lparr>repo_indexing_status := ACCESS_REVOKED,
                    repo_indexing_error_code := Some ''repository_access_revoked'',
                    repo_indexing_error_message := Some ''Repository access is no longer authorized''\<rparr>) db1
           in update_first_delivery (cl_id claimed)
                (\<lambda>d. d\<lparr>dlv_status := W_UNAUTHORIZED,
                   dlv_safe_error_code := Some ''repository_access_revoked'',
                   dlv_processed_at := Some now\<rparr>) db2))"

definition should_retry :: "store_settings \<Rightarrow> claimed_job \<Rightarrow> bool \<Rightarrow> bool" where
  "should_retry S claimed retryable \<longleftrightarrow> retryable \<and> cl_attempt claimed < st_max_attempts S"

definition fail ::
  "store_settings \<Rightarrow> time \<Rightarrow> nat \<Rightarrow> claimed_job \<Rightarrow> string \<Rightarrow> string \<Rightarrow> string \<Rightarrow> bool \<Rightarrow> db \<Rightarrow> bool \<times> db" where
  "fail S now rnd claimed worker code safe_message retryable db =
     (let retry = should_retry S claimed retryable in
      (retry,
       case owned_job claimed worker db of
         None \<Rightarrow> db
       | Some job \<Rightarrow>
           (let db1 = update_jobs (owned claimed worker)
                  (\<lambda>j. j\<lparr>job_status := (if retry then RETRYING else FAILED),
                     job_error_code := Some code, job_safe_error_message := Some safe_message,
                     job_next_attempt_at :=
                       (if retry then Some (now + retry_delay S rnd (cl_attempt claimed)) else None),
                     job_completed_at := (if retry then None else Some now),
                     job_heartbeat_at := Some now, job_locked_by := None,
                     job_stage := Some (if retry then ''retry_wait'' else ''failed'')\<rparr>) db;
                db2 = update_repositories (\<lambda>r. repo_id r = job_repository_id job)
                  (\<lambda>r. r\<lparr>repo_indexing_status := (if retry then R_QUEUED else R_FAILED),
                     repo_indexing_stage := Some (if retry then ''retry_wait'' else ''failed''),
                     repo_indexing_error_code := Some code,
                     repo_indexing_error_message := Some safe_message\<rparr>) db1
            in update_first_delivery (cl_id claimed)
                 (\<lambda>d. d\<lparr>dlv_status := (if retry then W_RETRYABLE else W_FAILED),
                    dlv_safe_error_code := Some code, dlv_retry_count := cl_attempt claimed,
                    dlv_processed_at := (if retry then None else Some now)\<rparr>) db2)))"

definition abandoned :: "time \<Rightarrow> indexing_job \<Rightarrow> bool" where
  "abandoned cutoff j \<longleftrightarrow> job_status j = RUNNING \<and> older_than (job_heartbeat_at j) cutoff"

text \<open>One round of the loop over the abandoned jobs.\<close>

definition recover_job :: "store_settings \<Rightarrow> time \<Rightarrow> indexing_job \<Rightarrow> db \<Rightarrow> db" where
  "recover_job S now job db =
     (let retry = job_attempt job < st_max_attempts S;
          wait = Some (if retry then ''retry_wait'' else ''failed'');
          db1 = update_jobs (\<lambda>j. job_id j = job_id job)
            (\<lambda>j. j\<lparr>job_status := (if retry then RETRYING else FAILED),
               job_next_attempt_at := (if retry then Some now else None), job_locked_by := None,
               job_error_code := Some ''worker_abandoned'',
               job_safe_error_message := Some ''Worker stopped before the job completed'',
               job_stage := wait,
               job_completed_at := (if retry then job_completed_at j else Some now)\<rparr>) db;
          db2 = update_repositories (\<lambda>r. repo_id r = job_repository_id job)
            (\<lambda>r. r\<lparr>repo_indexing_status := (if retry then R_QUEUED else R_FAILED),
               repo_indexing_stage := wait, repo_indexing_error_code := Some ''worker_abandoned'',
               repo_indexing_error_message := Some ''Worker stopped before the job completed''\<rparr>) db1
      in update_deliveries (\<lambda>d. dlv_indexing_job_id d = Some (job_id job))
           (\<lambda>d. d\<lparr>dlv_status := (if retry then W_RETRYABLE else W_FAILED),
              dlv_retry_count := job_attempt job, dlv_safe_error_code := Some ''worker_abandoned'',
              dlv_processed_at := (if retry then None else Some now)\<rparr>) db2)"

definition recover_abandoned :: "store_settings \<Rightarrow> time \<Rightarrow> db \<Rightarrow> nat \<times> db" where
  "recover_abandoned S now db =
     (let jobs = filter (abandoned (now - seconds (st_abandoned_after_seconds S))) (db_jobs db) in
      (length jobs, fold (recover_job S now) jobs db))"

section \<open>Reconciliation\<close>

definition due_job :: "store_settings \<Rightarrow> time \<Rightarrow> indexing_job \<Rightarrow> bool" where
  "due_job S now j \<longleftrightarrow> claimable now j
     \<and> older_than (job_last_enqueued_at j) (now - seconds (st_abandoned_after_seconds S))"

definition due_jobs :: "store_settings \<Rightarrow> time \<Rightarrow> db \<Rightarrow> uuid list" where
  "due_jobs S now db =
     map job_id (take 100 (sort_key job_created_at (filter (due_job S now) (db_jobs db))))"

definition mark_enqueued :: "time \<Rightarrow> uuid \<Rightarrow> db \<Rightarrow> db" where
  "mark_enqueued now job db =
     update_jobs (\<lambda>j. job_id j = job \<and> (job_status j = QUEUED \<or> job_status j = RETRYING))
       (\<lambda>j. j\<lparr>job_last_enqueued_at := Some now\<rparr>) db"

end
