(* ===== verification/Webhooks.thy ===== *)
theory Webhooks
  imports JobStore
begin

text \<open>
  GitHub webhooks: \<^verbatim>\<open>backend/app/services/webhooks.py\<close>. The body reaches the model as the outcome
  of JSON decoding and schema validation (\<open>payload option\<close>, pydantic is not part of the
  repository) and of the HMAC over the raw bytes (the expected hex digest). Row ids the database
  draws are arguments. A handler is one transaction on the database; \<open>delivery\<close> is the row it
  holds, written back at its end.
\<close>

section \<open>Input\<close>

record github_account =
  ga_id :: nat
  ga_login :: string
  ga_is_user :: bool

record installation_data =
  gi_id :: nat
  gi_account :: github_account
  gi_permissions :: "(string \<times> string) list"
  gi_selection_all :: bool
  gi_suspended_at :: "time option"

record github_repository =
  gr_id :: nat
  gr_owner_login :: string
  gr_name :: string
  gr_full_name :: string
  gr_html_url :: string
  gr_private :: bool
  gr_default_branch :: string
  gr_language :: "string option"
  gr_size :: "nat option"

record webhook_payload =
  wp_action :: "string option"
  wp_installation :: "installation_data option"
  wp_sender :: "nat option"
  wp_repository :: "github_repository option"
  wp_repositories_added :: "github_repository list"
  wp_repositories_removed :: "nat list"
  wp_ref :: "string option"
  wp_before :: "string option"
  wp_after :: "string option"
  wp_forced :: bool
  wp_deleted :: bool

datatype webhook_error =
  WebhookSignatureError | WebhookMediaTypeError | WebhookPayloadError | WebhookDatabaseError

datatype webhook_result = WH_Accepted | WH_Duplicate | WH_Ignored

definition supported_events :: "string set" where
  "supported_events = {''installation'', ''installation_repositories'', ''push'', ''repository''}"

definition installation_actions :: "string set" where
  "installation_actions = {''created'', ''deleted'', ''suspend'', ''unsuspend''}"

definition installation_repository_actions :: "string set" where
  "installation_repository_actions = {''added'', ''removed''}"

definition repository_actions :: "string set" where
  "repository_actions = {''archived'', ''deleted'', ''edited'', ''privatized'', ''publicized'',
     ''renamed'', ''unarchived''}"

text \<open>The three header patterns, matched in full.\<close>

definition between :: "char \<Rightarrow> char \<Rightarrow> char \<Rightarrow> bool" where
  "between lo hi c \<longleftrightarrow> lo \<le> c \<and> c \<le> hi"

definition delivery_pattern :: "string \<Rightarrow> bool" where
  "delivery_pattern s \<longleftrightarrow> 1 \<le> length s \<and> length s \<le> 255
     \<and> list_all (\<lambda>c. between CHR ''A'' CHR ''Z'' c \<or> between CHR ''a'' CHR ''z'' c
          \<or> between CHR ''0'' CHR ''9'' c \<or> c = CHR ''-'') s"

definition event_pattern :: "string \<Rightarrow> bool" where
  "event_pattern s \<longleftrightarrow> 1 \<le> length s \<and> length s \<le> 64
     \<and> list_all (\<lambda>c. between CHR ''a'' CHR ''z'' c \<or> c = CHR ''_'') s"

definition signature_pattern :: "string \<Rightarrow> bool" where
  "signature_pattern s \<longleftrightarrow> length s = 71 \<and> take 7 s = ''sha256=''
     \<and> list_all (\<lambda>c. between CHR ''0'' CHR ''9'' c \<or> between CHR ''a'' CHR ''f'' c) (drop 7 s)"

text \<open>\<open>verify_signature\<close>: \<open>digest\<close> is the hex HMAC-SHA256 of the raw body under the secret.\<close>

definition verify_signature :: "string \<Rightarrow> string option \<Rightarrow> bool" where
  "verify_signature digest signature =
     (case signature of
        None \<Rightarrow> False
      | Some s \<Rightarrow> signature_pattern s \<and> ''sha256='' @ digest = s)"

text \<open>\<open>content_type.partition(";")[0].strip().lower()\<close>.\<close>

definition media_type :: "pystr option \<Rightarrow> pystr" where
  "media_type content_type =
     (case content_type of None \<Rightarrow> [] | Some s \<Rightarrow> lower (strip (hd (split_on 59 s))))"

definition no_commits :: "webhook_payload \<Rightarrow> bool" where
  "no_commits p \<longleftrightarrow> wp_ref p = None \<and> wp_before p = None \<and> wp_after p = None"

definition no_repository_lists :: "webhook_payload \<Rightarrow> bool" where
  "no_repository_lists p \<longleftrightarrow> wp_repositories_added p = [] \<and> wp_repositories_removed p = []"

definition action_in :: "webhook_payload \<Rightarrow> string set \<Rightarrow> bool" where
  "action_in p actions \<longleftrightarrow> (case wp_action p of None \<Rightarrow> False | Some a \<Rightarrow> a \<in> actions)"

definition supported_payload :: "string \<Rightarrow> webhook_payload \<Rightarrow> bool" where
  "supported_payload event p \<longleftrightarrow>
     (if event \<notin> supported_events then True
      else if wp_installation p = None then False
      else if event = ''installation''
      then action_in p installation_actions \<and> wp_repository p = None \<and> no_repository_lists p
        \<and> no_commits p
      else if event = ''installation_repositories''
      then action_in p installation_repository_actions \<and> wp_repository p = None \<and> no_commits p
        \<and> \<not> (wp_action p = Some ''added''
              \<and> (wp_repositories_added p = [] \<or> wp_repositories_removed p \<noteq> []))
        \<and> \<not> (wp_action p = Some ''removed''
              \<and> (wp_repositories_removed p = [] \<or> wp_repositories_added p \<noteq> []))
      else if event = ''push''
      then wp_action p = None \<and> wp_repository p \<noteq> None \<and> wp_ref p \<noteq> None \<and> wp_before p \<noteq> None
        \<and> wp_after p \<noteq> None \<and> no_repository_lists p
      else action_in p repository_actions \<and> wp_repository p \<noteq> None \<and> no_repository_lists p
        \<and> no_commits p)"

section \<open>Rows the handlers create\<close>

definition no_outcome :: refresh_outcome where
  "no_outcome = \<lparr>ro_actual_mode = None, ro_full_rebuild_reason = None, ro_changed_files = [],
     ro_changed_file_count = 0, ro_graph_rebuilt = False\<rparr>"

definition no_scan :: scan_counts where
  "no_scan = \<lparr>sc_discovered_file_count = 0, sc_discovered_total_bytes = 0, sc_skipped_files = [],
     sc_parsed_file_count = 0, sc_partial_file_count = 0, sc_parser_skipped_file_count = 0,
     sc_symbol_count = 0, sc_chunk_count = 0, sc_parser_warnings = []\<rparr>"

definition no_vectors :: vector_counts where
  "no_vectors = \<lparr>vc_embedded_chunk_count = 0, vc_vector_count = 0, vc_reused_chunk_count = 0,
     vc_reembedded_chunk_count = 0\<rparr>"

definition no_graph :: graph_counts where
  "no_graph = \<lparr>gc_call_site_count = 0, gc_exact_edge_count = 0, gc_ambiguous_edge_count = 0,
     gc_unresolved_call_count = 0, gc_graph_warning_count = 0\<rparr>"

text \<open>A new job row: the column defaults, and what its creator sets.\<close>

definition queued_job ::
  "uuid \<Rightarrow> time \<Rightarrow> uuid \<Rightarrow> uuid option \<Rightarrow> indexing_job_type \<Rightarrow> string option \<Rightarrow> string option
    \<Rightarrow> indexing_mode option \<Rightarrow> string option \<Rightarrow> nat \<Rightarrow> indexing_job" where
  "queued_job jid now repo user type target_sha branch mode reason generation =
     \<lparr>job_id = jid, job_repository_id = repo, job_requested_by_user_id = user, job_type = type,
      job_status = QUEUED, job_attempt = 0, job_progress = 0, job_stage = Some ''queued'',
      job_source_commit_sha = None, job_target_commit_sha = target_sha, job_target_branch = branch,
      job_requested_mode = mode, job_refresh_generation = generation,
      job_outcome = no_outcome\<lparr>ro_full_rebuild_reason := reason\<rparr>, job_error_code = None,
      job_safe_error_message = None, job_locked_by = None, job_next_attempt_at = None,
      job_last_enqueued_at = None, job_scan = no_scan, job_target_index_version = None,
      job_vectors = no_vectors, job_embedding = None, job_graph = no_graph, job_created_at = now,
      job_started_at = None, job_heartbeat_at = None, job_completed_at = None\<rparr>"

definition insert_job :: "indexing_job \<Rightarrow> db \<Rightarrow> db" where
  "insert_job j db = db\<lparr>db_jobs := db_jobs db @ [j]\<rparr>"

definition new_repository ::
  "uuid \<Rightarrow> uuid option \<Rightarrow> repository_access_mode \<Rightarrow> github_repository \<Rightarrow> repository" where
  "new_repository rid installation mode g =
     \<lparr>repo_id = rid, repo_installation_id = installation, repo_access_mode = mode,
      repo_github_repository_id = gr_id g, repo_github_owner = gr_owner_login g,
      repo_github_name = gr_name g, repo_github_full_name = gr_full_name g,
      repo_github_url = gr_html_url g, repo_is_private = gr_private g,
      repo_default_branch = gr_default_branch g, repo_indexed_branch = None,
      repo_refresh_generation = 0, repo_latest_webhook_commit_sha = None,
      repo_last_delivery_status = None, repo_last_delivery_at = None,
      repo_current_remote_sha = None, repo_last_indexed_commit_sha = None, repo_index_version = 0,
      repo_indexing_status = NOT_INDEXED, repo_indexing_progress = 0, repo_indexing_stage = None,
      repo_indexing_error_code = None, repo_indexing_error_message = None, repo_size_bytes = None,
      repo_primary_language = None, repo_visibility_checked_at = None,
      repo_last_indexed_at = None, repo_active_vector_count = 0, repo_access_revoked_at = None,
      repo_deleted_at = None\<rparr>"

section \<open>Push and repository events\<close>

definition finish_delivery ::
  "time \<Rightarrow> webhook_delivery_status \<Rightarrow> string \<Rightarrow> webhook_delivery \<Rightarrow> webhook_delivery" where
  "finish_delivery now status code d =
     d\<lparr>dlv_status := status, dlv_safe_error_code := Some code, dlv_processed_at := Some now\<rparr>"

definition active_installation :: "nat \<Rightarrow> db \<Rightarrow> github_installation option" where
  "active_installation gid db =
     select_first (\<lambda>i. inst_github_installation_id i = gid \<and> inst_status i = INST_ACTIVE
       \<and> inst_deleted_at i = None) (db_installations db)"

definition granted_repository :: "uuid \<Rightarrow> nat \<Rightarrow> db \<Rightarrow> repository option" where
  "granted_repository installation gid db =
     select_first (\<lambda>r. repo_installation_id r = Some installation
       \<and> repo_github_repository_id r = gid \<and> repo_access_revoked_at r = None
       \<and> repo_deleted_at r = None) (db_repositories db)"

definition open_status :: "indexing_job_status \<Rightarrow> bool" where
  "open_status s \<longleftrightarrow> s = QUEUED \<or> s = RUNNING \<or> s = RETRYING"

definition zero_sha :: string where
  "zero_sha = replicate 40 CHR ''0''"

definition push_mode :: "webhook_payload \<Rightarrow> string \<Rightarrow> repository \<Rightarrow> indexing_mode" where
  "push_mode p before r =
     (if wp_forced p \<or> repo_index_version r = 0 \<or> Some before \<noteq> repo_last_indexed_commit_sha r
      then FULL else INCREMENTAL)"

definition apply_push ::
  "time \<Rightarrow> uuid \<Rightarrow> webhook_payload \<Rightarrow> webhook_delivery \<Rightarrow> db
    \<Rightarrow> webhook_error + (uuid option \<times> webhook_delivery \<times> db)" where
  "apply_push now jid p d db =
     (case (wp_installation p, wp_repository p, wp_ref p, wp_before p, wp_after p) of
        (Some gi, Some gr, Some ref, Some before, Some after) \<Rightarrow>
          (case active_installation (gi_id gi) db of
             None \<Rightarrow> Inr (None, finish_delivery now W_UNAUTHORIZED ''installation_unauthorized'' d, db)
           | Some inst \<Rightarrow>
               (case granted_repository (inst_id inst) (gr_id gr) db of
                  None \<Rightarrow> Inr (None, finish_delivery now W_UNAUTHORIZED ''repository_unauthorized'' d, db)
                | Some r \<Rightarrow>
                    (let d1 = d\<lparr>dlv_repository_id := Some (repo_id r), dlv_ref := Some ref,
                           dlv_before_commit_sha := Some before, dlv_after_commit_sha := Some after\<rparr> in
                     if ref \<noteq> ''refs/heads/'' @ repo_default_branch r
                     then Inr (None, finish_delivery now W_IGNORED ''non_default_branch'' d1, db)
                     else if wp_deleted p \<or> after = zero_sha
                     then Inr (None, finish_delivery now W_IGNORED ''branch_deleted'' d1, db)
                     else if repo_last_indexed_commit_sha r = Some after
                     then Inr (None, finish_delivery now W_STALE ''already_active'' d1,
                       update_repositories (\<lambda>x. repo_id x = repo_id r)
                         (\<lambda>x. x\<lparr>repo_last_delivery_status := Some (delivery_status_value W_STALE),
                            repo_last_delivery_at := Some now\<rparr>) db)
                     else case select_first (\<lambda>j. job_repository_id j = repo_id r
                           \<and> job_target_commit_sha j = Some after \<and> open_status (job_status j))
                         (db_jobs db) of
                       Some j \<Rightarrow> Inr (None, d1\<lparr>dlv_status := W_QUEUED,
                         dlv_indexing_job_id := Some (job_id j)\<rparr>, db)
                     | None \<Rightarrow>
                         (let mode = push_mode p before r;
                              job = queued_job jid now (repo_id r) None
                                (if mode = FULL then FULL_REBUILD else INCREMENTAL_REINDEX)
                                (Some after) (Some (repo_default_branch r)) (Some mode) None
                                (repo_refresh_generation r + 1)
                          in Inr (Some jid, d1,
                               update_repositories (\<lambda>x. repo_id x = repo_id r)
                                 (\<lambda>x. x\<lparr>repo_refresh_generation := repo_refresh_generation r + 1,
                                    repo_latest_webhook_commit_sha := Some after,
                                    repo_current_remote_sha := Some after,
                                    repo_last_delivery_status := Some (delivery_status_value W_QUEUED),
                                    repo_last_delivery_at := Some now,
                                    repo_indexing_status := R_QUEUED, repo_indexing_progress := 0,
                                    repo_indexing_stage := Some ''queued_refresh''\<rparr>)
                                 (insert_job job db))))))
      | _ \<Rightarrow> Inl WebhookPayloadError)"

definition apply_repository_metadata ::
  "time \<Rightarrow> uuid \<Rightarrow> webhook_payload \<Rightarrow> webhook_delivery \<Rightarrow> db
    \<Rightarrow> uuid option \<times> webhook_delivery \<times> db" where
  "apply_repository_metadata now jid p d db =
     (case (wp_repository p, wp_installation p) of
        (Some gr, Some gi) \<Rightarrow>
          (case active_installation (gi_id gi) db of
             None \<Rightarrow> (None, finish_delivery now W_UNAUTHORIZED ''installation_unauthorized'' d, db)
           | Some inst \<Rightarrow>
               (case granted_repository (inst_id inst) (gr_id gr) db of
                  None \<Rightarrow> (None, finish_delivery now W_UNAUTHORIZED ''repository_unauthorized'' d, db)
                | Some r \<Rightarrow>
                    (let d1 = d\<lparr>dlv_repository_id := Some (repo_id r)\<rparr>;
                         branch_changed = (repo_default_branch r \<noteq> gr_default_branch gr);
                         db1 = update_repositories (\<lambda>x. repo_id x = repo_id r)
                           (\<lambda>x. x\<lparr>repo_github_owner := gr_owner_login gr,
                              repo_github_name := gr_name gr,
                              repo_github_full_name := gr_full_name gr,
                              repo_github_url := gr_html_url gr,
                              repo_default_branch := gr_default_branch gr,
                              repo_is_private := gr_private gr\<rparr>) db in
                     if branch_changed
                     then (Some jid, d1,
                       insert_job (queued_job jid now (repo_id r) None FULL_REBUILD None
                           (Some (gr_default_branch gr)) (Some FULL) (Some ''default_branch_changed'')
                           (repo_refresh_generation r + 1))
                         (update_repositories (\<lambda>x. repo_id x = repo_id r)
                           (\<lambda>x. x\<lparr>repo_refresh_generation := repo_refresh_generation r + 1,
                              repo_indexing_status := R_QUEUED,
                              repo_indexing_stage := Some ''queued_full_rebuild''\<rparr>) db1))
                     else (None, d1, db1))))
      | _ \<Rightarrow> (None, d, db))"

section \<open>Installation events\<close>

record fresh_ids =
  id_delivery :: uuid
  id_job :: uuid
  id_installation :: uuid
  id_repositories :: "nat \<Rightarrow> uuid"

definition fill_installation :: "installation_data \<Rightarrow> github_installation \<Rightarrow> github_installation" where
  "fill_installation gi i =
     i\<lparr>inst_account_type := (if ga_is_user (gi_account gi) then ACCOUNT_USER else ACCOUNT_ORGANIZATION),
       inst_account_github_id := ga_id (gi_account gi), inst_account_login := ga_login (gi_account gi),
       inst_permissions := gi_permissions gi,
       inst_repository_selection := (if gi_selection_all gi then SELECTION_ALL else SELECTION_SELECTED)\<rparr>"

definition new_installation :: "uuid \<Rightarrow> installation_data \<Rightarrow> github_installation" where
  "new_installation iid gi = fill_installation gi
     \<lparr>inst_id = iid, inst_github_installation_id = gi_id gi, inst_account_type = ACCOUNT_USER,
      inst_account_github_id = 0, inst_account_login = [], inst_permissions = [],
      inst_repository_selection = SELECTION_ALL, inst_status = INST_ACTIVE,
      inst_suspended_at = None, inst_deleted_at = None\<rparr>"

text \<open>The id of the row, and the database with the row filled in.\<close>

definition upsert_installation :: "uuid \<Rightarrow> installation_data \<Rightarrow> db \<Rightarrow> uuid \<times> db" where
  "upsert_installation iid gi db =
     (case select_first (\<lambda>i. inst_github_installation_id i = gi_id gi) (db_installations db) of
        None \<Rightarrow> (iid, db\<lparr>db_installations := db_installations db @ [new_installation iid gi]\<rparr>)
      | Some i \<Rightarrow> (inst_id i, db\<lparr>db_installations :=
          update_where (\<lambda>x. inst_id x = inst_id i) (fill_installation gi) (db_installations db)\<rparr>))"

definition set_installation :: "uuid \<Rightarrow> (github_installation \<Rightarrow> github_installation) \<Rightarrow> db \<Rightarrow> db" where
  "set_installation iid f db =
     db\<lparr>db_installations := update_where (\<lambda>x. inst_id x = iid) f (db_installations db)\<rparr>"

definition revoke_installation_repositories :: "uuid \<Rightarrow> time \<Rightarrow> db \<Rightarrow> db" where
  "revoke_installation_repositories iid now db =
     update_repositories (\<lambda>r. repo_installation_id r = Some iid)
       (\<lambda>r. r\<lparr>repo_access_revoked_at := Some now, repo_indexing_status := ACCESS_REVOKED\<rparr>) db"

definition add_creator :: "time \<Rightarrow> uuid \<Rightarrow> nat option \<Rightarrow> db \<Rightarrow> db" where
  "add_creator now iid sender db =
     (case sender of
        None \<Rightarrow> db
      | Some s \<Rightarrow>
          (case select_first (\<lambda>u. usr_github_user_id u = Some s) (db_users db) of
             None \<Rightarrow> db
           | Some u \<Rightarrow>
               if list_ex (\<lambda>m. mem_installation_id m = iid \<and> mem_user_id m = usr_id u) (db_members db)
               then db
               else db\<lparr>db_members := db_members db @ [\<lparr>mem_installation_id = iid,
                 mem_user_id = usr_id u, mem_role = OWNER, mem_verified_at = now\<rparr>]\<rparr>))"

definition apply_installation :: "fresh_ids \<Rightarrow> time \<Rightarrow> webhook_payload \<Rightarrow> db \<Rightarrow> db" where
  "apply_installation ids now p db =
     (case wp_installation p of
        None \<Rightarrow> db
      | Some gi \<Rightarrow>
          (let (iid, db1) = upsert_installation (id_installation ids) gi db;
               db2 =
                 (if wp_action p = Some ''deleted''
                  then revoke_installation_repositories iid now
                    (set_installation iid (\<lambda>i. i\<lparr>inst_status := INST_DELETED, inst_deleted_at := Some now\<rparr>) db1)
                  else if wp_action p = Some ''suspend''
                  then revoke_installation_repositories iid now
                    (set_installation iid (\<lambda>i. i\<lparr>inst_status := INST_SUSPENDED,
                       inst_suspended_at := Some (case gi_suspended_at gi of None \<Rightarrow> now | Some t \<Rightarrow> t)\<rparr>) db1)
                  else if wp_action p = Some ''created'' \<or> wp_action p = Some ''unsuspend''
                  then set_installation iid (\<lambda>i. i\<lparr>inst_status := INST_ACTIVE,
                    inst_suspended_at := None, inst_deleted_at := None\<rparr>) db1
                  else db1)
           in if wp_action p = Some ''created'' then add_creator now iid (wp_sender p) db2 else db2))"

text \<open>
  One repository of \<open>repositories_added\<close>. The session does not flush before a query, so rows
  added earlier in the loop (\<open>pending\<close>) are not seen by the lookup.
\<close>

definition grant_repository ::
  "uuid \<Rightarrow> uuid \<Rightarrow> github_repository \<Rightarrow> db \<Rightarrow> repository list \<Rightarrow> db \<times> repository list" where
  "grant_repository rid iid gr db pending =
     (case select_first (\<lambda>r. repo_installation_id r = Some iid \<and> repo_github_repository_id r = gr_id gr)
           (db_repositories db) of
        None \<Rightarrow> (db, pending @ [new_repository rid (Some iid) GITHUB_INSTALLATION gr])
      | Some r \<Rightarrow>
          (update_repositories (\<lambda>x. repo_id x = repo_id r)
             (\<lambda>x. x\<lparr>repo_access_revoked_at := None, repo_deleted_at := None,
                repo_indexing_status := (if repo_indexing_status x = ACCESS_REVOKED then NOT_INDEXED
                  else repo_indexing_status x),
                repo_indexing_progress := (if repo_indexing_status x = ACCESS_REVOKED then 0
                  else repo_indexing_progress x)\<rparr>) db, pending))"

fun grant_repositories ::
  "(nat \<Rightarrow> uuid) \<Rightarrow> nat \<Rightarrow> uuid \<Rightarrow> github_repository list \<Rightarrow> db \<Rightarrow> repository list \<Rightarrow> db \<times> repository list" where
  "grant_repositories rids n iid [] db pending = (db, pending)"
| "grant_repositories rids n iid (gr # grs) db pending =
     (let (db', pending') = grant_repository (rids n) iid gr db pending
      in grant_repositories rids (n + 1) iid grs db' pending')"

definition apply_repository_access :: "fresh_ids \<Rightarrow> time \<Rightarrow> webhook_payload \<Rightarrow> db \<Rightarrow> db" where
  "apply_repository_access ids now p db =
     (case wp_installation p of
        None \<Rightarrow> db
      | Some gi \<Rightarrow>
          (let (iid, db1) = upsert_installation (id_installation ids) gi db;
               db2 = update_repositories (\<lambda>r. repo_installation_id r = Some iid
                   \<and> repo_github_repository_id r \<in> set (wp_repositories_removed p))
                 (\<lambda>r. r\<lparr>repo_access_revoked_at := Some now, repo_indexing_status := ACCESS_REVOKED\<rparr>) db1;
               (db3, pending) = grant_repositories (id_repositories ids) 0 iid (wp_repositories_added p) db2 []
           in db3\<lparr>db_repositories := db_repositories db3 @ pending\<rparr>))"

section \<open>The handler\<close>

definition delete_repository :: "time \<Rightarrow> github_repository \<Rightarrow> installation_data \<Rightarrow> db \<Rightarrow> db" where
  "delete_repository now gr gi db =
     update_repositories (\<lambda>r. repo_github_repository_id r = gr_id gr
         \<and> (case select_first (\<lambda>i. inst_github_installation_id i = gi_id gi) (db_installations db) of
              None \<Rightarrow> False | Some i \<Rightarrow> repo_installation_id r = Some (inst_id i)))
       (\<lambda>r. r\<lparr>repo_access_revoked_at := Some now, repo_deleted_at := Some now,
          repo_indexing_status := ACCESS_REVOKED\<rparr>) db"

definition apply_event ::
  "fresh_ids \<Rightarrow> time \<Rightarrow> string \<Rightarrow> webhook_payload \<Rightarrow> webhook_delivery \<Rightarrow> db
    \<Rightarrow> webhook_error + (uuid option \<times> webhook_delivery \<times> db)" where
  "apply_event ids now event p d db =
     (if event = ''installation'' \<and> wp_installation p \<noteq> None
      then Inr (None, d, apply_installation ids now p db)
      else if event = ''installation_repositories'' \<and> wp_installation p \<noteq> None
      then Inr (None, d, apply_repository_access ids now p db)
      else if event = ''push'' then apply_push now (id_job ids) p d db
      else if event = ''repository''
      then (case (wp_action p = Some ''deleted'', wp_repository p, wp_installation p) of
              (True, Some gr, Some gi) \<Rightarrow> Inr (None, d, delete_repository now gr gi db)
            | _ \<Rightarrow> Inr (apply_repository_metadata now (id_job ids) p d db))
      else Inr (None, d, db))"

text \<open>The two unique keys of \<open>repositories\<close> within an installation.\<close>

definition repository_keys_ok :: "repository list \<Rightarrow> bool" where
  "repository_keys_ok rs \<longleftrightarrow>
     (let xs = filter (\<lambda>r. repo_installation_id r \<noteq> None) rs in
      distinct (map (\<lambda>r. (repo_installation_id r, repo_github_repository_id r)) xs)
      \<and> distinct (map (\<lambda>r. (repo_installation_id r, repo_github_full_name r)) xs))"

definition received_delivery :: "uuid \<Rightarrow> time \<Rightarrow> string \<Rightarrow> string \<Rightarrow> webhook_payload \<Rightarrow> webhook_delivery" where
  "received_delivery did now delivery event p =
     \<lparr>dlv_id = did, dlv_delivery_id = delivery, dlv_event_name = event, dlv_action = wp_action p,
      dlv_github_installation_id = map_option gi_id (wp_installation p),
      dlv_github_repository_id = map_option gr_id (wp_repository p), dlv_repository_id = None,
      dlv_indexing_job_id = None, dlv_ref = None, dlv_before_commit_sha = None,
      dlv_after_commit_sha = None, dlv_retry_count = 0, dlv_status = W_RECEIVED,
      dlv_safe_error_code = None, dlv_received_at = now, dlv_processed_at = None\<rparr>"

definition settle_delivery :: "time \<Rightarrow> uuid option \<Rightarrow> webhook_delivery \<Rightarrow> webhook_delivery" where
  "settle_delivery now job d =
     (case job of
        Some j \<Rightarrow> d\<lparr>dlv_status := W_QUEUED, dlv_indexing_job_id := Some j\<rparr>
      | None \<Rightarrow> if dlv_status d = W_RECEIVED
          then d\<lparr>dlv_status := W_PROCESSED, dlv_processed_at := Some now\<rparr> else d)"

definition wake_worker :: "time \<Rightarrow> bool \<Rightarrow> uuid \<Rightarrow> uuid option \<Rightarrow> db \<Rightarrow> db" where
  "wake_worker now queue_ok did job db =
     (case job of
        None \<Rightarrow> db
      | Some j \<Rightarrow>
          if queue_ok
          then update_jobs (\<lambda>x. job_id x = j) (\<lambda>x. x\<lparr>job_last_enqueued_at := Some now\<rparr>) db
          else update_deliveries (\<lambda>x. dlv_id x = did)
            (\<lambda>x. x\<lparr>dlv_status := W_RETRYABLE, dlv_safe_error_code := Some ''queue_unavailable'',
               dlv_retry_count := dlv_retry_count x + 1\<rparr>) db)"

definition insert_delivery :: "webhook_delivery \<Rightarrow> db \<Rightarrow> db" where
  "insert_delivery d db = db\<lparr>db_deliveries := db_deliveries db @ [d]\<rparr>"

definition handle_webhook ::
  "fresh_ids \<Rightarrow> time \<Rightarrow> bool \<Rightarrow> string \<Rightarrow> string option \<Rightarrow> string option \<Rightarrow> string option
    \<Rightarrow> pystr option \<Rightarrow> webhook_payload option \<Rightarrow> db \<Rightarrow> webhook_error + (webhook_result \<times> db)" where
  "handle_webhook ids now queue_ok digest signature delivery_id event_name content_type parsed db =
     (if \<not> verify_signature digest signature then Inl WebhookSignatureError
      else if media_type content_type \<noteq> py ''application/json'' then Inl WebhookMediaTypeError
      else case (delivery_id, event_name, parsed) of
        (Some delivery, Some event, Some p) \<Rightarrow>
          if \<not> delivery_pattern delivery \<or> \<not> event_pattern event \<or> \<not> supported_payload event p
          then Inl WebhookPayloadError
          else if list_ex (\<lambda>d. dlv_delivery_id d = delivery) (db_deliveries db)
          then Inr (WH_Duplicate, db)
          else
            (let d = received_delivery (id_delivery ids) now delivery event p in
             if event \<notin> supported_events
             then Inr (WH_Ignored, insert_delivery
               (d\<lparr>dlv_status := W_IGNORED, dlv_processed_at := Some now\<rparr>) db)
             else case apply_event ids now event p d db of
               Inl e \<Rightarrow> Inl e
             | Inr (job, d', db1) \<Rightarrow>
                 if \<not> repository_keys_ok (db_repositories db1) then Inl WebhookDatabaseError
                 else Inr (WH_Accepted, wake_worker now queue_ok (id_delivery ids) job
                   (insert_delivery (settle_delivery now job d') db1)))
      | _ \<Rightarrow> Inl WebhookPayloadError)"

end
