(* ===== verification/Access.thy ===== *)
theory Access
  imports Webhooks
begin

text \<open>
  Who may use a repository, and the jobs users create: \<^verbatim>\<open>backend/app/services/installations.py\<close>,
  \<^verbatim>\<open>repositories.py\<close> and \<^verbatim>\<open>public_repositories.py\<close>, with the two readers of the resulting state,
  \<open>_is_searchable\<close> of \<^verbatim>\<open>backend/app/api/repositories.py\<close> and the first test of
  \<open>_load_active_index\<close> of \<^verbatim>\<open>backend/app/rag/service.py\<close>. What GitHub answers is an argument. A method
  may commit and then raise, so its outcome is a result paired with the database. The wake-up of
  the queue after a commit is taken to be accepted; when it is not, the caller sees an error and the
  same database without the new \<open>last_enqueued_at\<close>.
\<close>

section \<open>Arguments and results\<close>

datatype access_error =
    InstallationAccessError | RepositoryAccessError | PublicRepositoryAccessError
  | PublicRepositoryLimitError | PublicRepositoryTooLargeError | GitHubAPIError
  | AccessIntegrityError

record public_github_repository =
  pm_repository :: github_repository
  pm_default_branch_sha :: string

datatype public_lookup = PL_Found public_github_repository | PL_Not_Found | PL_Private | PL_Error

record access_settings =
  as_membership_ttl_seconds :: nat
  as_visibility_ttl_seconds :: nat
  as_repository_limit :: nat
  as_active_limit :: nat
  as_max_repository_bytes :: nat

section \<open>Installations\<close>

definition member_of :: "time \<Rightarrow> uuid \<Rightarrow> uuid \<Rightarrow> db \<Rightarrow> bool" where
  "member_of cutoff user installation db =
     list_ex (\<lambda>m. mem_installation_id m = installation \<and> mem_user_id m = user
       \<and> cutoff \<le> mem_verified_at m) (db_members db)"

definition authorized_installation :: "time \<Rightarrow> uuid \<Rightarrow> github_installation \<Rightarrow> db \<Rightarrow> bool" where
  "authorized_installation cutoff user i db \<longleftrightarrow>
     member_of cutoff user (inst_id i) db \<and> inst_status i = INST_ACTIVE \<and> inst_deleted_at i = None"

definition membership_cutoff :: "access_settings \<Rightarrow> time \<Rightarrow> time" where
  "membership_cutoff A now = now - seconds (as_membership_ttl_seconds A)"

definition list_authorized_installations :: "access_settings \<Rightarrow> time \<Rightarrow> uuid \<Rightarrow> db \<Rightarrow> github_installation list" where
  "list_authorized_installations A now user db =
     filter (\<lambda>i. authorized_installation (membership_cutoff A now) user i db) (db_installations db)"

definition get_authorized_installation ::
  "access_settings \<Rightarrow> time \<Rightarrow> uuid \<Rightarrow> uuid \<Rightarrow> db \<Rightarrow> github_installation option" where
  "get_authorized_installation A now user installation db =
     select_first (\<lambda>i. inst_id i = installation
       \<and> authorized_installation (membership_cutoff A now) user i db) (db_installations db)"

text \<open>The joins of the two repository queries.\<close>

definition private_access :: "time \<Rightarrow> uuid \<Rightarrow> repository \<Rightarrow> db \<Rightarrow> bool" where
  "private_access cutoff user r db \<longleftrightarrow>
     repo_access_revoked_at r = None \<and> repo_deleted_at r = None
     \<and> (case installation_of r db of
          None \<Rightarrow> False | Some i \<Rightarrow> authorized_installation cutoff user i db)"

definition attached :: "uuid \<Rightarrow> uuid \<Rightarrow> db \<Rightarrow> bool" where
  "attached user repo db =
     list_ex (\<lambda>u. ur_user_id u = user \<and> ur_repository_id u = repo) (db_user_repositories db)"

definition public_access :: "uuid \<Rightarrow> repository \<Rightarrow> db \<Rightarrow> bool" where
  "public_access user r db \<longleftrightarrow>
     attached user (repo_id r) db \<and> repo_access_mode r = PUBLIC
     \<and> repo_access_revoked_at r = None \<and> repo_deleted_at r = None"

definition list_authorized_repositories :: "access_settings \<Rightarrow> time \<Rightarrow> uuid \<Rightarrow> db \<Rightarrow> repository list" where
  "list_authorized_repositories A now user db =
     sort_key repo_github_full_name
       (filter (\<lambda>r. repo_access_mode r = GITHUB_INSTALLATION \<and> private_access (membership_cutoff A now) user r db)
          (db_repositories db)
        @ filter (\<lambda>r. public_access user r db) (db_repositories db))"

text \<open>
  \<open>_upsert_repository\<close>: the session flushes after each, so the next lookup sees the row and the
  unique keys are checked each time.
\<close>

definition refill_repository :: "github_repository \<Rightarrow> repository \<Rightarrow> repository" where
  "refill_repository g r =
     r\<lparr>repo_github_owner := gr_owner_login g, repo_github_name := gr_name g,
       repo_github_full_name := gr_full_name g, repo_github_url := gr_html_url g,
       repo_is_private := gr_private g, repo_default_branch := gr_default_branch g,
       repo_primary_language := gr_language g, repo_access_revoked_at := None,
       repo_deleted_at := None,
       repo_indexing_status := (if repo_indexing_status r = ACCESS_REVOKED then NOT_INDEXED
         else repo_indexing_status r),
       repo_indexing_progress := (if repo_indexing_status r = ACCESS_REVOKED then 0
         else repo_indexing_progress r)\<rparr>"

definition upsert_repository :: "uuid \<Rightarrow> uuid \<Rightarrow> github_repository \<Rightarrow> db \<Rightarrow> db" where
  "upsert_repository rid installation g db =
     (case select_first (\<lambda>r. repo_installation_id r = Some installation
           \<and> repo_github_repository_id r = gr_id g) (db_repositories db) of
        None \<Rightarrow> db\<lparr>db_repositories := db_repositories db
          @ [refill_repository g (new_repository rid (Some installation) GITHUB_INSTALLATION g)]\<rparr>
      | Some r \<Rightarrow> update_repositories (\<lambda>x. repo_id x = repo_id r) (refill_repository g) db)"

fun upsert_repositories ::
  "(nat \<Rightarrow> uuid) \<Rightarrow> nat \<Rightarrow> uuid \<Rightarrow> github_repository list \<Rightarrow> db \<Rightarrow> db option" where
  "upsert_repositories rids n installation [] db = Some db"
| "upsert_repositories rids n installation (g # gs) db =
     (let db1 = upsert_repository (rids n) installation g db in
      if \<not> repository_keys_ok (db_repositories db1) then None
      else upsert_repositories rids (n + 1) installation gs db1)"

definition synchronize_repositories ::
  "access_settings \<Rightarrow> time \<Rightarrow> (nat \<Rightarrow> uuid) \<Rightarrow> uuid \<Rightarrow> uuid \<Rightarrow> github_repository list option \<Rightarrow> db
    \<Rightarrow> (access_error + repository list) \<times> db" where
  "synchronize_repositories A now rids user installation external db =
     (case (get_authorized_installation A now user installation db, external) of
        (None, _) \<Rightarrow> (Inl InstallationAccessError, db)
      | (Some i, None) \<Rightarrow> (Inl GitHubAPIError, db)
      | (Some i, Some gs) \<Rightarrow>
          (case upsert_repositories rids 0 (inst_id i) gs db of
             None \<Rightarrow> (Inl AccessIntegrityError, db)
           | Some db1 \<Rightarrow>
          (let db2 = update_repositories (\<lambda>r. repo_installation_id r = Some (inst_id i)
                   \<and> repo_access_revoked_at r = None
                   \<and> repo_github_repository_id r \<notin> set (map gr_id gs))
                 (\<lambda>r. r\<lparr>repo_access_revoked_at := Some now, repo_indexing_status := ACCESS_REVOKED\<rparr>) db1
           in (Inr (sort_key repo_github_full_name
                (filter (\<lambda>r. repo_installation_id r = Some (inst_id i)
                   \<and> repo_github_repository_id r \<in> set (map gr_id gs)
                   \<and> repo_access_revoked_at r = None \<and> repo_deleted_at r = None)
                  (db_repositories db2))), db2))))"

definition revoke_public :: "time \<Rightarrow> uuid \<Rightarrow> db \<Rightarrow> db" where
  "revoke_public now repo db = revoke_public_access now repo db"

definition refresh_identity :: "time \<Rightarrow> public_github_repository \<Rightarrow> repository \<Rightarrow> repository" where
  "refresh_identity now m r =
     (let g = pm_repository m in
      r\<lparr>repo_github_owner := gr_owner_login g, repo_github_name := gr_name g,
        repo_github_full_name := gr_full_name g, repo_github_url := gr_html_url g,
        repo_default_branch := gr_default_branch g,
        repo_current_remote_sha := Some (pm_default_branch_sha m),
        repo_visibility_checked_at := Some now\<rparr>)"

definition visibility_fresh :: "access_settings \<Rightarrow> time \<Rightarrow> repository \<Rightarrow> bool" where
  "visibility_fresh A now r \<longleftrightarrow>
     (case repo_visibility_checked_at r of
        None \<Rightarrow> False | Some t \<Rightarrow> now - seconds (as_visibility_ttl_seconds A) \<le> t)"

definition get_authorized_public_repository ::
  "access_settings \<Rightarrow> time \<Rightarrow> uuid \<Rightarrow> uuid \<Rightarrow> bool \<Rightarrow> public_lookup \<Rightarrow> db
    \<Rightarrow> (access_error + repository) \<times> db" where
  "get_authorized_public_repository A now user repo require_fresh lookup db =
     (case select_first (\<lambda>r. repo_id r = repo \<and> public_access user r db) (db_repositories db) of
        None \<Rightarrow> (Inl InstallationAccessError, db)
      | Some r \<Rightarrow>
          if \<not> require_fresh \<and> visibility_fresh A now r then (Inr r, db)
          else case lookup of
            PL_Not_Found \<Rightarrow> (Inl InstallationAccessError, revoke_public now repo db)
          | PL_Private \<Rightarrow> (Inl InstallationAccessError, revoke_public now repo db)
          | PL_Error \<Rightarrow> (Inl InstallationAccessError, db)
          | PL_Found m \<Rightarrow>
              if gr_id (pm_repository m) \<noteq> repo_github_repository_id r
              then (Inl InstallationAccessError, revoke_public now repo db)
              else (Inr (refresh_identity now m r),
                update_repositories (\<lambda>x. repo_id x = repo) (refresh_identity now m) db))"

definition get_authorized_repository ::
  "access_settings \<Rightarrow> time \<Rightarrow> uuid \<Rightarrow> uuid \<Rightarrow> bool \<Rightarrow> public_lookup \<Rightarrow> db
    \<Rightarrow> (access_error + repository) \<times> db" where
  "get_authorized_repository A now user repo require_fresh lookup db =
     (if map_option repo_access_mode (repository_by_id repo db) = Some PUBLIC
      then get_authorized_public_repository A now user repo require_fresh lookup db
      else case select_first (\<lambda>r. repo_id r = repo \<and> private_access (membership_cutoff A now) user r db)
             (db_repositories db) of
        None \<Rightarrow> (Inl InstallationAccessError, db)
      | Some r \<Rightarrow> (Inr r, db))"

section \<open>Jobs of private repositories\<close>

definition enqueued :: "time \<Rightarrow> uuid \<Rightarrow> db \<Rightarrow> db" where
  "enqueued now job db = update_jobs (\<lambda>j. job_id j = job) (\<lambda>j. j\<lparr>job_last_enqueued_at := Some now\<rparr>) db"

text \<open>\<open>order_by(created_at.desc()).limit(1)\<close>.\<close>

definition latest_job :: "(indexing_job \<Rightarrow> bool) \<Rightarrow> db \<Rightarrow> indexing_job option" where
  "latest_job P db =
     (case rev (sort_key job_created_at (filter P (db_jobs db))) of [] \<Rightarrow> None | j # _ \<Rightarrow> Some j)"

text \<open>
  \<open>select_repository\<close> after the synchronisation: the repository is looked up again under lock.
\<close>

definition select_repository ::
  "access_settings \<Rightarrow> time \<Rightarrow> uuid \<Rightarrow> uuid \<Rightarrow> uuid \<Rightarrow> uuid \<Rightarrow> db \<Rightarrow> (access_error + uuid) \<times> db" where
  "select_repository A now jid user installation repo db =
     (case select_first (\<lambda>r. repo_id r = repo \<and> repo_installation_id r = Some installation
           \<and> private_access (membership_cutoff A now) user r db) (db_repositories db) of
        None \<Rightarrow> (Inl RepositoryAccessError, db)
      | Some r \<Rightarrow>
          (case latest_job (\<lambda>j. job_repository_id j = repo_id r \<and> job_type j = INITIAL_INDEX) db of
             Some j \<Rightarrow> (Inr (job_id j), enqueued now (job_id j) db)
           | None \<Rightarrow>
               (let db1 = insert_job (queued_job jid now (repo_id r) (Some user) INITIAL_INDEX None
                      (Some (repo_default_branch r)) None None (repo_refresh_generation r)) db;
                    db2 = update_repositories (\<lambda>x. repo_id x = repo_id r)
                      (\<lambda>x. x\<lparr>repo_indexing_status := R_QUEUED, repo_indexing_progress := 0,
                         repo_indexing_stage := Some ''queued'', repo_indexing_error_code := None,
                         repo_indexing_error_message := None\<rparr>) db1
                in (Inr jid, enqueued now jid db2))))"

definition create_reindex :: "time \<Rightarrow> uuid \<Rightarrow> uuid \<Rightarrow> uuid \<Rightarrow> db \<Rightarrow> (access_error + uuid) \<times> db" where
  "create_reindex now jid user repo db =
     (case repository_by_id repo db of
        None \<Rightarrow> (Inl RepositoryAccessError, db)
      | Some r \<Rightarrow>
          (let generation = repo_refresh_generation r + 1;
               db1 = insert_job (queued_job jid now repo (Some user) MANUAL_REINDEX
                 (repo_current_remote_sha r) (Some (repo_default_branch r)) (Some FULL)
                 (Some ''manual_reindex'') generation) db;
               db2 = update_repositories (\<lambda>x. repo_id x = repo)
                 (\<lambda>x. x\<lparr>repo_refresh_generation := generation, repo_indexing_status := R_QUEUED,
                    repo_indexing_progress := 0, repo_indexing_stage := Some ''queued_full_rebuild''\<rparr>) db1
           in (Inr jid, enqueued now jid db2)))"

definition reindex ::
  "access_settings \<Rightarrow> time \<Rightarrow> uuid \<Rightarrow> uuid \<Rightarrow> uuid \<Rightarrow> public_lookup \<Rightarrow> db \<Rightarrow> (access_error + uuid) \<times> db" where
  "reindex A now jid user repo lookup db =
     (case get_authorized_repository A now user repo True lookup db of
        (Inl _, db1) \<Rightarrow> (Inl RepositoryAccessError, db1)
      | (Inr _, db1) \<Rightarrow> create_reindex now jid user repo db1)"

definition get_status ::
  "access_settings \<Rightarrow> time \<Rightarrow> uuid \<Rightarrow> uuid \<Rightarrow> public_lookup \<Rightarrow> db
    \<Rightarrow> (access_error + (repository \<times> indexing_job option)) \<times> db" where
  "get_status A now user repo lookup db =
     (case get_authorized_repository A now user repo True lookup db of
        (Inl _, db1) \<Rightarrow> (Inl RepositoryAccessError, db1)
      | (Inr r, db1) \<Rightarrow> (Inr (r, latest_job (\<lambda>j. job_repository_id j = repo_id r) db1), db1))"

section \<open>Public repositories\<close>

definition validate_size :: "access_settings \<Rightarrow> public_github_repository \<Rightarrow> bool" where
  "validate_size A m =
     (case gr_size (pm_repository m) of
        None \<Rightarrow> True | Some kib \<Rightarrow> kib * 1024 \<le> as_max_repository_bytes A)"

definition public_row :: "nat \<Rightarrow> db \<Rightarrow> repository option" where
  "public_row gid db =
     select_first (\<lambda>r. repo_access_mode r = PUBLIC \<and> repo_github_repository_id r = gid) (db_repositories db)"

definition attachments :: "uuid \<Rightarrow> db \<Rightarrow> nat" where
  "attachments user db = length (filter (\<lambda>u. ur_user_id u = user) (db_user_repositories db))"

definition open_jobs_of :: "uuid \<Rightarrow> db \<Rightarrow> nat" where
  "open_jobs_of user db =
     length (filter (\<lambda>j. job_requested_by_user_id j = Some user \<and> open_status (job_status j)) (db_jobs db))"

definition attach_identity :: "time \<Rightarrow> public_github_repository \<Rightarrow> repository \<Rightarrow> repository" where
  "attach_identity now m r =
     (let g = pm_repository m in
      r\<lparr>repo_github_owner := gr_owner_login g, repo_github_name := gr_name g,
        repo_github_full_name := gr_full_name g, repo_github_url := gr_html_url g,
        repo_is_private := False, repo_default_branch := gr_default_branch g,
        repo_current_remote_sha := Some (pm_default_branch_sha m),
        repo_primary_language := gr_language g,
        repo_size_bytes := map_option (\<lambda>kib. kib * 1024) (gr_size g),
        repo_visibility_checked_at := Some now, repo_access_revoked_at := None,
        repo_deleted_at := None\<rparr>)"

record public_result =
  pub_repository_id :: uuid
  pub_job :: "uuid option"
  pub_already_current :: bool
  pub_reused_index :: bool

definition active_build_of :: "repository \<Rightarrow> db \<Rightarrow> index_build option" where
  "active_build_of r db = select_first (active_at (repo_id r) (repo_index_version r)) (db_builds db)"

text \<open>The second half of \<open>_attach\<close>, on the attached row \<open>r\<close>: a job unless current or already open.\<close>

definition attach_job ::
  "time \<Rightarrow> uuid \<Rightarrow> uuid \<Rightarrow> public_github_repository \<Rightarrow> bool \<Rightarrow> repository \<Rightarrow> db
    \<Rightarrow> public_result \<times> uuid option \<times> db" where
  "attach_job now jid user m manual r db =
     (let build = active_build_of r db;
          sha = pm_default_branch_sha m;
          already_current = (case build of None \<Rightarrow> False
            | Some b \<Rightarrow> bld_commit_sha b = sha \<and> repo_last_indexed_commit_sha r = Some sha);
          job = latest_job (\<lambda>j. job_repository_id j = repo_id r \<and> open_status (job_status j)) db;
          result = (\<lambda>j. \<lparr>pub_repository_id = repo_id r, pub_job = j,
            pub_already_current = already_current, pub_reused_index = (build \<noteq> None)\<rparr>) in
      if \<not> already_current \<and> job = None
      then
        (let generation = repo_refresh_generation r + (if manual then 1 else 0);
             db1 = insert_job (queued_job jid now (repo_id r) (Some user)
               (if manual then MANUAL_REINDEX else INITIAL_INDEX) (Some sha)
               (Some (gr_default_branch (pm_repository m)))
               (Some (if manual then INCREMENTAL else FULL)) None generation) db;
             db2 = update_repositories (\<lambda>x. repo_id x = repo_id r)
               (\<lambda>x. x\<lparr>repo_refresh_generation := generation, repo_indexing_status := R_QUEUED,
                  repo_indexing_progress := 0, repo_indexing_stage := Some ''queued''\<rparr>) db1
         in (result (Some jid), Some jid, db2))
      else (result (map_option job_id job), None, db))"

definition attach ::
  "access_settings \<Rightarrow> time \<Rightarrow> uuid \<Rightarrow> uuid \<Rightarrow> uuid \<Rightarrow> public_github_repository \<Rightarrow> uuid option \<Rightarrow> bool
    \<Rightarrow> db \<Rightarrow> access_error + (public_result \<times> uuid option \<times> db)" where
  "attach A now rid jid user m expected manual db =
     (let row = public_row (gr_id (pm_repository m)) db;
          member = (case row of None \<Rightarrow> False | Some r \<Rightarrow> attached user (repo_id r) db) in
      if expected \<noteq> None \<and> map_option repo_id row \<noteq> expected then Inl PublicRepositoryAccessError
      else if \<not> member \<and> as_repository_limit A \<le> attachments user db then Inl PublicRepositoryLimitError
      else if \<not> member \<and> as_active_limit A \<le> open_jobs_of user db then Inl PublicRepositoryLimitError
      else
        (let (r, db1) = (case row of
               None \<Rightarrow>
                 (let r = attach_identity now m (new_repository rid None PUBLIC (pm_repository m))
                  in (r, db\<lparr>db_repositories := db_repositories db @ [r]\<rparr>))
             | Some r \<Rightarrow> (attach_identity now m r,
                 update_repositories (\<lambda>x. repo_id x = repo_id r) (attach_identity now m) db));
             db2 = (if member then db1
               else db1\<lparr>db_user_repositories := db_user_repositories db1
                 @ [\<lparr>ur_user_id = user, ur_repository_id = repo_id r\<rparr>]\<rparr>)
         in Inr (attach_job now jid user m manual r db2)))"

definition attach_and_enqueue where
  "attach_and_enqueue A now rid jid user m expected manual db =
     (case attach A now rid jid user m expected manual db of
        Inl e \<Rightarrow> (Inl e, db)
      | Inr (result, None, db1) \<Rightarrow> (Inr result, db1)
      | Inr (result, Some j, db1) \<Rightarrow> (Inr result, enqueued now j db1))"

definition import_repository ::
  "access_settings \<Rightarrow> time \<Rightarrow> uuid \<Rightarrow> uuid \<Rightarrow> uuid \<Rightarrow> public_lookup \<Rightarrow> db
    \<Rightarrow> (access_error + public_result) \<times> db" where
  "import_repository A now rid jid user lookup db =
     (case lookup of
        PL_Found m \<Rightarrow>
          if \<not> validate_size A m then (Inl PublicRepositoryTooLargeError, db)
          else attach_and_enqueue A now rid jid user m None False db
      | _ \<Rightarrow> (Inl GitHubAPIError, db))"

definition refresh_public ::
  "access_settings \<Rightarrow> time \<Rightarrow> uuid \<Rightarrow> uuid \<Rightarrow> uuid \<Rightarrow> uuid \<Rightarrow> public_lookup \<Rightarrow> db
    \<Rightarrow> (access_error + public_result) \<times> db" where
  "refresh_public A now rid jid user repo lookup db =
     (case select_first (\<lambda>r. repo_id r = repo \<and> repo_access_mode r = PUBLIC
           \<and> repo_deleted_at r = None \<and> attached user (repo_id r) db) (db_repositories db) of
        None \<Rightarrow> (Inl PublicRepositoryAccessError, db)
      | Some r \<Rightarrow>
          (case lookup of
             PL_Found m \<Rightarrow>
               if gr_id (pm_repository m) \<noteq> repo_github_repository_id r
               then (Inl PublicRepositoryAccessError, revoke_public now repo db)
               else if \<not> validate_size A m then (Inl PublicRepositoryTooLargeError, db)
               else attach_and_enqueue A now rid jid user m (Some repo) True db
           | _ \<Rightarrow> (Inl GitHubAPIError, db)))"

section \<open>Readers\<close>

definition unsearchable_status :: "repository_indexing_status \<Rightarrow> bool" where
  "unsearchable_status s \<longleftrightarrow> s = NOT_INDEXED \<or> s = ACCESS_REVOKED \<or> s = DELETING"

definition is_searchable :: "repository \<Rightarrow> bool" where
  "is_searchable r \<longleftrightarrow> repo_index_version r > 0 \<and> repo_last_indexed_commit_sha r \<noteq> None
     \<and> \<not> unsearchable_status (repo_indexing_status r)"

definition active_index_refused :: "repository \<Rightarrow> bool" where
  "active_index_refused r \<longleftrightarrow> unsearchable_status (repo_indexing_status r)
     \<or> repo_index_version r < 1 \<or> repo_last_indexed_commit_sha r = None
     \<or> repo_active_vector_count r < 1"

end
