(* ===== verification/JobInvariant.thy ===== *)
theory JobInvariant
  imports Access
begin

text \<open>
  The life of a job row. \<open>jobs_inv\<close> is what the job table satisfies at all times: ids are unique, at
  most one job of a repository runs, a lock is held exactly while the job runs, and attempts stay
  within the configured maximum. Each store operation is described by the job rows it changes.
\<close>

section \<open>The invariant\<close>

definition job_shape :: "store_settings \<Rightarrow> indexing_job \<Rightarrow> bool" where
  "job_shape S j \<longleftrightarrow>
     (job_status j = RUNNING \<longleftrightarrow> job_locked_by j \<noteq> None)
     \<and> job_attempt j \<le> st_max_attempts S
     \<and> (job_status j = QUEUED \<longrightarrow> job_attempt j = 0)
     \<and> (job_status j = RUNNING \<longrightarrow> 0 < job_attempt j)
     \<and> (job_status j = RETRYING \<longrightarrow> 0 < job_attempt j \<and> job_attempt j < st_max_attempts S)"

definition jobs_inv :: "store_settings \<Rightarrow> indexing_job list \<Rightarrow> bool" where
  "jobs_inv S js \<longleftrightarrow> distinct (map job_id js) \<and> (\<forall>repo. one_running_ok repo js)
     \<and> (\<forall>j \<in> set js. job_shape S j)"

definition job_core where
  "job_core j = (job_id j, job_repository_id j, job_status j, job_attempt j, job_locked_by j)"

lemma jobs_inv_cong:
  assumes "map job_core js = map job_core js'"
  shows "jobs_inv S js = jobs_inv S js'"
proof -
  have id: "map job_id xs = map fst (map job_core xs)" for xs
    by (simp add: job_core_def)
  have run: "length (running_of repo xs)
      = length (filter (\<lambda>(i, r, s, a, l). r = repo \<and> s = RUNNING) (map job_core xs))" for repo xs
    by (induction xs) (auto simp: running_of_def job_core_def)
  have shape: "(\<forall>j \<in> set xs. job_shape S j)
      = (\<forall>(i, r, s, a, l) \<in> set (map job_core xs).
          (s = RUNNING \<longleftrightarrow> l \<noteq> None) \<and> a \<le> st_max_attempts S \<and> (s = QUEUED \<longrightarrow> a = 0)
          \<and> (s = RUNNING \<longrightarrow> 0 < a) \<and> (s = RETRYING \<longrightarrow> 0 < a \<and> a < st_max_attempts S))" for xs
    by (auto simp: job_core_def job_shape_def)
  show ?thesis
    unfolding jobs_inv_def one_running_ok_def id run shape assms ..
qed

lemma jobs_inv_frame:
  assumes "\<And>j. P j \<Longrightarrow> job_core (f j) = job_core j"
  shows "jobs_inv S (update_where P f js) = jobs_inv S js"
  by (rule jobs_inv_cong) (simp add: map_update_where assms)

lemma jobs_inv_unique:
  "jobs_inv S js \<Longrightarrow> j \<in> set js \<Longrightarrow> j' \<in> set js \<Longrightarrow> job_id j = job_id j' \<Longrightarrow> j = j'"
  unfolding jobs_inv_def by (blast intro: distinct_key_unique)

text \<open>At most one runs: any two running jobs of a repository are the same.\<close>

lemma length_le_one_iff:
  "distinct xs \<Longrightarrow> length xs \<le> 1 \<longleftrightarrow> (\<forall>x \<in> set xs. \<forall>y \<in> set xs. x = y)"
proof (cases xs)
  case (Cons a ys)
  assume "distinct xs"
  with Cons show ?thesis by (cases ys) auto
qed simp

lemma one_running_iff:
  assumes "distinct (map job_id js)"
  shows "one_running_ok repo js \<longleftrightarrow>
    (\<forall>x \<in> set js. \<forall>y \<in> set js. job_repository_id x = repo \<and> job_status x = RUNNING
       \<and> job_repository_id y = repo \<and> job_status y = RUNNING \<longrightarrow> x = y)"
proof -
  have "distinct (running_of repo js)"
    using assms by (simp add: running_of_def distinct_map)
  then show ?thesis
    unfolding one_running_ok_def by (subst length_le_one_iff) (auto simp: running_of_def)
qed

lemma update_where_key_cong:
  assumes "distinct (map key rs)" and "r \<in> set rs" and "P r" and "\<And>x. P x \<Longrightarrow> key x = key r"
  shows "update_where P f rs = update_where (\<lambda>x. key x = key r) f rs"
  unfolding update_where_def using assms
  by (intro map_cong refl) (metis distinct_key_unique)

lemma jobs_inv_update:
  assumes inv: "jobs_inv S js" and j: "j \<in> set js"
    and f: "job_id (f j) = job_id j" "job_repository_id (f j) = job_repository_id j"
    and shape: "job_shape S (f j)"
    and run: "job_status (f j) = RUNNING \<Longrightarrow> job_status j \<noteq> RUNNING \<Longrightarrow>
      one_running_ok (job_repository_id j) (update_where (\<lambda>x. job_id x = job_id j) f js)"
  shows "jobs_inv S (update_where (\<lambda>x. job_id x = job_id j) f js)"
proof -
  let ?js = "update_where (\<lambda>x. job_id x = job_id j) f js"
  have only: "x = j" if "x \<in> set js" "job_id x = job_id j" for x
    using jobs_inv_unique [OF inv that(1) j that(2)] .
  have ids: "map job_id ?js = map job_id js"
    by (rule map_update_where) (use only f in auto)
  have d: "distinct (map job_id js)" using inv by (simp add: jobs_inv_def)
  have members: "x \<in> set ?js \<Longrightarrow> x = f j \<or> x \<in> set js \<and> x \<noteq> j" for x
    by (auto simp: set_update_where dest: only)
  have "one_running_ok repo ?js" for repo
  proof (cases "job_status (f j) = RUNNING \<and> job_status j \<noteq> RUNNING \<and> repo = job_repository_id j")
    case True
    with run show ?thesis by simp
  next
    case False
    have old: "one_running_ok repo js" using inv by (simp add: jobs_inv_def)
    have d': "distinct (map job_id ?js)" unfolding ids by (rule d)
    show ?thesis
      unfolding one_running_iff [OF d']
    proof (intro ballI impI)
      fix x y assume x: "x \<in> set ?js" and y: "y \<in> set ?js"
        and r: "job_repository_id x = repo \<and> job_status x = RUNNING
          \<and> job_repository_id y = repo \<and> job_status y = RUNNING"
      have eq: "a = b" if "a \<in> set js" "b \<in> set js" "job_repository_id a = repo" "job_status a = RUNNING"
        "job_repository_id b = repo" "job_status b = RUNNING" for a b
        using old [unfolded one_running_iff [OF d]] that by blast
      from members [OF x] members [OF y] show "x = y"
        using False r f(2) eq j by metis
    qed
  qed
  moreover have "\<forall>x \<in> set ?js. job_shape S x"
    using members shape inv by (auto simp: jobs_inv_def)
  ultimately show ?thesis
    using d by (simp add: jobs_inv_def ids)
qed

lemma jobs_inv_insert:
  assumes "jobs_inv S js" and "job_id j \<notin> job_id ` set js" and "job_status j = QUEUED"
    and "job_attempt j = 0" and "job_locked_by j = None"
  shows "jobs_inv S (js @ [j])"
  using assms by (auto simp: jobs_inv_def one_running_ok_def running_of_def job_shape_def)

text \<open>Selecting by a condition that fixes the primary key.\<close>

lemma owned_jobD:
  assumes "owned_job claimed worker db = Some j"
  shows "j \<in> set (db_jobs db)" and "owned claimed worker j" and "job_id j = cl_id claimed"
    and "job_status j = RUNNING" and "job_locked_by j = Some worker"
  using assms by (auto simp: owned_job_def owned_def dest: select_first_SomeD)

lemma update_owned:
  assumes "jobs_inv S (db_jobs db)" and "owned_job claimed worker db = Some j"
  shows "update_where (owned claimed worker) f (db_jobs db)
    = update_where (\<lambda>x. job_id x = job_id j) f (db_jobs db)"
  using assms owned_jobD [OF assms(2)]
  by (intro update_where_key_cong) (auto simp: jobs_inv_def owned_def)

lemma update_owned_none:
  "owned_job claimed worker db = None \<Longrightarrow> update_where (owned claimed worker) f (db_jobs db) = db_jobs db"
  by (rule update_where_none) (auto simp: owned_job_def select_first_None)

section \<open>Operations that leave the core of every job\<close>

lemma job_core_heartbeat: "jobs_inv S (db_jobs (heartbeat now c w db)) = jobs_inv S (db_jobs db)"
  by (simp add: heartbeat_def jobs_inv_frame job_core_def)

lemma job_core_freshness:
  "jobs_inv S (db_jobs (record_freshness_plan c w m fb cc n db)) = jobs_inv S (db_jobs db)"
  by (simp add: record_freshness_plan_def jobs_inv_frame job_core_def)

lemma job_core_stage: "jobs_inv S (db_jobs (stage now c w st nm pr sha db)) = jobs_inv S (db_jobs db)"
  by (simp add: stage_def jobs_inv_frame job_core_def Let_def split: option.split)

lemma job_core_revoke_public: "db_jobs (revoke_public_access now repo db) = db_jobs db"
  by (simp add: revoke_public_access_def)

lemma job_core_authorized:
  "jobs_inv S (db_jobs (snd (authorized_context S' now c db))) = jobs_inv S (db_jobs db)"
  by (simp add: authorized_context_def jobs_inv_frame job_core_def Let_def split: option.split)

lemma job_core_mark_enqueued: "jobs_inv S (db_jobs (mark_enqueued now jid db)) = jobs_inv S (db_jobs db)"
  by (simp add: mark_enqueued_def jobs_inv_frame job_core_def)

lemma job_core_enqueued: "jobs_inv S (db_jobs (enqueued now jid db)) = jobs_inv S (db_jobs db)"
  by (simp add: enqueued_def jobs_inv_frame job_core_def)

lemma job_core_validate:
  "validate_graph D col c w db = Inr db' \<Longrightarrow> db_jobs db' = db_jobs db"
  by (auto simp: validate_graph_def Let_def split: option.splits if_splits)

lemma job_core_ready: "mark_build_ready c w db = Inr db' \<Longrightarrow> db_jobs db' = db_jobs db"
  by (auto simp: mark_build_ready_def Let_def split: option.splits if_splits)

lemma job_core_vectors:
  "record_vector_counts c w e v r q db = Inr db' \<Longrightarrow> jobs_inv S (db_jobs db') = jobs_inv S (db_jobs db)"
  by (auto simp: record_vector_counts_def jobs_inv_frame job_core_def split: option.splits)

lemma job_core_failed_cleanup: "db_jobs (record_failed_build_cleanup now repo ver ok db) = db_jobs db"
  by (simp add: record_failed_build_cleanup_def Let_def split: option.split)

lemma job_core_superseded_cleanup:
  "complete_superseded_cleanup now repo ver db = Inr db' \<Longrightarrow> db_jobs db' = db_jobs db"
  by (auto simp: complete_superseded_cleanup_def split: option.splits if_splits)

lemma store_build_jobs [simp]:
  "db_jobs (store_build S c repo sha p fp db) = db_jobs db"
  "db_repositories (store_build S c repo sha p fp db) = db_repositories db"
  "db_deliveries (store_build S c repo sha p fp db) = db_deliveries db"
  "db_symbols (store_build S c repo sha p fp db) = db_symbols db"
  "db_edges (store_build S c repo sha p fp db) = db_edges db"
  by (simp_all add: store_build_def split: option.split)

lemma job_core_prepare:
  "prepare_build D S' c w sha d p fp db = Inr db' \<Longrightarrow> jobs_inv S (db_jobs db') = jobs_inv S (db_jobs db)"
  by (auto simp: prepare_build_def Let_def jobs_inv_frame job_core_def split: option.splits if_splits)

section \<open>Operations that move a job\<close>

lemma jobs_inv_release:
  assumes "jobs_inv S js" and "j \<in> set js" and "job_status j = RUNNING"
    and "job_id (f j) = job_id j" and "job_repository_id (f j) = job_repository_id j"
    and "job_attempt (f j) = job_attempt j" and "job_locked_by (f j) = None"
    and "job_status (f j) \<in> {COMPLETE, FAILED, CANCELLED}
      \<or> job_status (f j) = RETRYING \<and> job_attempt j < st_max_attempts S"
  shows "jobs_inv S (update_where (\<lambda>x. job_id x = job_id j) f js)"
proof (rule jobs_inv_update [OF assms(1,2), where f = f, OF assms(4,5)])
  have "job_shape S j" using assms(1,2) by (simp add: jobs_inv_def)
  with assms show "job_shape S (f j)" by (auto simp: job_shape_def)
next
  assume "job_status (f j) = RUNNING"
  with assms(8) show "one_running_ok (job_repository_id j) (update_where (\<lambda>x. job_id x = job_id j) f js)"
    by auto
qed

lemma claim_rowD:
  assumes "claim now job w db = (Some c, db')"
  obtains j where "j \<in> set (db_jobs db)" and "job_id j = job" and "claimable now j"
    and "c = \<lparr>cl_id = job, cl_repository_id = job_repository_id j, cl_attempt = job_attempt j + 1\<rparr>"
    and "db_jobs db' = update_where (\<lambda>x. job_id x = job \<and> claimable now x)
      (\<lambda>j. j\<lparr>job_status := RUNNING, job_attempt := job_attempt j + 1, job_locked_by := Some w,
         job_started_at := Some now, job_heartbeat_at := Some now, job_next_attempt_at := None,
         job_error_code := None, job_safe_error_message := None\<rparr>) (db_jobs db)"
    and "one_running_ok (job_repository_id j) (db_jobs db')"
    and "db_repositories db' = update_where (\<lambda>r. repo_id r = job_repository_id j)
      (\<lambda>r. r\<lparr>repo_indexing_status := CLONING, repo_indexing_progress := 5,
         repo_indexing_stage := Some ''cloning'', repo_indexing_error_code := None,
         repo_indexing_error_message := None\<rparr>) (db_repositories db)"
    and "db_deliveries db' = update_where (\<lambda>d. dlv_indexing_job_id d = Some job)
      (\<lambda>d. d\<lparr>dlv_status := W_PROCESSING\<rparr>) (db_deliveries db)"
    and "db_builds db' = db_builds db" and "db_symbols db' = db_symbols db" and "db_edges db' = db_edges db"
  using assms
  by (auto simp: claim_def Let_def split: option.splits if_splits dest!: select_first_SomeD)

lemma claim_none: "claim now job w db = (None, db') \<Longrightarrow> db' = db"
  by (auto simp: claim_def Let_def split: option.splits if_splits)

lemma update_where_claim:
  assumes "jobs_inv S js" and "j \<in> set js" and "job_id j = job" and "claimable now j"
  shows "update_where (\<lambda>x. job_id x = job \<and> claimable now x) f js
    = update_where (\<lambda>x. job_id x = job_id j) f js"
  using assms by (intro update_where_key_cong) (auto simp: jobs_inv_def)

lemma claim_jobs_inv:
  assumes inv: "jobs_inv S (db_jobs db)" and pos: "0 < st_max_attempts S"
    and c: "claim now job w db = (Some c, db')"
  shows "jobs_inv S (db_jobs db')"
  using c
proof (rule claim_rowD)
  fix j assume j: "j \<in> set (db_jobs db)" "job_id j = job" "claimable now j"
    and jobs: "db_jobs db' = update_where (\<lambda>x. job_id x = job \<and> claimable now x)
      (\<lambda>j. j\<lparr>job_status := RUNNING, job_attempt := job_attempt j + 1, job_locked_by := Some w,
         job_started_at := Some now, job_heartbeat_at := Some now, job_next_attempt_at := None,
         job_error_code := None, job_safe_error_message := None\<rparr>) (db_jobs db)"
    and one: "one_running_ok (job_repository_id j) (db_jobs db')"
  have shape: "job_shape S j" using inv j(1) by (simp add: jobs_inv_def)
  note u = update_where_claim [OF inv j]
  show ?thesis
    unfolding jobs u
  proof (rule jobs_inv_update [OF inv j(1)])
    show "job_shape S (j\<lparr>job_status := RUNNING, job_attempt := job_attempt j + 1,
         job_locked_by := Some w, job_started_at := Some now, job_heartbeat_at := Some now,
         job_next_attempt_at := None, job_error_code := None, job_safe_error_message := None\<rparr>)"
      using shape j(3) pos by (auto simp: job_shape_def claimable_def)
  qed (use one [unfolded jobs u] in simp_all)
qed

lemma mark_stale_jobs_inv:
  assumes "jobs_inv S (db_jobs db)"
  shows "jobs_inv S (db_jobs (mark_stale now c w code superseded db))"
proof (cases "owned_job c w db")
  case (Some j)
  show ?thesis
    using jobs_inv_release [OF assms owned_jobD(1,4) [OF Some]]
    by (simp add: mark_stale_def Some Let_def)
qed (use assms in \<open>simp add: mark_stale_def\<close>)

lemma cancel_revoked_jobs_inv:
  assumes "jobs_inv S (db_jobs db)"
  shows "jobs_inv S (db_jobs (cancel_revoked now c w db))"
proof (cases "owned_job c w db")
  case (Some j)
  show ?thesis
    using jobs_inv_release [OF assms owned_jobD(1,4) [OF Some]]
    by (simp add: cancel_revoked_def Some Let_def update_owned [OF assms Some])
qed (use assms in \<open>simp add: cancel_revoked_def\<close>)

text \<open>The attempt of the claim is that of the row while the lock is held.\<close>

lemma fail_jobs_inv:
  assumes "jobs_inv S (db_jobs db)"
    and "\<And>j. owned_job c w db = Some j \<Longrightarrow> job_attempt j = cl_attempt c"
  shows "jobs_inv S (db_jobs (snd (fail S now rnd c w code msg retryable db)))"
proof (cases "owned_job c w db")
  case (Some j)
  show ?thesis
    using jobs_inv_release [OF assms(1) owned_jobD(1,4) [OF Some]] assms(2) [OF Some]
    by (simp add: fail_def Some Let_def update_owned [OF assms(1) Some] should_retry_def)
qed (use assms in \<open>simp add: fail_def Let_def\<close>)

lemma activate_rowD:
  assumes "activate now c w sha db = Inr (previous, db')"
  obtains job r b where "owned_job c w db = Some job"
    and "repository_by_id (job_repository_id job) db = Some r"
    and "previous = repo_index_version r"
    and "job_target_index_version job = Some (repo_index_version r + 1)"
    and "job_refresh_generation job = repo_refresh_generation r" and "same_branch job r"
    and "select_first (activatable c (repo_id r) (repo_index_version r + 1) sha) (db_builds db) = Some b"
    and "0 < repo_index_version r \<Longrightarrow> repo_active_vector_count r \<noteq> 0 \<Longrightarrow>
      select_first (active_at (repo_id r) (repo_index_version r)) (db_builds db) \<noteq> None"
    and "db_jobs db' = update_where (\<lambda>j. job_id j = job_id job)
      (\<lambda>j. j\<lparr>job_status := COMPLETE, job_progress := 100, job_stage := Some ''complete'',
         job_target_commit_sha := Some sha, job_heartbeat_at := Some now,
         job_completed_at := Some now, job_locked_by := None\<rparr>) (db_jobs db)"
    and "db_repositories db' = update_where (\<lambda>x. repo_id x = repo_id r)
      (activated_repository now (repo_index_version r + 1) sha (bld_vector_count b)
        (first_delivery (job_id job) db \<noteq> None)) (db_repositories db)"
    and "db_builds db' = update_where (build_at (repo_id r) (repo_index_version r + 1))
      (\<lambda>b. b\<lparr>bld_state := ACTIVE, bld_cleanup_status := NOT_REQUIRED, bld_activated_at := Some now\<rparr>)
      (db_builds (supersede_previous (repo_id r) (repo_index_version r) db))"
    and "one_active_ok (repo_id r) (db_builds db')" and "list_all build_checks (db_builds db')"
    and "db_symbols db' = db_symbols db" and "db_edges db' = db_edges db"
  using assms
  by (auto simp: activate_def owned_job_repository_def Let_def supersede_previous_def
      split: option.splits if_splits)

lemma activate_jobs_inv:
  assumes "jobs_inv S (db_jobs db)" and "activate now c w sha db = Inr (previous, db')"
  shows "jobs_inv S (db_jobs db')"
  using assms(2)
proof (rule activate_rowD)
  fix job assume job: "owned_job c w db = Some job"
    and jobs: "db_jobs db' = update_where (\<lambda>j. job_id j = job_id job)
      (\<lambda>j. j\<lparr>job_status := COMPLETE, job_progress := 100, job_stage := Some ''complete'',
         job_target_commit_sha := Some sha, job_heartbeat_at := Some now,
         job_completed_at := Some now, job_locked_by := None\<rparr>) (db_jobs db)"
  show ?thesis
    unfolding jobs using jobs_inv_release [OF assms(1) owned_jobD(1,4) [OF job]] by simp
qed

section \<open>Recovery\<close>

lemma recover_job_jobs:
  "db_jobs (recover_job S now job db) = update_where (\<lambda>j. job_id j = job_id job)
     (\<lambda>j. j\<lparr>job_status := (if job_attempt job < st_max_attempts S then RETRYING else FAILED),
        job_next_attempt_at := (if job_attempt job < st_max_attempts S then Some now else None),
        job_locked_by := None, job_error_code := Some ''worker_abandoned'',
        job_safe_error_message := Some ''Worker stopped before the job completed'',
        job_stage := Some (if job_attempt job < st_max_attempts S then ''retry_wait'' else ''failed''),
        job_completed_at := (if job_attempt job < st_max_attempts S then job_completed_at j else Some now)\<rparr>)
     (db_jobs db)"
  by (simp add: recover_job_def Let_def)

lemma recover_job_inv:
  assumes "jobs_inv S (db_jobs db)" and "job \<in> set (db_jobs db)" and "job_status job = RUNNING"
  shows "jobs_inv S (db_jobs (recover_job S now job db))"
  unfolding recover_job_jobs using jobs_inv_release [OF assms] by simp

text \<open>The jobs still to be recovered are untouched by a round, since ids are distinct.\<close>

lemma recover_fold:
  assumes "jobs_inv S (db_jobs db)" and "distinct (map job_id js)"
    and "\<forall>j \<in> set js. j \<in> set (db_jobs db) \<and> job_status j = RUNNING"
    and keep: "\<And>db job. Q db \<Longrightarrow> jobs_inv S (db_jobs db) \<Longrightarrow> job \<in> set (db_jobs db) \<Longrightarrow>
      job_status job = RUNNING \<Longrightarrow> Q (recover_job S now job db)"
    and "Q db"
  shows "jobs_inv S (db_jobs (fold (recover_job S now) js db)) \<and> Q (fold (recover_job S now) js db)"
  using assms(1-3,5)
proof (induction js arbitrary: db)
  case (Cons j js)
  let ?db = "recover_job S now j db"
  have j: "j \<in> set (db_jobs db)" "job_status j = RUNNING" using Cons.prems(3) by simp_all
  have "x \<in> set (db_jobs ?db)" if "x \<in> set js" for x
  proof -
    have "x \<in> set (db_jobs db)" "job_id x \<noteq> job_id j"
      using Cons.prems(2,3) that by (auto simp: image_iff)
    then show ?thesis by (force simp: recover_job_jobs set_update_where)
  qed
  then show ?case
    using Cons.IH [of ?db] recover_job_inv [OF Cons.prems(1) j] Cons.prems(2,3)
      keep [OF Cons.prems(4,1) j] by simp
qed simp

lemma recover_abandoned_induct:
  assumes "jobs_inv S (db_jobs db)" and "Q db"
    and "\<And>db job. Q db \<Longrightarrow> jobs_inv S (db_jobs db) \<Longrightarrow> job \<in> set (db_jobs db) \<Longrightarrow>
      job_status job = RUNNING \<Longrightarrow> Q (recover_job S now job db)"
  shows "jobs_inv S (db_jobs (snd (recover_abandoned S now db))) \<and> Q (snd (recover_abandoned S now db))"
proof -
  have "distinct (map job_id (filter P (db_jobs db)))" for P
    using assms(1) by (simp add: jobs_inv_def distinct_map_filter)
  then show ?thesis
    unfolding recover_abandoned_def Let_def snd_conv
    by (intro recover_fold) (use assms in \<open>auto simp: abandoned_def\<close>)
qed

end
