(* ===== verification/IndexInvariant.thy ===== *)
theory IndexInvariant
  imports JobInvariant
begin

text \<open>
  The published index. \<open>index_inv\<close> relates the repositories to their builds: an active build is the
  one of the repository's index version, with the vector count and the commit the repository
  reports, complete and validated, and every published version has one. Only activation publishes.
\<close>

section \<open>The invariant\<close>

definition build_key :: "index_build \<Rightarrow> uuid \<times> nat" where
  "build_key b = (bld_repository_id b, bld_index_version b)"

definition build_ok :: "index_build \<Rightarrow> bool" where
  "build_ok b \<longleftrightarrow> build_checks b \<and> 1 \<le> bld_index_version b
     \<and> (bld_state b = READY \<or> bld_state b = ACTIVE \<longrightarrow> build_complete b)"

definition repo_core where
  "repo_core r = (repo_id r, repo_index_version r, repo_active_vector_count r, repo_last_indexed_commit_sha r)"

definition published :: "index_build \<Rightarrow> uuid \<times> nat \<times> nat \<times> string option \<Rightarrow> bool" where
  "published b c \<longleftrightarrow> c = (bld_repository_id b, bld_index_version b, bld_vector_count b, Some (bld_commit_sha b))"

definition index_inv :: "repository list \<Rightarrow> index_build list \<Rightarrow> bool" where
  "index_inv rs bs \<longleftrightarrow> distinct (map repo_id rs) \<and> distinct (map build_key bs)
     \<and> (\<forall>b \<in> set bs. build_ok b)
     \<and> (\<forall>b \<in> set bs. \<exists>r \<in> set rs. repo_id r = bld_repository_id b
          \<and> bld_index_version b \<le> repo_index_version r + 1)
     \<and> (\<forall>b \<in> set bs. bld_state b = ACTIVE \<longrightarrow> (\<exists>r \<in> set rs. published b (repo_core r)))
     \<and> (\<forall>r \<in> set rs. 0 < repo_index_version r \<longrightarrow>
          (\<exists>b \<in> set bs. active_at (repo_id r) (repo_index_version r) b))"

lemma index_inv_cong:
  assumes "map repo_core rs = map repo_core rs'"
  shows "index_inv rs bs = index_inv rs' bs"
proof -
  have id: "map repo_id xs = map fst (map repo_core xs)" for xs
    by (simp add: repo_core_def)
  have a: "(\<forall>b \<in> set bs. \<exists>r \<in> set xs. repo_id r = bld_repository_id b \<and> bld_index_version b \<le> repo_index_version r + 1)
      = (\<forall>b \<in> set bs. \<exists>c \<in> set (map repo_core xs). fst c = bld_repository_id b
          \<and> bld_index_version b \<le> fst (snd c) + 1)" for xs
    by (simp add: repo_core_def)
  have b: "(\<forall>b \<in> set bs. bld_state b = ACTIVE \<longrightarrow> (\<exists>r \<in> set xs. published b (repo_core r)))
      = (\<forall>b \<in> set bs. bld_state b = ACTIVE \<longrightarrow> (\<exists>c \<in> set (map repo_core xs). published b c))" for xs
    by simp
  have c: "(\<forall>r \<in> set xs. 0 < repo_index_version r \<longrightarrow>
          (\<exists>b \<in> set bs. active_at (repo_id r) (repo_index_version r) b))
      = (\<forall>c \<in> set (map repo_core xs). 0 < fst (snd c) \<longrightarrow>
          (\<exists>b \<in> set bs. active_at (fst c) (fst (snd c)) b))" for xs
    by (simp add: repo_core_def)
  show ?thesis unfolding index_inv_def id a b c assms ..
qed

lemma index_inv_frame:
  assumes "\<And>r. P r \<Longrightarrow> repo_core (f r) = repo_core r"
  shows "index_inv (update_where P f rs) bs = index_inv rs bs"
  by (rule index_inv_cong) (simp add: map_update_where assms)

lemma index_inv_repo_unique:
  "index_inv rs bs \<Longrightarrow> r \<in> set rs \<Longrightarrow> r' \<in> set rs \<Longrightarrow> repo_id r = repo_id r' \<Longrightarrow> r = r'"
  unfolding index_inv_def by (blast intro: distinct_key_unique)

lemma index_inv_build_unique:
  "index_inv rs bs \<Longrightarrow> b \<in> set bs \<Longrightarrow> b' \<in> set bs \<Longrightarrow> build_key b = build_key b' \<Longrightarrow> b = b'"
  unfolding index_inv_def by (blast intro: distinct_key_unique)

text \<open>The active build of a repository is at its index version.\<close>

lemma index_inv_active:
  assumes "index_inv rs bs" and "b \<in> set bs" and "bld_state b = ACTIVE" and "r \<in> set rs"
    and "repo_id r = bld_repository_id b"
  shows "bld_index_version b = repo_index_version r" and "bld_vector_count b = repo_active_vector_count r"
    and "repo_last_indexed_commit_sha r = Some (bld_commit_sha b)"
proof -
  from assms obtain r' where r': "r' \<in> set rs" "published b (repo_core r')"
    unfolding index_inv_def by blast
  then have "repo_id r' = repo_id r" using assms(5) by (simp add: published_def repo_core_def)
  with index_inv_repo_unique [OF assms(1) r'(1) assms(4)] have "r' = r" by simp
  with r' show "bld_index_version b = repo_index_version r" and "bld_vector_count b = repo_active_vector_count r"
    and "repo_last_indexed_commit_sha r = Some (bld_commit_sha b)"
    by (simp_all add: published_def repo_core_def)
qed

lemma index_inv_one_active:
  assumes "index_inv rs bs"
  shows "one_active_ok repo bs"
proof -
  have "distinct (active_of repo bs)"
    using assms by (simp add: active_of_def index_inv_def distinct_map)
  moreover have "x = y" if "x \<in> set (active_of repo bs)" "y \<in> set (active_of repo bs)" for x y
  proof -
    from that have x: "x \<in> set bs" "bld_state x = ACTIVE" "bld_repository_id x = repo"
      and y: "y \<in> set bs" "bld_state y = ACTIVE" "bld_repository_id y = repo"
      by (simp_all add: active_of_def)
    from assms x(1) obtain r where r: "r \<in> set rs" "repo_id r = bld_repository_id x"
      unfolding index_inv_def by blast
    have "bld_index_version x = bld_index_version y"
      using index_inv_active(1) [OF assms x(1,2) r] index_inv_active(1) [OF assms y(1,2) r(1)] r(2) x(3) y(3)
      by simp
    with x y index_inv_build_unique [OF assms x(1) y(1)] show ?thesis
      by (simp add: build_key_def)
  qed
  ultimately show ?thesis
    unfolding one_active_ok_def by (subst length_le_one_iff) blast+
qed

section \<open>Changes to builds that are not active\<close>

lemma index_inv_update_builds:
  assumes inv: "index_inv rs bs"
    and P: "\<And>b. b \<in> set bs \<Longrightarrow> P b \<Longrightarrow> bld_state b \<noteq> ACTIVE \<and> bld_state (f b) \<noteq> ACTIVE
      \<and> build_key (f b) = build_key b \<and> build_ok (f b)"
  shows "index_inv rs (update_where P f bs)"
proof -
  let ?bs = "update_where P f bs"
  have keys: "map build_key ?bs = map build_key bs"
    by (rule map_update_where) (use P in blast)
  have cases: "x \<in> set ?bs \<Longrightarrow> x \<in> set bs \<and> \<not> P x \<or> (\<exists>b \<in> set bs. P b \<and> x = f b)" for x
    by (auto simp: set_update_where)
  have active: "b \<in> set ?bs \<Longrightarrow> bld_state b = ACTIVE \<Longrightarrow> b \<in> set bs" for b
    using cases [of b] P by blast
  have keep: "b \<in> set bs \<Longrightarrow> bld_state b = ACTIVE \<Longrightarrow> b \<in> set ?bs" for b
    using P by (force simp: set_update_where)
  have ok: "\<forall>b \<in> set ?bs. build_ok b"
    using cases P inv unfolding index_inv_def by blast
  have within: "\<exists>r \<in> set rs. repo_id r = bld_repository_id x \<and> bld_index_version x \<le> repo_index_version r + 1"
    if "x \<in> set ?bs" for x
  proof -
    from cases [OF that] P obtain b where "b \<in> set bs" "build_key x = build_key b" by metis
    with inv show ?thesis unfolding index_inv_def build_key_def by force
  qed
  have "\<exists>b \<in> set ?bs. active_at (repo_id r) (repo_index_version r) b"
    if r: "r \<in> set rs" "0 < repo_index_version r" for r
  proof -
    from inv r obtain b where "b \<in> set bs" "active_at (repo_id r) (repo_index_version r) b"
      unfolding index_inv_def by blast
    with keep [of b] show ?thesis unfolding active_at_def by blast
  qed
  then show ?thesis
    using inv ok within active unfolding index_inv_def keys by blast
qed

lemma index_inv_append_build:
  assumes "index_inv rs bs" and "build_key b \<notin> build_key ` set bs" and "build_ok b"
    and "bld_state b \<noteq> ACTIVE" and "r \<in> set rs" and "repo_id r = bld_repository_id b"
    and "bld_index_version b \<le> repo_index_version r + 1"
  shows "index_inv rs (bs @ [b])"
  using assms unfolding index_inv_def by (auto 0 3)

lemma index_inv_append_repo:
  assumes "index_inv rs bs" and "repo_id r \<notin> repo_id ` set rs" and "repo_index_version r = 0"
  shows "index_inv (rs @ [r]) bs"
  using assms unfolding index_inv_def by (auto 0 3)

lemma index_inv_append_repos:
  assumes "index_inv rs bs" and "distinct (map repo_id (rs @ new))"
    and "\<forall>r \<in> set new. repo_index_version r = 0"
  shows "index_inv (rs @ new) bs"
  using assms(2,3)
proof (induction new rule: rev_induct)
  case (snoc r new)
  then have "index_inv (rs @ new) bs" by simp
  from index_inv_append_repo [OF this, of r] snoc.prems show ?case by (auto simp: image_iff)
qed (use assms(1) in simp)

section \<open>The operations\<close>

lemma repo_frame_simps [simp]:
  "map repo_core (db_repositories (heartbeat now c w db)) = map repo_core (db_repositories db)"
  "map repo_core (db_repositories (record_freshness_plan c w m fb cc n db)) = map repo_core (db_repositories db)"
  "map repo_core (db_repositories (stage now c w st nm pr sha db)) = map repo_core (db_repositories db)"
  "map repo_core (db_repositories (mark_stale now c w code superseded db)) = map repo_core (db_repositories db)"
  "map repo_core (db_repositories (cancel_revoked now c w db)) = map repo_core (db_repositories db)"
  "map repo_core (db_repositories (snd (fail S now rnd c w code msg retryable db))) = map repo_core (db_repositories db)"
  "map repo_core (db_repositories (recover_job S now job db)) = map repo_core (db_repositories db)"
  "map repo_core (db_repositories (mark_enqueued now jid db)) = map repo_core (db_repositories db)"
  "map repo_core (db_repositories (enqueued now jid db)) = map repo_core (db_repositories db)"
  "map repo_core (db_repositories (revoke_public_access now repo db)) = map repo_core (db_repositories db)"
  "map repo_core (db_repositories (snd (authorized_context S now c db))) = map repo_core (db_repositories db)"
  by (auto simp: heartbeat_def record_freshness_plan_def stage_def mark_stale_def cancel_revoked_def fail_def
      recover_job_def mark_enqueued_def enqueued_def revoke_public_access_def authorized_context_def Let_def
      repo_core_def map_update_where split: option.splits)

lemma build_frame_simps [simp]:
  "db_builds (heartbeat now c w db) = db_builds db"
  "db_builds (record_freshness_plan c w m fb cc n db) = db_builds db"
  "db_builds (stage now c w st nm pr sha db) = db_builds db"
  "db_builds (mark_stale now c w code superseded db) = db_builds db"
  "db_builds (cancel_revoked now c w db) = db_builds db"
  "db_builds (snd (fail S now rnd c w code msg retryable db)) = db_builds db"
  "db_builds (recover_job S now job db) = db_builds db"
  "db_builds (mark_enqueued now jid db) = db_builds db"
  "db_builds (enqueued now jid db) = db_builds db"
  "db_builds (revoke_public_access now repo db) = db_builds db"
  "db_builds (snd (authorized_context S now c db)) = db_builds db"
  by (auto simp: heartbeat_def record_freshness_plan_def stage_def mark_stale_def cancel_revoked_def fail_def
      recover_job_def mark_enqueued_def enqueued_def revoke_public_access_def authorized_context_def Let_def
      split: option.splits)

definition db_index_inv :: "db \<Rightarrow> bool" where
  "db_index_inv db \<longleftrightarrow> index_inv (db_repositories db) (db_builds db)"

lemma db_index_frame:
  "map repo_core (db_repositories db') = map repo_core (db_repositories db) \<Longrightarrow> db_builds db' = db_builds db \<Longrightarrow>
   db_index_inv db' = db_index_inv db"
  unfolding db_index_inv_def by (metis index_inv_cong)

lemma claim_index_inv:
  "claim now job w db = (c, db') \<Longrightarrow> db_index_inv db' = db_index_inv db"
  by (cases c) (auto dest: claim_none elim!: claim_rowD intro!: db_index_frame
      simp: map_update_where repo_core_def)

lemma validate_index_inv:
  assumes "db_index_inv db" and "validate_graph D col c w db = Inr db'"
  shows "db_index_inv db'"
proof -
  from assms(2) obtain ver where
    b: "db_builds db' = update_where (building_of c ver) (\<lambda>b. b\<lparr>bld_graph_validated := True\<rparr>) (db_builds db)"
    and r: "db_repositories db' = db_repositories db"
    by (auto simp: validate_graph_def Let_def split: option.splits if_splits)
  from assms(1) show ?thesis
    unfolding db_index_inv_def b r
    by (rule index_inv_update_builds)
      (use assms(1) in \<open>auto simp: db_index_inv_def index_inv_def building_of_def build_key_def build_ok_def build_checks_def\<close>)
qed

lemma vectors_index_inv:
  assumes "db_index_inv db" and "record_vector_counts c w e v r q db = Inr db'"
  shows "db_index_inv db'"
proof -
  from assms(2) obtain ver where
    b: "db_builds db' = update_where (building_of c ver)
      (\<lambda>b. b\<lparr>bld_embedded_chunk_count := e, bld_vector_count := v\<rparr>) (db_builds db)"
    and r: "db_repositories db' = db_repositories db"
    by (auto simp: record_vector_counts_def split: option.splits)
  from assms(1) show ?thesis
    unfolding db_index_inv_def b r
    by (rule index_inv_update_builds)
      (use assms(1) in \<open>auto simp: db_index_inv_def index_inv_def building_of_def build_key_def build_ok_def build_checks_def\<close>)
qed

lemma ready_index_inv:
  assumes "db_index_inv db" and "mark_build_ready c w db = Inr db'"
  shows "db_index_inv db'"
proof -
  from assms(2) obtain ver where
    b: "db_builds db' = update_where (\<lambda>b. building_of c ver b \<and> build_complete b)
      (\<lambda>b. b\<lparr>bld_state := READY\<rparr>) (db_builds db)"
    and checks: "list_all build_checks (db_builds db')" and r: "db_repositories db' = db_repositories db"
    by (auto simp: mark_build_ready_def Let_def split: option.splits if_splits)
  have ok: "build_checks (b\<lparr>bld_state := READY\<rparr>)"
    if "b \<in> set (db_builds db)" "building_of c ver b \<and> build_complete b" for b
    using checks that unfolding b by (force simp: list_all_iff set_update_where)
  from assms(1) show ?thesis
    unfolding db_index_inv_def b r
    by (rule index_inv_update_builds)
      (use assms(1) ok in \<open>auto simp: db_index_inv_def index_inv_def building_of_def build_key_def build_ok_def
        build_complete_def\<close>)
qed

lemma failed_cleanup_index_inv:
  assumes "db_index_inv db"
  shows "db_index_inv (record_failed_build_cleanup now repo ver ok db)"
proof (cases "select_first (\<lambda>b. build_at repo ver b \<and> bld_state b \<noteq> ACTIVE) (db_builds db)")
  case (Some b0)
  have "index_inv (db_repositories db) (update_where (\<lambda>b. build_at repo ver b \<and> bld_state b \<noteq> ACTIVE)
      (\<lambda>b. b\<lparr>bld_state := B_FAILED, bld_cleanup_status := (if ok then CLEANED else PENDING),
         bld_cleanup_completed_at := (if ok then Some now else None)\<rparr>) (db_builds db))"
    using assms [unfolded db_index_inv_def]
    by (rule index_inv_update_builds)
      (use assms in \<open>auto simp: db_index_inv_def index_inv_def build_key_def build_ok_def build_checks_def\<close>)
  then show ?thesis
    by (auto simp: record_failed_build_cleanup_def Some Let_def db_index_inv_def)
qed (use assms in \<open>simp add: record_failed_build_cleanup_def\<close>)

lemma superseded_cleanup_index_inv:
  assumes "db_index_inv db" and "complete_superseded_cleanup now repo ver db = Inr db'"
  shows "db_index_inv db'"
proof -
  from assms(2) have
    b: "db_builds db' = update_where
      (\<lambda>b. build_at repo ver b \<and> (bld_state b = B_SUPERSEDED \<or> bld_state b = B_FAILED))
      (\<lambda>b. b\<lparr>bld_cleanup_status := CLEANED, bld_cleanup_completed_at := Some now\<rparr>) (db_builds db)"
    and r: "db_repositories db' = db_repositories db"
    by (auto simp: complete_superseded_cleanup_def split: option.splits if_splits)
  from assms(1) show ?thesis
    unfolding db_index_inv_def b r
    by (rule index_inv_update_builds)
      (use assms(1) in \<open>auto simp: db_index_inv_def index_inv_def build_key_def build_ok_def build_checks_def\<close>)
qed

lemma delete_version_store_build [simp]:
  "db_edges (delete_version_symbols repo ver (store_build S c repo' sha p fp db))
    = db_edges (delete_version_symbols repo ver db)"
  by (simp add: delete_version_symbols_def Let_def)

lemma prepare_buildD:
  assumes "prepare_build D S c w sha d p fp db = Inr db'"
  obtains job r where "owned_job c w db = Some job"
    and "repository_by_id (job_repository_id job) db = Some r"
    and "job_target_index_version job = Some (pr_index_version p)"
    and "pr_index_version p = repo_index_version r + 1"
    and "pr_repository_id p = cl_repository_id c" and "pr_commit_sha p = sha"
    and "\<not> build_taken c (repo_id r) (pr_index_version p) db"
    and "db_builds db' = db_builds (store_build S c (repo_id r) sha p fp db)"
    and "db_repositories db' = update_where (\<lambda>x. repo_id x = repo_id r)
      (\<lambda>r. r\<lparr>repo_current_remote_sha := Some sha, repo_size_bytes := Some (dr_total_bytes d)\<rparr>)
      (db_repositories db)"
    and "db_symbols db' = delete_where (\<lambda>s. sd_repository_id s = repo_id r \<and> sd_index_version s = pr_index_version p)
      (db_symbols db) @ symbol_rows D (repo_id r) p"
    and "db_edges db' = db_edges (delete_version_symbols (repo_id r) (pr_index_version p) db) @ edge_rows (repo_id r) p"
    and "db_deliveries db' = db_deliveries db"
    and "edge_keys_ok (db_edges db')" and "list_all (edge_refs_ok (db_symbols db')) (edge_rows (repo_id r) p)"
proof -
  obtain job r where o: "owned_job_repository c w db = Some (job, r)"
    using assms by (auto simp: prepare_build_def split: option.splits if_splits)
  then have j: "owned_job c w db = Some job" "repository_by_id (job_repository_id job) db = Some r"
    by (auto simp: owned_job_repository_def split: option.splits)
  show ?thesis
    by (rule that [OF j]) (use assms o in \<open>simp_all add: prepare_build_def Let_def split: if_splits\<close>,
      auto)
qed

lemma repository_by_idD:
  "repository_by_id x db = Some r \<Longrightarrow> r \<in> set (db_repositories db) \<and> repo_id r = x"
  by (auto simp: repository_by_id_def dest: select_first_SomeD)

lemma prepare_index_inv:
  assumes inv: "db_index_inv db" and "prepare_build D S c w sha d p fp db = Inr db'"
  shows "db_index_inv db'"
  using assms(2)
proof (rule prepare_buildD)
  fix job r assume r0: "repository_by_id (job_repository_id job) db = Some r"
    and ver: "pr_index_version p = repo_index_version r + 1"
    and b: "db_builds db' = db_builds (store_build S c (repo_id r) sha p fp db)"
    and rs: "db_repositories db' = update_where (\<lambda>x. repo_id x = repo_id r)
      (\<lambda>r. r\<lparr>repo_current_remote_sha := Some sha, repo_size_bytes := Some (dr_total_bytes d)\<rparr>)
      (db_repositories db)"
  note r = repository_by_idD [OF r0]
  note i = inv [unfolded db_index_inv_def]
  have inactive: "bld_state b \<noteq> ACTIVE"
    if "b \<in> set (db_builds db)" "build_at (repo_id r) (pr_index_version p) b" for b
    using index_inv_active(1) [OF i that(1) _ conjunct1 [OF r]] that(2) ver by (auto simp: build_at_def)
  have "index_inv (db_repositories db) (db_builds db')"
  proof (cases "select_first (build_at (repo_id r) (pr_index_version p)) (db_builds db)")
    case None
    then have fresh: "\<forall>b \<in> set (db_builds db). \<not> build_at (repo_id r) (pr_index_version p) b"
      by (simp add: select_first_None)
    show ?thesis
      unfolding b using None fresh r ver
      by (simp add: store_build_def)
        (rule index_inv_append_build [OF i, where r = r],
          auto simp: new_build_def build_key_def build_at_def build_ok_def build_checks_def)
  next
    case (Some b0)
    show ?thesis
      unfolding b using Some
      by (simp add: store_build_def)
        (rule index_inv_update_builds [OF i],
          use inactive i in \<open>auto simp: reset_build_def build_key_def build_ok_def build_checks_def index_inv_def\<close>)
  qed
  then show ?thesis
    unfolding db_index_inv_def rs by (simp add: index_inv_frame repo_core_def)
qed

section \<open>Activation\<close>

lemma supersede_builds:
  assumes "index_inv rs (db_builds db)"
  shows "db_builds (supersede_previous repo v db) = update_where (active_at repo v)
    (\<lambda>b. b\<lparr>bld_state := B_SUPERSEDED, bld_cleanup_status := PENDING\<rparr>) (db_builds db)"
proof (cases "0 < v")
  case False
  have "\<forall>b \<in> set (db_builds db). \<not> active_at repo v b"
    using assms False by (auto simp: index_inv_def build_ok_def active_at_def build_at_def)
  then show ?thesis using False by (simp add: supersede_previous_def update_where_none)
qed (simp add: supersede_previous_def)

text \<open>After activation each build is one of three: the new one, the previous one, or as before.\<close>

lemma activate_index_inv:
  assumes inv: "db_index_inv db" and act: "activate now c w sha db = Inr (previous, db')"
  shows "db_index_inv db'"
  using act
proof (rule activate_rowD)
  fix job :: indexing_job and r :: repository and b0 :: index_build
  let ?v = "repo_index_version r" and ?repo = "repo_id r" and ?bs = "db_builds db" and ?bs' = "db_builds db'"
  let ?up = "\<lambda>b. b\<lparr>bld_state := ACTIVE, bld_cleanup_status := NOT_REQUIRED, bld_activated_at := Some now\<rparr>"
  let ?down = "\<lambda>b. b\<lparr>bld_state := B_SUPERSEDED, bld_cleanup_status := PENDING\<rparr>"
  assume r0: "repository_by_id (job_repository_id job) db = Some r"
    and b0: "select_first (activatable c ?repo (?v + 1) sha) ?bs = Some b0"
    and rs: "db_repositories db' = update_where (\<lambda>x. repo_id x = ?repo)
      (activated_repository now (?v + 1) sha (bld_vector_count b0)
        (first_delivery (job_id job) db \<noteq> None)) (db_repositories db)"
    and builds: "?bs' = update_where (build_at ?repo (?v + 1)) ?up (db_builds (supersede_previous ?repo ?v db))"
    and checks: "list_all build_checks ?bs'"
  note i = inv [unfolded db_index_inv_def]
  have r: "r \<in> set (db_repositories db)" using repository_by_idD [OF r0] by simp
  have target: "b0 \<in> set ?bs" "build_at ?repo (?v + 1) b0" "bld_commit_sha b0 = sha" "build_complete b0"
    "bld_state b0 = READY"
    using select_first_SomeD [OF b0] by (auto simp: activatable_def)
  have b0_only: "b = b0" if "b \<in> set ?bs" "build_at ?repo (?v + 1) b" for b
    using index_inv_build_unique [OF i that(1) target(1)] that(2) target(2)
    by (simp add: build_key_def build_at_def)
  have cases: "x = ?up b0 \<or> (\<exists>b \<in> set ?bs. active_at ?repo ?v b \<and> x = ?down b)
      \<or> x \<in> set ?bs \<and> \<not> active_at ?repo ?v x \<and> \<not> build_at ?repo (?v + 1) x" if "x \<in> set ?bs'" for x
    using that unfolding builds supersede_builds [OF i]
    by (auto simp: set_update_where active_at_def build_at_def dest: b0_only split: if_splits)
  have new: "?up b0 \<in> set ?bs'"
    unfolding builds supersede_builds [OF i] using target(1,2)
    by (force simp: set_update_where active_at_def build_at_def)
  have others: "b \<in> set ?bs'" if "b \<in> set ?bs" "bld_repository_id b \<noteq> ?repo" for b
    unfolding builds supersede_builds [OF i] using that
    by (force simp: set_update_where active_at_def build_at_def)
  have keys: "map build_key ?bs' = map build_key ?bs"
    unfolding builds supersede_builds [OF i] by (simp add: map_update_where build_key_def)
  have rids: "map repo_id (db_repositories db') = map repo_id (db_repositories db)"
    unfolding rs by (simp add: map_update_where activated_repository_def)
  let ?r' = "activated_repository now (?v + 1) sha (bld_vector_count b0) (first_delivery (job_id job) db \<noteq> None) r"
  have r': "?r' \<in> set (db_repositories db')" "repo_id ?r' = ?repo" "repo_index_version ?r' = ?v + 1"
    unfolding rs using r by (auto simp: set_update_where activated_repository_def)
  have repo_cases: "x = ?r' \<or> x \<in> set (db_repositories db) \<and> repo_id x \<noteq> ?repo"
    if "x \<in> set (db_repositories db')" for x
    using that index_inv_repo_unique [OF i _ r] unfolding rs by (auto simp: set_update_where)
  have repo_keep: "x \<in> set (db_repositories db')" if "x \<in> set (db_repositories db)" "repo_id x \<noteq> ?repo" for x
    using that unfolding rs by (auto simp: set_update_where)
  have ok: "build_ok x" if x: "x \<in> set ?bs'" for x
  proof -
    have "build_checks x" using checks x by (simp add: list_all_iff)
    moreover have "build_ok b" if "b \<in> set ?bs" for b using i that by (simp add: index_inv_def)
    ultimately show ?thesis
      using cases [OF x] target by (auto simp: build_ok_def build_complete_def)
  qed
  have host: "\<exists>y \<in> set (db_repositories db'). repo_id y = bld_repository_id x
      \<and> bld_index_version x \<le> repo_index_version y + 1" if x: "x \<in> set ?bs'" for x
  proof -
    from cases [OF x] target(1) obtain b where b: "b \<in> set ?bs" "build_key x = build_key b"
      by (auto simp: build_key_def)
    from i b(1) obtain y where y: "y \<in> set (db_repositories db)" "repo_id y = bld_repository_id b"
      "bld_index_version b \<le> repo_index_version y + 1"
      unfolding index_inv_def by blast
    show ?thesis
    proof (cases "repo_id y = ?repo")
      case True
      with index_inv_repo_unique [OF i y(1) r] y b(2) r' show ?thesis
        by (intro bexI [of _ ?r']) (auto simp: build_key_def)
    next
      case False
      with repo_keep [OF y(1)] y b(2) show ?thesis by (auto simp: build_key_def)
    qed
  qed
  have pub: "\<exists>y \<in> set (db_repositories db'). published x (repo_core y)"
    if x: "x \<in> set ?bs'" "bld_state x = ACTIVE" for x
    using cases [OF x(1)]
  proof (elim disjE)
    assume "x = ?up b0"
    with target show ?thesis
      by (intro bexI [OF _ r'(1)])
        (simp add: published_def repo_core_def activated_repository_def build_at_def)
  next
    assume "x \<in> set ?bs \<and> \<not> active_at ?repo ?v x \<and> \<not> build_at ?repo (?v + 1) x"
    then have xb: "x \<in> set ?bs" "\<not> active_at ?repo ?v x" by auto
    have "bld_repository_id x \<noteq> ?repo"
      using index_inv_active(1) [OF i xb(1) x(2) r] xb(2) x(2) by (auto simp: active_at_def build_at_def)
    moreover from i xb(1) x(2) obtain y where "y \<in> set (db_repositories db)" "published x (repo_core y)"
      unfolding index_inv_def by blast
    ultimately show ?thesis
      using repo_keep [of y] by (auto simp: published_def repo_core_def)
  qed (use x(2) in auto)
  have has: "\<exists>b \<in> set ?bs'. active_at (repo_id y) (repo_index_version y) b"
    if y: "y \<in> set (db_repositories db')" "0 < repo_index_version y" for y
    using repo_cases [OF y(1)]
  proof
    assume "y = ?r'"
    with new target(2) show ?thesis
      by (intro bexI [OF _ new]) (simp add: active_at_def build_at_def activated_repository_def)
  next
    assume y': "y \<in> set (db_repositories db) \<and> repo_id y \<noteq> ?repo"
    with i y(2) obtain b where "b \<in> set ?bs" "active_at (repo_id y) (repo_index_version y) b"
      unfolding index_inv_def by blast
    with y' others [of b] show ?thesis by (auto simp: active_at_def build_at_def)
  qed
  show ?thesis
    using i ok host pub has unfolding db_index_inv_def index_inv_def keys rids by blast
qed

end
