(* ===== verification/Intake.thy ===== *)
theory Intake
  imports IndexInvariant
begin

text \<open>
  What webhooks and users may do to the pipeline. Every operation of \<^theory_text>\<open>Webhooks\<close> and \<^theory_text>\<open>Access\<close>
  adds new repositories at version 0 and new queued jobs, and otherwise leaves the core of every
  repository and job, every build, symbol and edge as they are (\<open>intake\<close>).
\<close>

section \<open>The effect\<close>

definition fresh_job :: "indexing_job \<Rightarrow> bool" where
  "fresh_job j \<longleftrightarrow> job_status j = QUEUED \<and> job_attempt j = 0 \<and> job_locked_by j = None"

definition intake :: "db \<Rightarrow> db \<Rightarrow> bool" where
  "intake db db' \<longleftrightarrow>
     db_builds db' = db_builds db \<and> db_symbols db' = db_symbols db \<and> db_edges db' = db_edges db
     \<and> (\<exists>rs. map repo_core (db_repositories db') = map repo_core (db_repositories db @ rs)
          \<and> (\<forall>r \<in> set rs. repo_index_version r = 0)
          \<and> (distinct (map repo_id (db_repositories db)) \<longrightarrow> distinct (map repo_id (db_repositories db @ rs))))
     \<and> (\<exists>js. map job_core (db_jobs db') = map job_core (db_jobs db @ js)
          \<and> (\<forall>j \<in> set js. fresh_job j)
          \<and> (distinct (map job_id (db_jobs db)) \<longrightarrow> distinct (map job_id (db_jobs db @ js))))"

lemma repo_core_ids: "map repo_core rs = map repo_core rs' \<Longrightarrow> map repo_id rs = map repo_id rs'"
  by (drule arg_cong [where f = "map fst"]) (simp add: repo_core_def comp_def)

lemma job_core_ids: "map job_core js = map job_core js' \<Longrightarrow> map job_id js = map job_id js'"
  by (drule arg_cong [where f = "map fst"]) (simp add: job_core_def comp_def)

lemma intakeI:
  assumes "db_builds db' = db_builds db" and "db_symbols db' = db_symbols db" and "db_edges db' = db_edges db"
    and "map repo_core (db_repositories db') = map repo_core (db_repositories db)"
    and "map job_core (db_jobs db') = map job_core (db_jobs db)"
  shows "intake db db'"
  unfolding intake_def using assms by (intro conjI exI [of _ "[]"]) simp_all

lemma intake_refl [simp]: "intake db db"
  by (rule intakeI) simp_all

lemma intake_trans:
  assumes "intake db db'" and "intake db' db''"
  shows "intake db db''"
proof -
  from assms(1) obtain rs js where
    r: "map repo_core (db_repositories db') = map repo_core (db_repositories db @ rs)"
      "\<forall>r \<in> set rs. repo_index_version r = 0"
      "distinct (map repo_id (db_repositories db)) \<longrightarrow> distinct (map repo_id (db_repositories db @ rs))"
    and j: "map job_core (db_jobs db') = map job_core (db_jobs db @ js)" "\<forall>j \<in> set js. fresh_job j"
      "distinct (map job_id (db_jobs db)) \<longrightarrow> distinct (map job_id (db_jobs db @ js))"
    and same: "db_builds db' = db_builds db" "db_symbols db' = db_symbols db" "db_edges db' = db_edges db"
    unfolding intake_def by blast
  from assms(2) obtain rs' js' where
    r': "map repo_core (db_repositories db'') = map repo_core (db_repositories db' @ rs')"
      "\<forall>r \<in> set rs'. repo_index_version r = 0"
      "distinct (map repo_id (db_repositories db')) \<longrightarrow> distinct (map repo_id (db_repositories db' @ rs'))"
    and j': "map job_core (db_jobs db'') = map job_core (db_jobs db' @ js')" "\<forall>j \<in> set js'. fresh_job j"
      "distinct (map job_id (db_jobs db')) \<longrightarrow> distinct (map job_id (db_jobs db' @ js'))"
    and same': "db_builds db'' = db_builds db'" "db_symbols db'' = db_symbols db'" "db_edges db'' = db_edges db'"
    unfolding intake_def by blast
  note ids = repo_core_ids [OF r(1)] job_core_ids [OF j(1)]
  show ?thesis
    unfolding intake_def
  proof (intro conjI)
    show "\<exists>rs. map repo_core (db_repositories db'') = map repo_core (db_repositories db @ rs)
          \<and> (\<forall>r \<in> set rs. repo_index_version r = 0)
          \<and> (distinct (map repo_id (db_repositories db)) \<longrightarrow> distinct (map repo_id (db_repositories db @ rs)))"
      using r r' ids(1) by (intro exI [of _ "rs @ rs'"]) auto
    show "\<exists>js. map job_core (db_jobs db'') = map job_core (db_jobs db @ js)
          \<and> (\<forall>j \<in> set js. fresh_job j)
          \<and> (distinct (map job_id (db_jobs db)) \<longrightarrow> distinct (map job_id (db_jobs db @ js)))"
      using j j' ids(2) by (intro exI [of _ "js @ js'"]) auto
  qed (simp_all add: same same')
qed

lemma intake_update_repositories:
  "(\<And>r. P r \<Longrightarrow> repo_core (f r) = repo_core r) \<Longrightarrow> intake db (update_repositories P f db)"
  by (rule intakeI) (simp_all add: map_update_where)

lemma intake_update_jobs:
  "(\<And>j. P j \<Longrightarrow> job_core (f j) = job_core j) \<Longrightarrow> intake db (update_jobs P f db)"
  by (rule intakeI) (simp_all add: map_update_where)

lemma intake_insert_job:
  assumes "job_id j \<notin> job_id ` set (db_jobs db)" and "fresh_job j"
  shows "intake db (insert_job j db)"
  unfolding intake_def using assms
  by (intro conjI exI [of _ "[]"] exI [of _ "[j]"]) (auto simp: insert_job_def)

lemma intake_insert_repository:
  assumes "repo_id r \<notin> repo_id ` set (db_repositories db)" and "repo_index_version r = 0"
  shows "intake db (db\<lparr>db_repositories := db_repositories db @ [r]\<rparr>)"
proof -
  have "\<exists>rs. map repo_core (db_repositories db @ [r]) = map repo_core (db_repositories db @ rs)
      \<and> (\<forall>r \<in> set rs. repo_index_version r = 0)
      \<and> (distinct (map repo_id (db_repositories db)) \<longrightarrow> distinct (map repo_id (db_repositories db @ rs)))"
    using assms by (intro exI [of _ "[r]"]) auto
  then show ?thesis
    unfolding intake_def by (auto intro!: exI [of _ "[]"])
qed

lemma fresh_queued_job [simp]:
  "fresh_job (queued_job jid now repo user type sha branch mode reason gen)"
  "job_id (queued_job jid now repo user type sha branch mode reason gen) = jid"
  by (simp_all add: fresh_job_def queued_job_def)

text \<open>A core is kept by every change of a row that does not name it.\<close>

lemma intake_insert_update:
  assumes "job_id j \<notin> job_id ` set (db_jobs db)" and "fresh_job j"
    and "\<And>r. P r \<Longrightarrow> repo_core (f r) = repo_core r"
  shows "intake db (update_repositories P f (insert_job j db))"
  by (rule intake_trans [OF intake_insert_job [OF assms(1,2)] intake_update_repositories [OF assms(3)]])

lemma intake_deliveries:
  "intake db db' \<Longrightarrow> intake db (update_deliveries P f db')"
  "intake db db' \<Longrightarrow> intake db (insert_delivery d db')"
  by (simp_all add: intake_def insert_delivery_def)

lemma intake_other_tables:
  "intake db db' \<Longrightarrow> intake db (db'\<lparr>db_installations := x\<rparr>)"
  "intake db db' \<Longrightarrow> intake db (db'\<lparr>db_members := y\<rparr>)"
  "intake db db' \<Longrightarrow> intake db (db'\<lparr>db_user_repositories := z\<rparr>)"
  by (simp_all add: intake_def)

section \<open>Invariants are kept\<close>

lemma intake_index_inv:
  assumes "intake db db'" and "db_index_inv db"
  shows "db_index_inv db'"
proof -
  from assms(1) obtain rs where
    r: "map repo_core (db_repositories db') = map repo_core (db_repositories db @ rs)"
      "\<forall>r \<in> set rs. repo_index_version r = 0"
      "distinct (map repo_id (db_repositories db)) \<longrightarrow> distinct (map repo_id (db_repositories db @ rs))"
    and b: "db_builds db' = db_builds db"
    unfolding intake_def by blast
  have "index_inv (db_repositories db @ rs) (db_builds db)"
    using assms(2) r(2,3) unfolding db_index_inv_def
    by (intro index_inv_append_repos) (auto simp: index_inv_def)
  then show ?thesis
    unfolding db_index_inv_def b using index_inv_cong [OF r(1)] by blast
qed

lemma jobs_inv_append:
  assumes "jobs_inv S js" and "distinct (map job_id (js @ new))" and "\<forall>j \<in> set new. fresh_job j"
  shows "jobs_inv S (js @ new)"
  using assms(2,3)
proof (induction new rule: rev_induct)
  case (snoc j new)
  then have "jobs_inv S (js @ new)" by simp
  from jobs_inv_insert [OF this, of j] snoc.prems show ?case by (auto simp: fresh_job_def image_iff)
qed (use assms(1) in simp)

lemma intake_jobs_inv:
  assumes "intake db db'" and "jobs_inv S (db_jobs db)"
  shows "jobs_inv S (db_jobs db')"
proof -
  from assms(1) obtain js where
    j: "map job_core (db_jobs db') = map job_core (db_jobs db @ js)" "\<forall>j \<in> set js. fresh_job j"
      "distinct (map job_id (db_jobs db)) \<longrightarrow> distinct (map job_id (db_jobs db @ js))"
    unfolding intake_def by blast
  have "jobs_inv S (db_jobs db @ js)"
    using assms(2) j(2,3) by (intro jobs_inv_append) (auto simp: jobs_inv_def)
  then show ?thesis using jobs_inv_cong [OF j(1)] by blast
qed

section \<open>Webhooks\<close>

definition fresh_ids_ok :: "fresh_ids \<Rightarrow> db \<Rightarrow> bool" where
  "fresh_ids_ok ids db \<longleftrightarrow>
     id_job ids \<notin> job_id ` set (db_jobs db) \<and> id_delivery ids \<notin> dlv_id ` set (db_deliveries db)
     \<and> inj (id_repositories ids)
     \<and> (\<forall>n. id_repositories ids n \<notin> repo_id ` set (db_repositories db))"

lemma apply_push_intake:
  assumes "apply_push now jid p d db = Inr (job, d', db')" and "jid \<notin> job_id ` set (db_jobs db)"
  shows "intake db db'"
  using assms
  by (auto simp: apply_push_def Let_def repo_core_def
      intro!: intake_update_repositories intake_insert_update
      split: option.splits prod.splits if_splits)

lemma apply_metadata_intake:
  assumes "apply_repository_metadata now jid p d db = (job, d', db')" and "jid \<notin> job_id ` set (db_jobs db)"
  shows "intake db db'"
proof -
  have ins: "intake db (insert_job j (update_repositories P f (update_repositories P' f' db)))"
    if "job_id j = jid" "fresh_job j" "\<And>r. repo_core (f r) = repo_core r" "\<And>r. repo_core (f' r) = repo_core r"
    for j P f P' f'
    using assms(2) that
    by (intro intake_trans [OF intake_trans [OF intake_update_repositories intake_update_repositories] intake_insert_job])
      simp_all
  from assms(1) show ?thesis
    by (auto simp: apply_repository_metadata_def Let_def repo_core_def
        intro!: intake_update_repositories ins split: option.splits prod.splits if_splits)
qed

lemma set_installation_intake: "intake db db' \<Longrightarrow> intake db (set_installation iid f db')"
  by (simp add: set_installation_def intake_other_tables)

lemma revoke_installation_intake: "intake db db' \<Longrightarrow> intake db (revoke_installation_repositories iid now db')"
  by (rule intake_trans) (auto simp: revoke_installation_repositories_def repo_core_def
      intro!: intake_update_repositories)

lemma upsert_installation_intake:
  "upsert_installation iid gi db = (i, db') \<Longrightarrow> intake db db' \<and> db_repositories db' = db_repositories db"
  by (auto simp: upsert_installation_def intro: intake_other_tables split: option.splits)

lemma add_creator_intake: "intake db db' \<Longrightarrow> intake db (add_creator now iid sender db')"
  by (auto simp: add_creator_def intro: intake_other_tables split: option.splits)

lemma apply_installation_intake: "intake db (apply_installation ids now p db)"
  by (auto simp: apply_installation_def Let_def split: option.splits prod.splits
      intro!: add_creator_intake set_installation_intake revoke_installation_intake
      dest!: upsert_installation_intake)

text \<open>The loop over added repositories: updates in the table, new rows in the pending list.\<close>

lemma grant_repositories_effect:
  assumes "grant_repositories rids n iid grs db pending = (db', pending')"
    and "\<forall>r \<in> set pending. repo_index_version r = 0"
    and "distinct (map repo_id pending)" and "inj rids"
    and "\<forall>r \<in> set pending. \<exists>k < n. repo_id r = rids k"
  shows "intake db db' \<and> map repo_id (db_repositories db') = map repo_id (db_repositories db)
    \<and> (\<forall>r \<in> set pending'. repo_index_version r = 0) \<and> distinct (map repo_id pending')
    \<and> (\<forall>r \<in> set pending'. \<exists>k. repo_id r = rids k)"
  using assms
proof (induction rids n iid grs db pending rule: grant_repositories.induct)
  case (2 rids n iid gr grs db pending)
  obtain db1 p1 where g: "grant_repository (rids n) iid gr db pending = (db1, p1)"
    by (cases "grant_repository (rids n) iid gr db pending")
  then have rest: "grant_repositories rids (n + 1) iid grs db1 p1 = (db', pending')"
    using 2(2) by simp
  have one: "intake db db1 \<and> map repo_id (db_repositories db1) = map repo_id (db_repositories db)
      \<and> (\<forall>r \<in> set p1. repo_index_version r = 0) \<and> distinct (map repo_id p1)
      \<and> (\<forall>r \<in> set p1. \<exists>k < n + 1. repo_id r = rids k)"
  proof (cases "select_first (\<lambda>r. repo_installation_id r = Some iid \<and> repo_github_repository_id r = gr_id gr)
      (db_repositories db)")
    case None
    have "rids n \<noteq> rids k" if "k < n" for k using 2(5) that by (auto dest: injD)
    with None g 2(3,4,6) show ?thesis
      by (auto simp: grant_repository_def new_repository_def less_Suc_eq) blast+
  next
    case (Some r)
    with g 2(3,4,6) show ?thesis
      by (auto simp: grant_repository_def repo_core_def map_update_where less_Suc_eq
          intro!: intake_update_repositories)
  qed
  from 2(1) [OF g [symmetric] refl rest] one 2(5) show ?case
    by (auto intro: intake_trans)
qed auto

lemma intake_append_repositories:
  assumes "\<forall>r \<in> set rs. repo_index_version r = 0" and "distinct (map repo_id rs)"
    and "\<forall>r \<in> set rs. repo_id r \<notin> repo_id ` set (db_repositories db)"
  shows "intake db (db\<lparr>db_repositories := db_repositories db @ rs\<rparr>)"
proof -
  have "\<exists>new. map repo_core (db_repositories db @ rs) = map repo_core (db_repositories db @ new)
      \<and> (\<forall>r \<in> set new. repo_index_version r = 0)
      \<and> (distinct (map repo_id (db_repositories db)) \<longrightarrow> distinct (map repo_id (db_repositories db @ new)))"
    using assms by (intro exI [of _ rs]) (auto, metis image_eqI)
  then show ?thesis
    unfolding intake_def by (auto intro!: exI [of _ "[]"])
qed

lemma apply_repository_access_intake:
  assumes "fresh_ids_ok ids db"
  shows "intake db (apply_repository_access ids now p db)"
proof (cases "wp_installation p")
  case (Some gi)
  obtain iid db1 where u: "upsert_installation (id_installation ids) gi db = (iid, db1)"
    by (cases "upsert_installation (id_installation ids) gi db")
  define db2 where "db2 = update_repositories (\<lambda>r. repo_installation_id r = Some iid
       \<and> repo_github_repository_id r \<in> set (wp_repositories_removed p))
     (\<lambda>r. r\<lparr>repo_access_revoked_at := Some now, repo_indexing_status := ACCESS_REVOKED\<rparr>) db1"
  obtain db3 pending where
    g: "grant_repositories (id_repositories ids) 0 iid (wp_repositories_added p) db2 [] = (db3, pending)"
    by (cases "grant_repositories (id_repositories ids) 0 iid (wp_repositories_added p) db2 []")
  have one: "intake db db2"
    unfolding db2_def using upsert_installation_intake [OF u]
    by (auto intro!: intake_trans [OF _ intake_update_repositories] simp: repo_core_def)
  have ids2: "map repo_id (db_repositories db2) = map repo_id (db_repositories db)"
    unfolding db2_def using upsert_installation_intake [OF u] by (simp add: map_update_where)
  have inj: "inj (id_repositories ids)" using assms by (simp add: fresh_ids_ok_def)
  from grant_repositories_effect [OF g _ _ inj]
  have two: "intake db2 db3" "map repo_id (db_repositories db3) = map repo_id (db_repositories db2)"
    and new: "\<forall>r \<in> set pending. repo_index_version r = 0" "distinct (map repo_id pending)"
      "\<forall>r \<in> set pending. \<exists>k. repo_id r = id_repositories ids k"
    by simp_all
  have "repo_id ` set (db_repositories db3) = repo_id ` set (db_repositories db)"
    using two(2) ids2 by (metis set_map)
  then have "intake db3 (db3\<lparr>db_repositories := db_repositories db3 @ pending\<rparr>)"
    using new assms by (intro intake_append_repositories) (auto simp: fresh_ids_ok_def, force)
  with one two(1) have "intake db (db3\<lparr>db_repositories := db_repositories db3 @ pending\<rparr>)"
    by (blast intro: intake_trans)
  moreover have "apply_repository_access ids now p db = db3\<lparr>db_repositories := db_repositories db3 @ pending\<rparr>"
    using g by (simp add: apply_repository_access_def Some u db2_def)
  ultimately show ?thesis by simp
qed (simp add: apply_repository_access_def)

lemma delete_repository_intake: "intake db (delete_repository now gr gi db)"
  by (auto simp: delete_repository_def repo_core_def intro!: intake_update_repositories)

lemma apply_event_intake:
  assumes "apply_event ids now event p d db = Inr (job, d', db')" and "fresh_ids_ok ids db"
  shows "intake db db'"
proof -
  have jid: "id_job ids \<notin> job_id ` set (db_jobs db)" using assms(2) by (simp add: fresh_ids_ok_def)
  from assms show ?thesis
    by (auto simp: apply_event_def
        intro: apply_installation_intake apply_repository_access_intake delete_repository_intake
          apply_push_intake [OF _ jid] apply_metadata_intake [OF _ jid]
        split: if_splits bool.splits option.splits)
qed

lemma wake_worker_intake: "intake db db' \<Longrightarrow> intake db (wake_worker now ok did job db')"
  by (auto simp: wake_worker_def job_core_def
      intro!: intake_deliveries intake_trans [OF _ intake_update_jobs] split: option.splits)

lemma handle_webhook_intake:
  assumes "handle_webhook ids now ok dg sig del ev ct parsed db = Inr (res, db')"
    and "fresh_ids_ok ids db"
  shows "intake db db'"
  using assms
  by (auto simp: handle_webhook_def Let_def
      intro!: wake_worker_intake intake_deliveries dest!: apply_event_intake
      split: if_splits option.splits sum.splits prod.splits)

section \<open>Users\<close>

lemma refill_core [simp]: "repo_core (refill_repository g r) = repo_core r"
  by (simp add: refill_repository_def repo_core_def)

lemma identity_core [simp]:
  "repo_core (refresh_identity now m r) = repo_core r" "repo_core (attach_identity now m r) = repo_core r"
  by (simp_all add: refresh_identity_def attach_identity_def repo_core_def Let_def)

lemma identity_simps [simp]:
  "repo_id (refill_repository g r) = repo_id r" "repo_id (attach_identity now m r) = repo_id r"
  "repo_index_version (refill_repository g r) = repo_index_version r"
  "repo_index_version (attach_identity now m r) = repo_index_version r"
  by (simp_all add: refill_repository_def attach_identity_def Let_def)

lemma new_repository_simps [simp]:
  "repo_id (new_repository rid i m g) = rid" "repo_index_version (new_repository rid i m g) = 0"
  by (simp_all add: new_repository_def)

lemma enqueued_intake: "intake db db' \<Longrightarrow> intake db (enqueued now jid db')"
  by (auto simp: enqueued_def job_core_def intro: intake_trans [OF _ intake_update_jobs])

text \<open>A fresh supply of repository ids: distinct, and none of them in use.\<close>

definition fresh_rids :: "(nat \<Rightarrow> uuid) \<Rightarrow> db \<Rightarrow> bool" where
  "fresh_rids rids db \<longleftrightarrow> inj rids \<and> (\<forall>n. rids n \<notin> repo_id ` set (db_repositories db))"

lemma upsert_repository_intake:
  assumes "rid \<notin> repo_id ` set (db_repositories db)"
  shows "intake db (upsert_repository rid i g db)"
  using assms by (auto simp: upsert_repository_def
      intro!: intake_insert_repository intake_update_repositories split: option.split)

lemma upsert_repository_ids:
  "repo_id ` set (db_repositories (upsert_repository rid i g db)) \<subseteq> insert rid (repo_id ` set (db_repositories db))"
  by (cases "select_first (\<lambda>r. repo_installation_id r = Some i \<and> repo_github_repository_id r = gr_id g)
      (db_repositories db)")
    (auto simp: upsert_repository_def set_update_where, metis imageI)

lemma upsert_repositories_intake:
  assumes "upsert_repositories rids n i gs db = Some db'" and "inj rids"
    and "\<forall>k \<ge> n. rids k \<notin> repo_id ` set (db_repositories db)"
  shows "intake db db'"
  using assms
proof (induction rids n i gs db rule: upsert_repositories.induct)
  case (2 rids n i g gs db)
  let ?db = "upsert_repository (rids n) i g db"
  have "repo_id ` set (db_repositories ?db) \<subseteq> insert (rids n) (repo_id ` set (db_repositories db))"
    by (rule upsert_repository_ids)
  moreover have "rids k \<noteq> rids n" if "k \<ge> n + 1" for k
    using injD [OF \<open>inj rids\<close>, of k n] that by auto
  ultimately have "\<forall>k \<ge> n + 1. rids k \<notin> repo_id ` set (db_repositories ?db)"
    using 2(4) by (metis add_leD1 insertE subsetD)
  with 2 have "intake ?db db'" by (simp add: Let_def split: if_splits)
  moreover have "intake db ?db" using 2(4) by (intro upsert_repository_intake) simp
  ultimately show ?case by (rule intake_trans [rotated])
qed simp

lemma synchronize_intake:
  assumes "synchronize_repositories A now rids user inst external db = (res, db')" and "fresh_rids rids db"
  shows "intake db db'"
  using assms
  by (auto simp: synchronize_repositories_def fresh_rids_def Let_def repo_core_def
      intro!: intake_trans [OF upsert_repositories_intake intake_update_repositories]
      split: option.splits)

lemma revoke_public_intake: "intake db (revoke_public now repo db)"
  by (auto simp: revoke_public_def revoke_public_access_def repo_core_def intro!: intake_update_repositories)

lemma get_authorized_intake:
  assumes "get_authorized_repository A now user repo f lookup db = (res, db')"
  shows "intake db db'"
  using assms
  by (auto simp: get_authorized_repository_def get_authorized_public_repository_def
      intro!: revoke_public_intake intake_update_repositories
      split: if_splits option.splits public_lookup.splits)

lemma select_repository_intake:
  assumes "select_repository A now jid user inst repo db = (res, db')" and "jid \<notin> job_id ` set (db_jobs db)"
  shows "intake db db'"
  using assms
  by (auto simp: select_repository_def Let_def repo_core_def
      intro!: enqueued_intake intake_insert_update split: option.splits)

lemma create_reindex_intake:
  assumes "create_reindex now jid user repo db = (res, db')" and "jid \<notin> job_id ` set (db_jobs db)"
  shows "intake db db'"
  using assms
  by (auto simp: create_reindex_def Let_def repo_core_def
      intro!: enqueued_intake intake_insert_update split: option.splits)

lemma get_authorized_jobs:
  "get_authorized_repository A now user repo f lookup db = (res, db') \<Longrightarrow> db_jobs db' = db_jobs db"
  by (auto simp: get_authorized_repository_def get_authorized_public_repository_def revoke_public_def
      revoke_public_access_def split: if_splits option.splits public_lookup.splits)

lemma reindex_intake:
  assumes "reindex A now jid user repo lookup db = (res, db')" and "jid \<notin> job_id ` set (db_jobs db)"
  shows "intake db db'"
proof -
  obtain r1 db1 where g: "get_authorized_repository A now user repo True lookup db = (r1, db1)"
    by (cases "get_authorized_repository A now user repo True lookup db")
  note one = get_authorized_intake [OF g] get_authorized_jobs [OF g]
  show ?thesis
  proof (cases r1)
    case (Inl e)
    with assms(1) g one show ?thesis by (auto simp: reindex_def)
  next
    case (Inr r)
    with assms(1) g have "create_reindex now jid user repo db1 = (res, db')" by (simp add: reindex_def)
    from create_reindex_intake [OF this] one assms(2) show ?thesis by (auto intro: intake_trans)
  qed
qed

lemma get_status_intake: "get_status A now user repo lookup db = (res, db') \<Longrightarrow> intake db db'"
  by (auto simp: get_status_def intro: get_authorized_intake split: prod.splits sum.splits)

lemma attach_job_intake:
  assumes "attach_job now jid user m manual r db = (res, j, db')" and "jid \<notin> job_id ` set (db_jobs db)"
  shows "intake db db'"
  using assms
  by (auto simp: attach_job_def Let_def repo_core_def intro!: intake_insert_update split: if_splits)

lemma attach_intake:
  assumes "attach A now rid jid user m expected manual db = Inr (res, j, db')"
    and "rid \<notin> repo_id ` set (db_repositories db)" and "jid \<notin> job_id ` set (db_jobs db)"
  shows "intake db db'"
proof -
  have step: "intake db db'" if "attach_job now jid user m manual r db1 = (res, j, db')" "intake db db1"
    "db_jobs db1 = db_jobs db" for r db1
    using attach_job_intake [OF that(1)] that(2,3) assms(3) by (auto intro: intake_trans)
  from assms(1,2) show ?thesis
    by (auto simp: attach_def Let_def
        intro!: intake_other_tables intake_insert_repository intake_update_repositories
        elim!: step split: if_splits option.splits)
qed

lemma attach_and_enqueue_intake:
  assumes "attach_and_enqueue A now rid jid user m expected manual db = (res, db')"
    and "rid \<notin> repo_id ` set (db_repositories db)" and "jid \<notin> job_id ` set (db_jobs db)"
  shows "intake db db'"
  using assms
  by (auto simp: attach_and_enqueue_def intro: enqueued_intake dest!: attach_intake
      split: sum.splits option.splits prod.splits)

lemma import_intake:
  assumes "import_repository A now rid jid user lookup db = (res, db')"
    and "rid \<notin> repo_id ` set (db_repositories db)" and "jid \<notin> job_id ` set (db_jobs db)"
  shows "intake db db'"
  using assms by (auto simp: import_repository_def intro: attach_and_enqueue_intake
      split: public_lookup.splits if_splits)

lemma refresh_public_intake:
  assumes "refresh_public A now rid jid user repo lookup db = (res, db')"
    and "rid \<notin> repo_id ` set (db_repositories db)" and "jid \<notin> job_id ` set (db_jobs db)"
  shows "intake db db'"
  using assms by (auto simp: refresh_public_def intro: attach_and_enqueue_intake revoke_public_intake
      split: public_lookup.splits if_splits option.splits)

end
