(* ===== verification/System.thy ===== *)
theory System
  imports Intake
begin

text \<open>
  The running system: the database, and the claim each worker process believes it holds. A step is
  one transaction of any process: a worker claims a job, performs a store operation under its claim
  (also when it has lost the lock meanwhile), drops the claim (it is done, or it crashed), a
  reconciler recovers or re-enqueues jobs, GitHub delivers an event, a user acts. Between two steps
  of one process any steps of the others may happen.
\<close>

section \<open>Steps\<close>

record system =
  sys_db :: db
  sys_claims :: "string \<Rightarrow> claimed_job option"

definition fresh_row_ids :: "uuid \<Rightarrow> uuid \<Rightarrow> db \<Rightarrow> bool" where
  "fresh_row_ids rid jid db \<longleftrightarrow>
     rid \<notin> repo_id ` set (db_repositories db) \<and> jid \<notin> job_id ` set (db_jobs db)"

text \<open>The transactions of a worker under the claim \<open>c\<close> it received.\<close>

inductive worker_op ::
  "store_settings \<Rightarrow> digests \<Rightarrow> (pystr \<Rightarrow> pystr) \<Rightarrow> string \<Rightarrow> claimed_job \<Rightarrow> db \<Rightarrow> db \<Rightarrow> bool"
  for S D col w c where
  wop_context: "authorized_context S now c db = (ctx, db') \<Longrightarrow> worker_op S D col w c db db'"
| wop_heartbeat: "worker_op S D col w c db (heartbeat now c w db)"
| wop_plan: "worker_op S D col w c db (record_freshness_plan c w mode reason counts n db)"
| wop_stage: "worker_op S D col w c db (stage now c w status name progress sha db)"
| wop_revoke: "worker_op S D col w c db (revoke_public_access now repo db)"
| wop_prepare: "prepare_build D S c w sha d p fp db = Inr db' \<Longrightarrow> worker_op S D col w c db db'"
| wop_vectors: "record_vector_counts c w e v r q db = Inr db' \<Longrightarrow> worker_op S D col w c db db'"
| wop_validate: "validate_graph D col c w db = Inr db' \<Longrightarrow> worker_op S D col w c db db'"
| wop_ready: "mark_build_ready c w db = Inr db' \<Longrightarrow> worker_op S D col w c db db'"
| wop_activate: "activate now c w sha db = Inr (previous, db') \<Longrightarrow> worker_op S D col w c db db'"
| wop_failed_cleanup:
    "worker_op S D col w c db (record_failed_build_cleanup now repo ver cleaned db)"
| wop_superseded_cleanup:
    "complete_superseded_cleanup now repo ver db = Inr db' \<Longrightarrow> worker_op S D col w c db db'"
| wop_stale: "worker_op S D col w c db (mark_stale now c w code superseded db)"
| wop_cancel: "worker_op S D col w c db (cancel_revoked now c w db)"
| wop_fail: "fail S now rnd c w code msg retryable db = (again, db') \<Longrightarrow> worker_op S D col w c db db'"

text \<open>The transactions of everyone else.\<close>

inductive outside_op :: "store_settings \<Rightarrow> access_settings \<Rightarrow> db \<Rightarrow> db \<Rightarrow> bool" for S A where
  out_recover: "recover_abandoned S now db = (n, db') \<Longrightarrow> outside_op S A db db'"
| out_enqueue: "outside_op S A db (mark_enqueued now jid db)"
| out_webhook: "handle_webhook ids now ok digest signature delivery event content parsed db = Inr (res, db') \<Longrightarrow>
    fresh_ids_ok ids db \<Longrightarrow> outside_op S A db db'"
| out_synchronize: "synchronize_repositories A now rids user inst external db = (r1, db') \<Longrightarrow>
    fresh_rids rids db \<Longrightarrow> outside_op S A db db'"
| out_authorize: "get_authorized_repository A now user repo require_fresh lookup db = (r2, db') \<Longrightarrow>
    outside_op S A db db'"
| out_select: "select_repository A now jid user inst repo db = (r3, db') \<Longrightarrow>
    jid \<notin> job_id ` set (db_jobs db) \<Longrightarrow> outside_op S A db db'"
| out_reindex: "reindex A now jid user repo lookup db = (r4, db') \<Longrightarrow>
    jid \<notin> job_id ` set (db_jobs db) \<Longrightarrow> outside_op S A db db'"
| out_status: "get_status A now user repo lookup db = (r5, db') \<Longrightarrow> outside_op S A db db'"
| out_import: "import_repository A now rid jid user lookup db = (r6, db') \<Longrightarrow>
    fresh_row_ids rid jid db \<Longrightarrow> outside_op S A db db'"
| out_refresh: "refresh_public A now rid jid user repo lookup db = (r7, db') \<Longrightarrow>
    fresh_row_ids rid jid db \<Longrightarrow> outside_op S A db db'"

inductive sys_step ::
  "store_settings \<Rightarrow> digests \<Rightarrow> (pystr \<Rightarrow> pystr) \<Rightarrow> access_settings \<Rightarrow> system \<Rightarrow> system \<Rightarrow> bool"
  for S D col A where
  step_claim: "sys_claims s w = None \<Longrightarrow> claim now jid w (sys_db s) = (Some c, db') \<Longrightarrow>
    sys_step S D col A s (s\<lparr>sys_db := db', sys_claims := (sys_claims s)(w := Some c)\<rparr>)"
| step_worker: "sys_claims s w = Some c \<Longrightarrow> worker_op S D col w c (sys_db s) db' \<Longrightarrow>
    sys_step S D col A s (s\<lparr>sys_db := db'\<rparr>)"
| step_drop: "sys_step S D col A s (s\<lparr>sys_claims := (sys_claims s)(w := None)\<rparr>)"
| step_outside: "outside_op S A (sys_db s) db' \<Longrightarrow> sys_step S D col A s (s\<lparr>sys_db := db'\<rparr>)"

inductive sys_steps ::
  "store_settings \<Rightarrow> digests \<Rightarrow> (pystr \<Rightarrow> pystr) \<Rightarrow> access_settings \<Rightarrow> system \<Rightarrow> system \<Rightarrow> bool"
  for S D col A where
  steps_refl [intro, simp]: "sys_steps S D col A s s"
| steps_step: "sys_steps S D col A s t \<Longrightarrow> sys_step S D col A t u \<Longrightarrow> sys_steps S D col A s u"

lemma sys_steps_trans:
  "sys_steps S D col A t u \<Longrightarrow> sys_steps S D col A s t \<Longrightarrow> sys_steps S D col A s u"
  by (induction rule: sys_steps.induct) (auto intro: steps_step)

text \<open>The state after the migrations: no rows, no claims.\<close>

definition empty_db :: db where
  "empty_db = \<lparr>db_jobs = [], db_repositories = [], db_builds = [], db_deliveries = [], db_symbols = [],
     db_edges = [], db_installations = [], db_members = [], db_users = [], db_user_repositories = []\<rparr>"

definition initial_system :: "db \<Rightarrow> system" where
  "initial_system db = \<lparr>sys_db = db, sys_claims = (\<lambda>_. None)\<rparr>"

text \<open>A database in which users and installations may exist, but nothing has been queued yet.\<close>

definition unused_db :: "db \<Rightarrow> bool" where
  "unused_db db \<longleftrightarrow> db_jobs db = [] \<and> db_builds db = [] \<and> db_symbols db = [] \<and> db_edges db = []
     \<and> distinct (map repo_id (db_repositories db)) \<and> (\<forall>r \<in> set (db_repositories db). repo_index_version r = 0)"

inductive reachable ::
  "store_settings \<Rightarrow> digests \<Rightarrow> (pystr \<Rightarrow> pystr) \<Rightarrow> access_settings \<Rightarrow> system \<Rightarrow> bool"
  for S D col A where
  reach_init: "unused_db db \<Longrightarrow> reachable S D col A (initial_system db)"
| reach_step: "reachable S D col A s \<Longrightarrow> sys_step S D col A s t \<Longrightarrow> reachable S D col A t"

section \<open>What a step may change\<close>

text \<open>The published content of a version: its symbols and its edges.\<close>

definition content :: "uuid \<Rightarrow> nat \<Rightarrow> db \<Rightarrow> symbol_definition list \<times> call_edge list" where
  "content repo ver db =
     (filter (\<lambda>s. sd_repository_id s = repo \<and> sd_index_version s = ver) (db_symbols db),
      filter (\<lambda>e. ed_repository_id e = repo \<and> ed_index_version e = ver) (db_edges db))"

text \<open>The cores of the repositories are kept, up to new repositories at version 0.\<close>

definition cores_kept :: "db \<Rightarrow> db \<Rightarrow> bool" where
  "cores_kept db db' \<longleftrightarrow>
     (\<exists>rs. map repo_core (db_repositories db') = map repo_core (db_repositories db @ rs)
        \<and> (\<forall>r \<in> set rs. repo_index_version r = 0))"

lemma cores_keptI: "map repo_core (db_repositories db') = map repo_core (db_repositories db) \<Longrightarrow> cores_kept db db'"
  unfolding cores_kept_def by (rule exI [of _ "[]"]) simp

lemma intake_cores: "intake db db' \<Longrightarrow> cores_kept db db'"
  unfolding intake_def cores_kept_def by blast

lemma intake_content: "intake db db' \<Longrightarrow> content repo ver db' = content repo ver db"
  by (simp add: intake_def content_def)

lemma outside_effect:
  assumes "outside_op S A db db'"
  shows "intake db db' \<or> (\<exists>now n. recover_abandoned S now db = (n, db'))"
  using assms
proof (cases rule: outside_op.cases)
  case (out_enqueue now jid)
  then show ?thesis
    by (auto simp: mark_enqueued_def job_core_def intro!: intake_update_jobs)
qed (auto simp: fresh_row_ids_def
    intro: handle_webhook_intake synchronize_intake get_authorized_intake select_repository_intake
      reindex_intake get_status_intake import_intake refresh_public_intake)

lemma recover_job_frame:
  "db_builds (recover_job S now job db) = db_builds db"
  "db_symbols (recover_job S now job db) = db_symbols db"
  "db_edges (recover_job S now job db) = db_edges db"
  "map repo_core (db_repositories (recover_job S now job db)) = map repo_core (db_repositories db)"
  "map job_id (db_jobs (recover_job S now job db)) = map job_id (db_jobs db)"
  "map job_attempt (db_jobs (recover_job S now job db)) = map job_attempt (db_jobs db)"
  by (simp_all add: recover_job_def Let_def map_update_where repo_core_def)

lemma recover_fold_frame:
  "db_builds (fold (recover_job S now) js db) = db_builds db
   \<and> db_symbols (fold (recover_job S now) js db) = db_symbols db
   \<and> db_edges (fold (recover_job S now) js db) = db_edges db
   \<and> map repo_core (db_repositories (fold (recover_job S now) js db)) = map repo_core (db_repositories db)"
  by (induction js arbitrary: db) (simp_all add: recover_job_frame)

lemma recover_frame:
  assumes "recover_abandoned S now db = (n, db')"
  shows "db_builds db' = db_builds db" and "db_symbols db' = db_symbols db" and "db_edges db' = db_edges db"
    and "map repo_core (db_repositories db') = map repo_core (db_repositories db)"
  using assms recover_fold_frame [of S now _ db] unfolding recover_abandoned_def Let_def by auto

lemma recover_index_inv:
  assumes "recover_abandoned S now db = (n, db')" and "db_index_inv db"
  shows "db_index_inv db'"
  using assms(2) index_inv_cong [OF recover_frame(4) [OF assms(1)]]
  by (simp add: db_index_inv_def recover_frame(1) [OF assms(1)])

lemma recover_jobs_inv:
  assumes "recover_abandoned S now db = (n, db')" and "jobs_inv S (db_jobs db)"
  shows "jobs_inv S (db_jobs db')"
  using recover_abandoned_induct [OF assms(2), of "\<lambda>_. True" now] assms(1) by simp

lemma outside_inv:
  assumes "outside_op S A db db'" and "jobs_inv S (db_jobs db)" and "db_index_inv db"
  shows "jobs_inv S (db_jobs db') \<and> db_index_inv db'"
  using outside_effect [OF assms(1)] assms(2,3)
  by (auto intro: intake_jobs_inv intake_index_inv recover_jobs_inv recover_index_inv)

lemmas db_index_keep =
  db_index_frame [OF repo_frame_simps(1) build_frame_simps(1)]
  db_index_frame [OF repo_frame_simps(2) build_frame_simps(2)]
  db_index_frame [OF repo_frame_simps(3) build_frame_simps(3)]
  db_index_frame [OF repo_frame_simps(4) build_frame_simps(4)]
  db_index_frame [OF repo_frame_simps(5) build_frame_simps(5)]
  db_index_frame [OF repo_frame_simps(6) build_frame_simps(6)]
  db_index_frame [OF repo_frame_simps(10) build_frame_simps(10)]
  db_index_frame [OF repo_frame_simps(11) build_frame_simps(11)]

lemma snd_eqD: "f = (x, y) \<Longrightarrow> y = snd f"
  by simp

lemma worker_index_inv:
  assumes "worker_op S D col w c db db'" and inv: "db_index_inv db"
  shows "db_index_inv db'"
  using assms(1)
proof (cases rule: worker_op.cases)
  case (wop_context now ctx)
  show ?thesis unfolding snd_eqD [OF wop_context] using inv by (simp add: db_index_keep)
next
  case (wop_fail now rnd code msg retryable again)
  show ?thesis unfolding snd_eqD [OF wop_fail] using inv by (simp add: db_index_keep)
next
  case (wop_failed_cleanup now repo ver cleaned)
  show ?thesis unfolding wop_failed_cleanup using inv by (rule failed_cleanup_index_inv)
next
  case (wop_prepare sha d p fp)
  then show ?thesis by (rule prepare_index_inv [OF inv])
next
  case (wop_vectors e v r q)
  then show ?thesis by (rule vectors_index_inv [OF inv])
next
  case (wop_validate)
  then show ?thesis by (rule validate_index_inv [OF inv])
next
  case (wop_ready)
  then show ?thesis by (rule ready_index_inv [OF inv])
next
  case (wop_activate now sha previous)
  then show ?thesis by (rule activate_index_inv [OF inv])
next
  case (wop_superseded_cleanup now repo ver)
  then show ?thesis by (rule superseded_cleanup_index_inv [OF inv])
qed (use inv in \<open>simp_all add: db_index_keep\<close>)

section \<open>The invariant\<close>

text \<open>The token of a worker agrees with the row while the worker holds its lock.\<close>

definition token_ok :: "string \<Rightarrow> claimed_job \<Rightarrow> indexing_job list \<Rightarrow> bool" where
  "token_ok w c js \<longleftrightarrow>
     (\<forall>j \<in> set js. owned c w j \<longrightarrow>
        job_attempt j = cl_attempt c \<and> job_repository_id j = cl_repository_id c)"

definition sys_inv :: "store_settings \<Rightarrow> system \<Rightarrow> bool" where
  "sys_inv S s \<longleftrightarrow> jobs_inv S (db_jobs (sys_db s)) \<and> db_index_inv (sys_db s)
     \<and> (\<forall>w c. sys_claims s w = Some c \<longrightarrow> token_ok w c (db_jobs (sys_db s)))"

lemma token_ok_cong:
  assumes "map job_core js = map job_core js'"
  shows "token_ok w c js = token_ok w c js'"
proof -
  have "token_ok w c xs = (\<forall>(i, r, st, a, l) \<in> set (map job_core xs).
      i = cl_id c \<and> st = RUNNING \<and> l = Some w \<longrightarrow> a = cl_attempt c \<and> r = cl_repository_id c)" for xs
    by (auto simp: token_ok_def owned_def job_core_def)
  with assms show ?thesis by metis
qed

text \<open>An update that takes jobs out of the running state, or keeps their cores, keeps every token.\<close>

lemma token_ok_update:
  assumes "token_ok w c js"
    and "\<And>j. j \<in> set js \<Longrightarrow> P j \<Longrightarrow> job_status (f j) \<noteq> RUNNING \<or> job_core (f j) = job_core j"
  shows "token_ok w c (update_where P f js)"
  using assms unfolding token_ok_def owned_def job_core_def set_update_where by fastforce

lemma token_ok_append:
  "token_ok w c js \<Longrightarrow> \<forall>j \<in> set new. fresh_job j \<Longrightarrow> token_ok w c (js @ new)"
  by (auto simp: token_ok_def owned_def fresh_job_def)

lemma intake_token_ok:
  assumes "intake db db'" and "token_ok w c (db_jobs db)"
  shows "token_ok w c (db_jobs db')"
proof -
  from assms(1) obtain js where "map job_core (db_jobs db') = map job_core (db_jobs db @ js)"
    "\<forall>j \<in> set js. fresh_job j"
    unfolding intake_def by blast
  with token_ok_append [OF assms(2)] token_ok_cong show ?thesis by blast
qed

lemma recover_token_ok:
  assumes "recover_abandoned S now db = (n, db')" and "token_ok w c (db_jobs db)"
  shows "token_ok w c (db_jobs db')"
proof -
  have "token_ok w c (db_jobs (fold (recover_job S now) js d))" if "token_ok w c (db_jobs d)" for js d
    using that
    by (induction js arbitrary: d) (simp_all add: recover_job_jobs token_ok_update)
  then show ?thesis using assms by (auto simp: recover_abandoned_def Let_def)
qed

section \<open>The invariant is kept\<close>

text \<open>Operations that leave the core of every job.\<close>

lemma core_frames:
  "map job_core (db_jobs (heartbeat now c w db)) = map job_core (db_jobs db)"
  "map job_core (db_jobs (record_freshness_plan c w m fb cc n db)) = map job_core (db_jobs db)"
  "map job_core (db_jobs (stage now c w st nm pr sha db)) = map job_core (db_jobs db)"
  "map job_core (db_jobs (revoke_public_access now repo db)) = map job_core (db_jobs db)"
  "map job_core (db_jobs (snd (authorized_context S now c db))) = map job_core (db_jobs db)"
  by (simp_all add: heartbeat_def record_freshness_plan_def stage_def revoke_public_access_def
      authorized_context_def Let_def map_update_where job_core_def split: option.split)

lemma core_prepare:
  "prepare_build D S c w sha d p fp db = Inr db' \<Longrightarrow> map job_core (db_jobs db') = map job_core (db_jobs db)"
  by (auto simp: prepare_build_def Let_def map_update_where job_core_def split: option.splits if_splits)

lemma core_vectors:
  "record_vector_counts c w e v r q db = Inr db' \<Longrightarrow> map job_core (db_jobs db') = map job_core (db_jobs db)"
  by (auto simp: record_vector_counts_def map_update_where job_core_def split: option.splits)

text \<open>Operations that end the run of the claimed job: an update of its row that releases the lock.\<close>

definition released :: "indexing_job \<Rightarrow> (indexing_job \<Rightarrow> indexing_job) \<Rightarrow> db \<Rightarrow> db \<Rightarrow> bool" where
  "released job f db db' \<longleftrightarrow>
     db_jobs db' = update_where (\<lambda>x. job_id x = job_id job) f (db_jobs db)
     \<and> (\<forall>j. job_status (f j) \<noteq> RUNNING)"

lemma released_token_ok:
  "released job f db db' \<Longrightarrow> token_ok w c (db_jobs db) \<Longrightarrow> token_ok w c (db_jobs db')"
  unfolding released_def by (auto intro: token_ok_update)

lemma stale_released:
  "db_jobs (mark_stale now c w code superseded db) = db_jobs db \<or>
   (\<exists>job f. owned_job c w db = Some job \<and> released job f db (mark_stale now c w code superseded db))"
  by (auto simp: mark_stale_def released_def Let_def split: option.split intro!: exI)

lemma cancel_released:
  assumes "jobs_inv S (db_jobs db)"
  shows "db_jobs (cancel_revoked now c w db) = db_jobs db \<or>
    (\<exists>job f. owned_job c w db = Some job \<and> released job f db (cancel_revoked now c w db))"
  using update_owned [OF assms]
  by (auto simp: cancel_revoked_def released_def Let_def split: option.split intro!: exI)

lemma fail_released:
  assumes "jobs_inv S (db_jobs db)"
  shows "db_jobs (snd (fail S now rnd c w code msg retryable db)) = db_jobs db \<or>
    (\<exists>job f. owned_job c w db = Some job \<and> released job f db (snd (fail S now rnd c w code msg retryable db)))"
  using update_owned [OF assms]
  by (auto simp: fail_def released_def Let_def split: option.split intro!: exI)

lemma activate_released:
  assumes "activate now c w sha db = Inr (previous, db')"
  shows "\<exists>job f. owned_job c w db = Some job \<and> released job f db db'"
  using assms by (rule activate_rowD) (auto simp: released_def intro!: exI)

text \<open>So a worker operation keeps all cores, or releases the lock it holds.\<close>

lemma worker_jobs_effect:
  assumes "worker_op S D col w c db db'" and inv: "jobs_inv S (db_jobs db)"
  shows "map job_core (db_jobs db') = map job_core (db_jobs db)
    \<or> (\<exists>job f. owned_job c w db = Some job \<and> released job f db db')"
  using assms(1)
proof (cases rule: worker_op.cases)
  case (wop_context now ctx)
  show ?thesis unfolding snd_eqD [OF wop_context] by (simp add: core_frames)
next
  case (wop_prepare sha d p fp)
  then show ?thesis using core_prepare by blast
next
  case (wop_vectors e v r q)
  then show ?thesis using core_vectors by blast
next
  case (wop_activate now sha previous)
  then show ?thesis using activate_released by blast
next
  case (wop_stale now code superseded)
  then show ?thesis using stale_released [of now c w code superseded db] by auto
next
  case (wop_cancel now)
  then show ?thesis using cancel_released [OF inv, of now c w] by auto
next
  case (wop_fail now rnd code msg retryable again)
  then show ?thesis using fail_released [OF inv, of now rnd c w code msg retryable] snd_eqD [OF wop_fail] by auto
qed (simp_all add: core_frames job_core_validate job_core_ready job_core_failed_cleanup job_core_superseded_cleanup)

lemma worker_jobs_inv:
  assumes op: "worker_op S D col w c db db'" and inv: "jobs_inv S (db_jobs db)" and "token_ok w c (db_jobs db)"
  shows "jobs_inv S (db_jobs db')"
proof (cases "map job_core (db_jobs db') = map job_core (db_jobs db)")
  case True
  then show ?thesis using jobs_inv_cong inv by blast
next
  case False
  show ?thesis
    using op
  proof (cases rule: worker_op.cases)
    case (wop_activate now sha previous)
    then show ?thesis by (rule activate_jobs_inv [OF inv])
  next
    case (wop_stale now code superseded)
    then show ?thesis by (simp add: mark_stale_jobs_inv inv)
  next
    case (wop_cancel now)
    then show ?thesis by (simp add: cancel_revoked_jobs_inv inv)
  next
    case (wop_fail now rnd code msg retryable again)
    have "job_attempt j = cl_attempt c" if "owned_job c w db = Some j" for j
      using assms(3) owned_jobD(1,2) [OF that] by (simp add: token_ok_def)
    from fail_jobs_inv [OF inv this] show ?thesis unfolding snd_eqD [OF wop_fail] by simp
  next
    case (wop_context now ctx)
    show ?thesis using False unfolding snd_eqD [OF wop_context] by (simp add: core_frames)
  next
    case (wop_prepare sha d p fp)
    then show ?thesis using False core_prepare by blast
  next
    case (wop_vectors e v r q)
    then show ?thesis using False core_vectors by blast
  qed (use False in \<open>simp_all add: core_frames job_core_validate job_core_ready job_core_failed_cleanup
    job_core_superseded_cleanup\<close>)
qed

lemma worker_token_ok:
  assumes "worker_op S D col w c db db'" and "jobs_inv S (db_jobs db)" and "token_ok w' c' (db_jobs db)"
  shows "token_ok w' c' (db_jobs db')"
  using worker_jobs_effect [OF assms(1,2)] assms(3) token_ok_cong released_token_ok by blast

lemma claim_token_ok:
  assumes "claim now jid w db = (Some c, db')" and inv: "jobs_inv S (db_jobs db)"
  shows "token_ok w c (db_jobs db')"
    and "w' \<noteq> w \<Longrightarrow> token_ok w' c' (db_jobs db) \<Longrightarrow> token_ok w' c' (db_jobs db')"
proof -
  from assms(1) obtain j where j: "j \<in> set (db_jobs db)" "job_id j = jid" "claimable now j"
    and c: "c = \<lparr>cl_id = jid, cl_repository_id = job_repository_id j, cl_attempt = job_attempt j + 1\<rparr>"
    and js: "db_jobs db' = update_where (\<lambda>x. job_id x = jid \<and> claimable now x)
      (\<lambda>j. j\<lparr>job_status := RUNNING, job_attempt := job_attempt j + 1, job_locked_by := Some w,
         job_started_at := Some now, job_heartbeat_at := Some now, job_next_attempt_at := None,
         job_error_code := None, job_safe_error_message := None\<rparr>) (db_jobs db)"
    by (elim claim_rowD) blast
  have only: "x = j" if "x \<in> set (db_jobs db)" "job_id x = jid" for x
    using jobs_inv_unique [OF inv that(1) j(1)] that(2) j(2) by simp
  have idle: "job_status j \<noteq> RUNNING" using j(3) by (auto simp: claimable_def)
  show "token_ok w c (db_jobs db')"
  proof (unfold token_ok_def, intro ballI impI)
    fix x assume x: "x \<in> set (db_jobs db')" "owned c w x"
    then have run: "job_status x = RUNNING" and "job_id x = jid" by (simp_all add: owned_def c)
    let ?f = "\<lambda>j. j\<lparr>job_status := RUNNING, job_attempt := job_attempt j + 1, job_locked_by := Some w,
         job_started_at := Some now, job_heartbeat_at := Some now, job_next_attempt_at := None,
         job_error_code := None, job_safe_error_message := None\<rparr>"
    from x(1) obtain y where y: "y \<in> set (db_jobs db)" "x = (if job_id y = jid \<and> claimable now y then ?f y else y)"
      unfolding js set_update_where by blast
    have "job_id y = jid" using \<open>job_id x = jid\<close> y(2) by (simp split: if_splits)
    with only y(1) have "y = j" by simp
    with y(2) j(2,3) have "x = ?f j" by simp
    then show "job_attempt x = cl_attempt c \<and> job_repository_id x = cl_repository_id c" by (simp add: c)
  qed
  have cases: "x \<in> set (db_jobs db) \<or> job_locked_by x = Some w" if "x \<in> set (db_jobs db')" for x
    using that unfolding js set_update_where by auto
  show "token_ok w' c' (db_jobs db')" if "w' \<noteq> w" "token_ok w' c' (db_jobs db)"
    unfolding token_ok_def
  proof (intro ballI impI)
    fix x assume x: "x \<in> set (db_jobs db')" "owned c' w' x"
    with cases [of x] that(1) have "x \<in> set (db_jobs db)" by (auto simp: owned_def)
    with that(2) x(2) show "job_attempt x = cl_attempt c' \<and> job_repository_id x = cl_repository_id c'"
      by (simp add: token_ok_def)
  qed
qed

lemma sys_step_inv:
  assumes "sys_step S D col A s t" and inv: "sys_inv S s" and pos: "0 < st_max_attempts S"
  shows "sys_inv S t"
  using assms(1)
proof (cases rule: sys_step.cases)
  case (step_claim w now jid c db')
  have js: "jobs_inv S (db_jobs (sys_db s))" and ix: "db_index_inv (sys_db s)"
    and tok: "\<And>w c. sys_claims s w = Some c \<Longrightarrow> token_ok w c (db_jobs (sys_db s))"
    using inv by (simp_all add: sys_inv_def)
  have "token_ok w' c' (db_jobs db')" if "((sys_claims s)(w := Some c)) w' = Some c'" for w' c'
    using that claim_token_ok(1) [OF step_claim(3) js] claim_token_ok(2) [OF step_claim(3) js _ tok]
    by (cases "w' = w") simp_all
  then show ?thesis
    using claim_jobs_inv [OF js pos step_claim(3)] claim_index_inv [OF step_claim(3)] ix
    unfolding step_claim(1) sys_inv_def by simp
next
  case (step_worker w c db')
  have js: "jobs_inv S (db_jobs (sys_db s))" and ix: "db_index_inv (sys_db s)"
    and tok: "\<And>w c. sys_claims s w = Some c \<Longrightarrow> token_ok w c (db_jobs (sys_db s))"
    using inv by (simp_all add: sys_inv_def)
  show ?thesis
    using worker_jobs_inv [OF step_worker(3) js tok [OF step_worker(2)]]
      worker_index_inv [OF step_worker(3) ix] worker_token_ok [OF step_worker(3) js tok]
    unfolding step_worker(1) sys_inv_def by simp
next
  case (step_outside db')
  have "token_ok w c (db_jobs db')" if "token_ok w c (db_jobs (sys_db s))" for w c
    using outside_effect [OF step_outside(2)] that intake_token_ok recover_token_ok by blast
  with step_outside outside_inv [OF step_outside(2)] inv show ?thesis unfolding sys_inv_def by simp
qed (use inv in \<open>auto simp: sys_inv_def\<close>)

lemma initial_inv: "unused_db db \<Longrightarrow> sys_inv S (initial_system db)"
  by (auto simp: unused_db_def sys_inv_def initial_system_def jobs_inv_def one_running_ok_def running_of_def
      db_index_inv_def index_inv_def)

interpretation sys: step_invariant "\<lambda>s. \<exists>db. unused_db db \<and> s = initial_system db" "sys_step S D col A"
  "\<lambda>s. 0 < st_max_attempts S \<longrightarrow> sys_inv S s" for S D col A
  by unfold_locales (auto intro: initial_inv sys_step_inv)

lemma sys_steps_rtrancl: "sys_steps S D col A s t \<Longrightarrow> (sys_step S D col A)\<^sup>*\<^sup>* s t"
  by (induction rule: sys_steps.induct) auto

lemma reachable_rtrancl:
  "reachable S D col A s \<Longrightarrow> \<exists>db. unused_db db \<and> (sys_step S D col A)\<^sup>*\<^sup>* (initial_system db) s"
  by (induction rule: reachable.induct) (blast intro: rtranclp.rtrancl_into_rtrancl)+

lemma reachable_inv:
  assumes "reachable S D col A s" and "0 < st_max_attempts S"
  shows "sys_inv S s"
  using reachable_rtrancl [OF assms(1)] sys.reach_inv assms(2) by blast

lemma sys_steps_inv:
  "sys_steps S D col A s t \<Longrightarrow> sys_inv S s \<Longrightarrow> 0 < st_max_attempts S \<Longrightarrow> sys_inv S t"
  using sys_steps_rtrancl sys.steps_inv by blast

end
