(* ===== verification/Pipeline.thy ===== *)
theory Pipeline
  imports System
begin

text \<open>
  What the pipeline guarantees in every reachable state and across every step, whatever the
  interleaving of workers, webhooks, users and the reconciler.
\<close>

section \<open>Effects of worker operations on the published index\<close>

definition published_at :: "uuid \<Rightarrow> nat \<Rightarrow> db \<Rightarrow> bool" where
  "published_at repo ver db \<longleftrightarrow>
     0 < ver \<and> (\<exists>r \<in> set (db_repositories db). repo_id r = repo \<and> repo_index_version r = ver)"

lemma filter_delete_other:
  "(\<And>x. Q x \<Longrightarrow> \<not> P x) \<Longrightarrow> filter Q (delete_where P xs) = filter Q xs"
  by (induction xs) (auto simp: delete_where_def)

lemma content_delete_other:
  "(repo, ver) \<noteq> (repo', ver') \<Longrightarrow>
   content repo' ver' (delete_version_symbols repo ver db) = content repo' ver' db"
  by (auto simp: content_def delete_version_symbols_def Let_def intro!: filter_delete_other)

lemma content_cong:
  "db_symbols db' = db_symbols db \<Longrightarrow> db_edges db' = db_edges db \<Longrightarrow> content repo ver db' = content repo ver db"
  by (simp add: content_def)

lemma content_prepare:
  assumes "prepare_build D S c w sha d p fp db = Inr db'"
    and "published_at repo ver db" and "db_index_inv db"
  shows "content repo ver db' = content repo ver db"
  using assms(1)
proof (rule prepare_buildD)
  fix job r
  assume r: "repository_by_id (job_repository_id job) db = Some r" "pr_index_version p = repo_index_version r + 1"
    and syms: "db_symbols db' = delete_where (\<lambda>s. sd_repository_id s = repo_id r \<and> sd_index_version s = pr_index_version p)
      (db_symbols db) @ symbol_rows D (repo_id r) p"
    and edges: "db_edges db' = db_edges (delete_version_symbols (repo_id r) (pr_index_version p) db) @ edge_rows (repo_id r) p"
  have "(repo_id r, pr_index_version p) \<noteq> (repo, ver)"
    using assms(2,3) repository_by_idD [OF r(1)] r(2)
    by (auto simp: published_at_def db_index_inv_def dest: index_inv_repo_unique)
  then have other: "(repo_id r, pr_index_version p) \<noteq> (repo, ver)" .
  have "filter (\<lambda>s. sd_repository_id s = repo \<and> sd_index_version s = ver) (symbol_rows D (repo_id r) p) = []"
    and "filter (\<lambda>e. ed_repository_id e = repo \<and> ed_index_version e = ver) (edge_rows (repo_id r) p) = []"
    using other by (auto simp: symbol_rows_def edge_rows_def filter_empty_conv)
  then have "content repo ver db' = content repo ver (delete_version_symbols (repo_id r) (pr_index_version p) db)"
    by (simp add: content_def syms edges)
  then show ?thesis using content_delete_other [OF other] by simp
qed

lemma content_failed_cleanup:
  assumes "published_at repo ver db" and "db_index_inv db"
  shows "content repo ver (record_failed_build_cleanup now repo' ver' cleaned db) = content repo ver db"
proof (cases "select_first (\<lambda>b. build_at repo' ver' b \<and> bld_state b \<noteq> ACTIVE) (db_builds db)")
  case (Some b)
  then have b: "b \<in> set (db_builds db)" "build_at repo' ver' b" "bld_state b \<noteq> ACTIVE"
    by (auto dest: select_first_SomeD)
  have "(repo', ver') \<noteq> (repo, ver)"
  proof
    assume same: "(repo', ver') = (repo, ver)"
    from assms obtain a where a: "a \<in> set (db_builds db)" "active_at repo ver a"
      unfolding published_at_def db_index_inv_def index_inv_def by blast
    have "a = b"
      using index_inv_build_unique [OF assms(2) [unfolded db_index_inv_def] a(1) b(1)] a(2) b(2) same
      by (simp add: active_at_def build_at_def build_key_def)
    with a(2) b(3) show False by (simp add: active_at_def)
  qed
  from content_delete_other [OF this] Some show ?thesis
    by (simp add: record_failed_build_cleanup_def Let_def) (simp add: content_def)
qed (simp add: record_failed_build_cleanup_def)

lemma content_superseded_cleanup:
  assumes "complete_superseded_cleanup now repo' ver' db = Inr db'"
    and "published_at repo ver db" and "db_index_inv db"
  shows "content repo ver db' = content repo ver db"
proof -
  from assms(1) obtain r where r: "repository_by_id repo' db = Some r" "repo_index_version r \<noteq> ver'"
    and db': "db' = delete_version_symbols repo' ver'
      (update_builds (\<lambda>b. build_at repo' ver' b \<and> (bld_state b = B_SUPERSEDED \<or> bld_state b = B_FAILED))
        (\<lambda>b. b\<lparr>bld_cleanup_status := CLEANED, bld_cleanup_completed_at := Some now\<rparr>) db)"
    by (auto simp: complete_superseded_cleanup_def split: option.splits if_splits)
  have "(repo', ver') \<noteq> (repo, ver)"
    using assms(2,3) repository_by_idD [OF r(1)] r(2)
    by (auto simp: published_at_def db_index_inv_def dest: index_inv_repo_unique)
  from content_delete_other [OF this] show ?thesis
    unfolding db' by (simp add: content_def)
qed

lemma rows_frames:
  "db_symbols (heartbeat now c w db) = db_symbols db" "db_edges (heartbeat now c w db) = db_edges db"
  "db_symbols (record_freshness_plan c w m fb cc n db) = db_symbols db"
  "db_edges (record_freshness_plan c w m fb cc n db) = db_edges db"
  "db_symbols (stage now c w st nm pr sha db) = db_symbols db" "db_edges (stage now c w st nm pr sha db) = db_edges db"
  "db_symbols (mark_stale now c w code superseded db) = db_symbols db"
  "db_edges (mark_stale now c w code superseded db) = db_edges db"
  "db_symbols (cancel_revoked now c w db) = db_symbols db" "db_edges (cancel_revoked now c w db) = db_edges db"
  "db_symbols (snd (fail S now rnd c w code msg retryable db)) = db_symbols db"
  "db_edges (snd (fail S now rnd c w code msg retryable db)) = db_edges db"
  "db_symbols (revoke_public_access now repo db) = db_symbols db" "db_edges (revoke_public_access now repo db) = db_edges db"
  "db_symbols (snd (authorized_context S now c db)) = db_symbols db"
  "db_edges (snd (authorized_context S now c db)) = db_edges db"
  by (simp_all add: heartbeat_def record_freshness_plan_def stage_def mark_stale_def cancel_revoked_def fail_def
      revoke_public_access_def authorized_context_def Let_def split: option.split)

lemmas content_frames =
  content_cong [OF rows_frames(1,2)] content_cong [OF rows_frames(3,4)] content_cong [OF rows_frames(5,6)]
  content_cong [OF rows_frames(7,8)] content_cong [OF rows_frames(9,10)] content_cong [OF rows_frames(11,12)]
  content_cong [OF rows_frames(13,14)] content_cong [OF rows_frames(15,16)]

lemma rows_vectors:
  "record_vector_counts c w e v r q db = Inr db' \<Longrightarrow> db_symbols db' = db_symbols db \<and> db_edges db' = db_edges db
    \<and> db_repositories db' = db_repositories db"
  by (auto simp: record_vector_counts_def split: option.splits)

lemma validate_graph_update:
  "validate_graph D col c w db = Inr db' \<Longrightarrow> \<exists>P f. db' = update_builds P f db"
  unfolding validate_graph_def Let_def
  by (simp split: option.splits if_splits) blast+

lemma mark_build_ready_update:
  "mark_build_ready c w db = Inr db' \<Longrightarrow> \<exists>P f. db' = update_builds P f db"
  unfolding mark_build_ready_def Let_def
  by (simp split: option.splits if_splits) blast+

lemma rows_validate:
  "validate_graph D col c w db = Inr db' \<Longrightarrow> db_symbols db' = db_symbols db \<and> db_edges db' = db_edges db
    \<and> db_repositories db' = db_repositories db"
  by (drule validate_graph_update) auto

lemma rows_ready:
  "mark_build_ready c w db = Inr db' \<Longrightarrow> db_symbols db' = db_symbols db \<and> db_edges db' = db_edges db
    \<and> db_repositories db' = db_repositories db"
  by (drule mark_build_ready_update) auto

lemma rows_activate:
  "activate now c w sha db = Inr (previous, db') \<Longrightarrow> db_symbols db' = db_symbols db \<and> db_edges db' = db_edges db"
  by (elim activate_rowD) simp

lemma worker_content:
  assumes op: "worker_op S D col w c db db'" and pub: "published_at repo ver db" "db_index_inv db"
  shows "content repo ver db' = content repo ver db"
  using op
proof (cases rule: worker_op.cases)
  case (wop_context now ctx)
  show ?thesis unfolding snd_eqD [OF wop_context] by (simp add: content_frames)
next
  case (wop_fail now rnd code msg retryable again)
  show ?thesis unfolding snd_eqD [OF wop_fail] by (simp add: content_frames)
next
  case (wop_prepare sha d p fp)
  then show ?thesis using pub by (rule content_prepare)
next
  case (wop_superseded_cleanup now repo' ver')
  then show ?thesis using pub by (rule content_superseded_cleanup)
next
  case (wop_failed_cleanup now repo' ver' cleaned)
  show ?thesis unfolding wop_failed_cleanup using pub by (rule content_failed_cleanup)
next
  case (wop_vectors e v r q)
  then show ?thesis using rows_vectors by (blast intro: content_cong)
next
  case wop_validate
  then show ?thesis using rows_validate by (blast intro: content_cong)
next
  case wop_ready
  then show ?thesis using rows_ready by (blast intro: content_cong)
next
  case (wop_activate now sha previous)
  then show ?thesis using rows_activate by (blast intro: content_cong)
qed (simp_all add: content_frames)

lemma cores_failed_cleanup:
  "db_repositories (record_failed_build_cleanup now repo ver cleaned db) = db_repositories db"
  by (simp add: record_failed_build_cleanup_def Let_def split: option.split)

lemma cores_superseded_cleanup:
  "complete_superseded_cleanup now repo ver db = Inr db' \<Longrightarrow> db_repositories db' = db_repositories db"
  by (auto simp: complete_superseded_cleanup_def split: option.splits if_splits)

lemma cores_prepare:
  "prepare_build D S c w sha d p fp db = Inr db' \<Longrightarrow>
   map repo_core (db_repositories db') = map repo_core (db_repositories db)"
  by (elim prepare_buildD) (simp add: map_update_where repo_core_def)

lemma worker_cores:
  assumes op: "worker_op S D col w c db db'"
  shows "map repo_core (db_repositories db') = map repo_core (db_repositories db)
    \<or> (\<exists>now sha previous. activate now c w sha db = Inr (previous, db'))"
  using op
proof (cases rule: worker_op.cases)
  case (wop_context now ctx)
  show ?thesis unfolding snd_eqD [OF wop_context] by simp
next
  case (wop_fail now rnd code msg retryable again)
  show ?thesis unfolding snd_eqD [OF wop_fail] by simp
next
  case (wop_vectors e v r q)
  then show ?thesis using rows_vectors by metis
next
  case wop_validate
  then show ?thesis using rows_validate by metis
next
  case wop_ready
  then show ?thesis using rows_ready by metis
next
  case (wop_activate now sha previous)
  then show ?thesis by blast
qed (simp_all add: cores_failed_cleanup cores_superseded_cleanup cores_prepare)

section \<open>Versions\<close>

definition version_of :: "uuid \<Rightarrow> db \<Rightarrow> nat option" where
  "version_of repo db = map_of (map (\<lambda>r. (repo_id r, repo_index_version r)) (db_repositories db)) repo"

definition core_versions where
  "core_versions = map (\<lambda>(i, v, n, sha). (i, v :: nat))"

lemma version_of_core: "version_of repo db = map_of (core_versions (map repo_core (db_repositories db))) repo"
  by (simp add: version_of_def core_versions_def repo_core_def comp_def)

lemma version_of_kept: "cores_kept db db' \<Longrightarrow> version_of repo db = Some v \<Longrightarrow> version_of repo db' = Some v"
  unfolding cores_kept_def version_of_core
proof (elim exE conjE)
  fix rs assume "map repo_core (db_repositories db') = map repo_core (db_repositories db @ rs)"
    and v: "map_of (core_versions (map repo_core (db_repositories db))) repo = Some v"
  then show "map_of (core_versions (map repo_core (db_repositories db'))) repo = Some v"
    using v by (simp only: core_versions_def map_append map_of_append map_add_find_right)
qed

lemma version_of_member: "version_of repo db = Some v \<Longrightarrow>
    \<exists>r \<in> set (db_repositories db). repo_id r = repo \<and> repo_index_version r = v"
  unfolding version_of_def by (drule map_of_SomeD) auto

lemma version_of_eq:
  assumes "distinct (map repo_id (db_repositories db))" and "r \<in> set (db_repositories db)"
  shows "version_of (repo_id r) db = Some (repo_index_version r)"
  unfolding version_of_def using assms by (intro map_of_is_SomeI) (auto simp: comp_def)

lemma version_published: "version_of repo db = Some v \<Longrightarrow> 0 < v \<Longrightarrow> published_at repo v db"
  using version_of_member by (fastforce simp: published_at_def)

text \<open>The conditions under which a version is published, and what it then is.\<close>

definition publishes :: "string \<Rightarrow> claimed_job \<Rightarrow> uuid \<Rightarrow> nat \<Rightarrow> db \<Rightarrow> bool" where
  "publishes w c repo v db \<longleftrightarrow>
     (\<exists>j \<in> set (db_jobs db). \<exists>r \<in> set (db_repositories db). \<exists>b \<in> set (db_builds db).
        owned c w j \<and> job_repository_id j = repo \<and> repo_id r = repo
        \<and> job_target_index_version j = Some (v + 1)
        \<and> job_refresh_generation j = repo_refresh_generation r \<and> same_branch j r
        \<and> build_at repo (v + 1) b \<and> bld_job_id b = Some (cl_id c) \<and> bld_state b = READY \<and> build_complete b)"

lemma activated_repository_simps [simp]:
  "repo_id (activated_repository now tgt sha n del r) = repo_id r"
  "repo_index_version (activated_repository now tgt sha n del r) = tgt"
  by (simp_all add: activated_repository_def)

lemma update_where_rows:
  "update_where P f [] = []" "update_where P f (r # rs) = (if P r then f r else r) # update_where P f rs"
  by (simp_all add: update_where_def)

lemma map_of_update_version:
  "map_of (map (\<lambda>r. (repo_id r, repo_index_version r)) (update_where (\<lambda>x. repo_id x = a)
      (activated_repository now tgt sha n del) rs)) repo
   = (if repo = a \<and> (\<exists>r \<in> set rs. repo_id r = a) then Some tgt
      else map_of (map (\<lambda>r. (repo_id r, repo_index_version r)) rs) repo)"
proof (induction rs)
  case (Cons r rs)
  show ?case
    using Cons.IH by (cases "repo_id r = a"; cases "repo = a") (simp_all add: update_where_rows split: if_splits)
qed (simp add: update_where_rows)

lemma activate_version:
  assumes "activate now c w sha db = Inr (previous, db')" and "db_index_inv db"
    and "version_of repo db = Some v"
  shows "version_of repo db' = Some v \<or> version_of repo db' = Some (v + 1) \<and> publishes w c repo v db"
  using assms(1)
proof (rule activate_rowD)
  fix job :: indexing_job and r :: repository and b :: index_build
  assume job: "owned_job c w db = Some job" and r0: "repository_by_id (job_repository_id job) db = Some r"
    and tgt: "job_target_index_version job = Some (repo_index_version r + 1)"
    and gen: "job_refresh_generation job = repo_refresh_generation r" "same_branch job r"
    and b0: "select_first (activatable c (repo_id r) (repo_index_version r + 1) sha) (db_builds db) = Some b"
    and rs: "db_repositories db' = update_where (\<lambda>x. repo_id x = repo_id r)
      (activated_repository now (repo_index_version r + 1) sha (bld_vector_count b)
        (first_delivery (job_id job) db \<noteq> None)) (db_repositories db)"
  note r = repository_by_idD [OF r0]
  show ?thesis
  proof (cases "repo = repo_id r")
    case False
    then show ?thesis using assms(3) by (simp add: version_of_def rs map_of_update_version)
  next
    case True
    have "distinct (map repo_id (db_repositories db))"
      using assms(2) by (simp add: db_index_inv_def index_inv_def)
    from version_of_eq [OF this conjunct1 [OF r]] True assms(3) have v: "repo_index_version r = v" by simp
    have "\<exists>x \<in> set (db_repositories db). repo_id x = repo_id r" using r by blast
    then have "version_of repo db' = Some (v + 1)"
      by (simp add: version_of_def rs map_of_update_version True v)
    moreover have b: "b \<in> set (db_builds db)" "build_at repo (v + 1) b" "bld_job_id b = Some (cl_id c)"
      "bld_state b = READY" "build_complete b"
      using select_first_SomeD [OF b0] v True by (simp_all add: activatable_def)
    have "owned c w job \<and> job_repository_id job = repo \<and> repo_id r = repo
        \<and> job_target_index_version job = Some (v + 1)
        \<and> job_refresh_generation job = repo_refresh_generation r \<and> same_branch job r"
      using owned_jobD(2) [OF job] r tgt gen v True by simp
    then have "publishes w c repo v db"
      unfolding publishes_def using owned_jobD(1) [OF job] conjunct1 [OF r] b by blast
    ultimately show ?thesis by blast
  qed
qed

lemma outside_kept: "outside_op S A db db' \<Longrightarrow> cores_kept db db'"
  using outside_effect intake_cores cores_keptI recover_frame(4) by metis

lemma outside_content: "outside_op S A db db' \<Longrightarrow> content repo ver db' = content repo ver db"
  using outside_effect intake_content content_cong recover_frame(2,3) by metis

lemma claim_frame:
  assumes "claim now jid w db = (c, db')"
  shows "map repo_core (db_repositories db') = map repo_core (db_repositories db)"
    and "content repo ver db' = content repo ver db" and "db_builds db' = db_builds db"
proof -
  have "map repo_core (db_repositories db') = map repo_core (db_repositories db)
      \<and> db_symbols db' = db_symbols db \<and> db_edges db' = db_edges db \<and> db_builds db' = db_builds db"
  proof (cases c)
    case None
    then show ?thesis using claim_none [of now jid w db db'] assms by simp
  next
    case (Some c')
    with assms have "claim now jid w db = (Some c', db')" by simp
    then show ?thesis by (rule claim_rowD) (simp add: map_update_where repo_core_def)
  qed
  then show "map repo_core (db_repositories db') = map repo_core (db_repositories db)"
    and "content repo ver db' = content repo ver db" and "db_builds db' = db_builds db"
    by (simp_all add: content_def)
qed

lemma step_version:
  assumes "sys_step S D col A s t" and "sys_inv S s" and "version_of repo (sys_db s) = Some v"
  shows "version_of repo (sys_db t) = Some v
    \<or> version_of repo (sys_db t) = Some (v + 1)
      \<and> (\<exists>w c. sys_claims s w = Some c \<and> publishes w c repo v (sys_db s))"
  using assms(1)
proof (cases rule: sys_step.cases)
  case (step_claim w now jid c db')
  with assms(3) show ?thesis
    using claim_frame(1) [OF step_claim(3)] by (simp add: version_of_core)
next
  case (step_worker w c db')
  from worker_cores [OF step_worker(3)] show ?thesis
  proof
    assume "map repo_core (db_repositories db') = map repo_core (db_repositories (sys_db s))"
    with step_worker assms(3) show ?thesis by (simp add: version_of_core)
  next
    assume "\<exists>now sha previous. activate now c w sha (sys_db s) = Inr (previous, db')"
    then obtain now sha previous where act: "activate now c w sha (sys_db s) = Inr (previous, db')"
      by blast
    have "db_index_inv (sys_db s)" using assms(2) by (simp add: sys_inv_def)
    from activate_version [OF act this assms(3)] step_worker(1,2) show ?thesis by auto
  qed
next
  case (step_outside db')
  then show ?thesis using version_of_kept [OF outside_kept assms(3)] by auto
qed (use assms(3) in simp)

lemma step_content:
  assumes "sys_step S D col A s t" and "sys_inv S s" and "published_at repo ver (sys_db s)"
  shows "content repo ver (sys_db t) = content repo ver (sys_db s)"
  using assms(1)
proof (cases rule: sys_step.cases)
  case (step_claim w now jid c db')
  then show ?thesis using claim_frame(2) by simp
next
  case (step_worker w c db')
  then show ?thesis using worker_content assms(2,3) unfolding sys_inv_def by simp
next
  case (step_outside db')
  then show ?thesis using outside_content by simp
qed simp

section \<open>Finished jobs\<close>

definition finished :: "indexing_job_status \<Rightarrow> bool" where
  "finished st \<longleftrightarrow> st = COMPLETE \<or> st = FAILED \<or> st = CANCELLED"

definition has_core :: "uuid \<Rightarrow> indexing_job_status \<Rightarrow> nat \<Rightarrow> db \<Rightarrow> bool" where
  "has_core jid st n db \<longleftrightarrow> (\<exists>j \<in> set (db_jobs db). job_id j = jid \<and> job_status j = st \<and> job_attempt j = n)"

lemma has_core_map:
  "has_core jid st n db \<longleftrightarrow> (\<exists>k \<in> set (map job_core (db_jobs db)). \<exists>r l. k = (jid, r, st, n, l))"
  by (auto simp: has_core_def job_core_def)

lemma has_core_cong: "map job_core (db_jobs db') = map job_core (db_jobs db) \<Longrightarrow> has_core jid st n db' = has_core jid st n db"
  unfolding has_core_map by metis

lemma has_core_intake: "intake db db' \<Longrightarrow> has_core jid st n db \<Longrightarrow> has_core jid st n db'"
proof -
  assume "intake db db'" and core: "has_core jid st n db"
  then obtain js where "map job_core (db_jobs db') = map job_core (db_jobs db @ js)"
    unfolding intake_def by blast
  then have "map job_core (db_jobs db') = map job_core (db_jobs db) @ map job_core js" by simp
  with core show ?thesis unfolding has_core_map by (metis UnCI set_append)
qed

lemma has_core_update:
  assumes "has_core jid st n db" and "db_jobs db' = update_where P f (db_jobs db)"
    and "\<And>j. j \<in> set (db_jobs db) \<Longrightarrow> P j \<Longrightarrow> job_id j = jid \<Longrightarrow> job_status j = st \<Longrightarrow> False"
  shows "has_core jid st n db'"
proof -
  from assms(1) obtain j where j: "j \<in> set (db_jobs db)" "job_id j = jid" "job_status j = st" "job_attempt j = n"
    unfolding has_core_def by blast
  with assms(3) have "\<not> P j" by blast
  with j(1) have "j \<in> set (db_jobs db')" unfolding assms(2) set_update_where by force
  with j show ?thesis unfolding has_core_def by blast
qed

lemma has_core_recover:
  assumes "recover_abandoned S now db = (m, db')" and inv: "jobs_inv S (db_jobs db)"
    and "has_core jid st n db" and "st \<noteq> RUNNING"
  shows "has_core jid st n db'"
proof -
  have "has_core jid st n (fold (recover_job S now) js d)"
    if "has_core jid st n d" "\<forall>j \<in> set js. job_id j \<noteq> jid" for js d
    using that
  proof (induction js arbitrary: d)
    case (Cons a js)
    have "has_core jid st n (recover_job S now a d)"
      by (rule has_core_update [OF Cons.prems(1) recover_job_jobs]) (use Cons.prems(2) in auto)
    with Cons show ?case by simp
  qed simp
  moreover have "job_id j \<noteq> jid" if "j \<in> set (db_jobs db)" "job_status j = RUNNING" for j
    using that assms(3,4) jobs_inv_unique [OF inv] unfolding has_core_def by blast
  ultimately show ?thesis
    using assms(1,3) by (auto simp: recover_abandoned_def Let_def abandoned_def)
qed

lemma step_finished:
  assumes "sys_step S D col A s t" and inv: "sys_inv S s" and core: "has_core jid st n (sys_db s)" and "finished st"
  shows "has_core jid st n (sys_db t)"
proof -
  have js: "jobs_inv S (db_jobs (sys_db s))" using inv by (simp add: sys_inv_def)
  have same: "job_status j = st" if "j \<in> set (db_jobs (sys_db s))" "job_id j = jid" for j
    using core that jobs_inv_unique [OF js] unfolding has_core_def by blast
  have idle: "st \<noteq> RUNNING" "\<not> claimable now j" if "job_status j = st" for now j
    using assms(4) that by (auto simp: finished_def claimable_def)
  show ?thesis
    using assms(1)
  proof (cases rule: sys_step.cases)
    case (step_claim w now jid' c db')
    from step_claim(3) obtain f where
      "db_jobs db' = update_where (\<lambda>x. job_id x = jid' \<and> claimable now x) f (db_jobs (sys_db s))"
      by (elim claim_rowD) blast
    from has_core_update [OF core this] idle(2) step_claim(1) show ?thesis by auto
  next
    case (step_worker w c db')
    have "has_core jid st n db'"
      using worker_jobs_effect [OF step_worker(3) js]
    proof
      assume "\<exists>job f. owned_job c w (sys_db s) = Some job \<and> released job f (sys_db s) db'"
      then obtain job f where job: "owned_job c w (sys_db s) = Some job"
        and rel: "db_jobs db' = update_where (\<lambda>x. job_id x = job_id job) f (db_jobs (sys_db s))"
        by (auto simp: released_def)
      have "job_id job \<noteq> jid"
        using same [of job] owned_jobD(1,4) [OF job] idle(1) assms(4) by (auto simp: finished_def)
      with has_core_update [OF core rel] show ?thesis by auto
    qed (use core has_core_cong in blast)
    with step_worker(1) show ?thesis by simp
  next
    case (step_outside db')
    from outside_effect [OF step_outside(2)] have "has_core jid st n db'"
    proof
      assume "\<exists>now m. recover_abandoned S now (sys_db s) = (m, db')"
      then show ?thesis using has_core_recover [OF _ js core] assms(4) by (auto simp: finished_def)
    qed (use has_core_intake core in blast)
    with step_outside(1) show ?thesis by simp
  qed (use core in simp)
qed

section \<open>From steps to runs\<close>

lemma steps_finished:
  assumes "sys_steps S D col A s t" and "sys_inv S s" and "0 < st_max_attempts S"
    and "has_core jid st n (sys_db s)" and "finished st"
  shows "has_core jid st n (sys_db t)"
  using assms by (induction rule: sys_steps.induct) (auto intro: step_finished sys_steps_inv)

lemma steps_version:
  assumes "sys_steps S D col A s t" and "sys_inv S s" and "0 < st_max_attempts S"
    and "version_of repo (sys_db s) = Some v"
  shows "\<exists>v' \<ge> v. version_of repo (sys_db t) = Some v'"
  using assms
proof (induction rule: sys_steps.induct)
  case (steps_step s t u)
  then obtain v' where "v \<le> v'" "version_of repo (sys_db t) = Some v'" by blast
  with step_version [OF steps_step.hyps(2) sys_steps_inv [OF steps_step.hyps(1) steps_step.prems(1,2)]]
  show ?case by fastforce
qed auto

lemma steps_content:
  assumes "sys_steps S D col A s t" and "sys_inv S s" and "0 < st_max_attempts S"
    and "version_of repo (sys_db s) = Some v" and "0 < v" and "version_of repo (sys_db t) = Some v"
  shows "content repo v (sys_db t) = content repo v (sys_db s)"
  using assms
proof (induction rule: sys_steps.induct)
  case (steps_step s t u)
  note inv = sys_steps_inv [OF steps_step.hyps(1) steps_step.prems(1,2)]
  obtain v' where v': "v \<le> v'" "version_of repo (sys_db t) = Some v'"
    using steps_version [OF steps_step.hyps(1) steps_step.prems(1,2,3)] by blast
  with step_version [OF steps_step.hyps(2) inv v'(2)] steps_step.prems(5) have "v' = v" by auto
  with v' steps_step have "content repo v (sys_db t) = content repo v (sys_db s)" by blast
  moreover have "content repo v (sys_db u) = content repo v (sys_db t)"
    using step_content [OF steps_step.hyps(2) inv version_published] v'(2) \<open>v' = v\<close> \<open>0 < v\<close> by blast
  ultimately show ?case by simp
qed simp

end
