(* ===== verification/SampleRun.thy ===== *)
theory SampleRun
  imports Pipeline
begin

text \<open>
  A concrete run: a user imports a public repository of one document, a worker claims the job,
  builds, validates and publishes version 1. A second run fails after the build was prepared. The
  states are used to show that the hypotheses of the pipeline theorems can hold.
\<close>

definition run_store :: store_settings where
  "run_store = \<lparr>st_membership_ttl_seconds = 60, st_abandoned_after_seconds = 60, st_max_attempts = 3,
     st_retry_base_seconds = 5, st_retry_max_seconds = 60, st_embedding_model_identifier = ''m'',
     st_embedding_model_revision = ''r'', st_embedding_dimension = 2\<rparr>"

definition run_access :: access_settings where
  "run_access = \<lparr>as_membership_ttl_seconds = 60, as_visibility_ttl_seconds = 60, as_repository_limit = 5,
     as_active_limit = 2, as_max_repository_bytes = 4096\<rparr>"

definition run_digests :: digests where
  "run_digests = \<lparr>sha256_hex = (\<lambda>_. ''f''), uuid5 = (\<lambda>_ _. 1), xid_start = (\<lambda>_. False),
     xid_continue = (\<lambda>_. False)\<rparr>"

definition run_collate :: "pystr \<Rightarrow> pystr" where
  "run_collate s = s"

definition run_repository :: "string \<Rightarrow> public_github_repository" where
  "run_repository sha = \<lparr>pm_repository = \<lparr>gr_id = 42, gr_owner_login = ''o'', gr_name = ''n'',
     gr_full_name = ''o/n'', gr_html_url = ''h'', gr_private = False, gr_default_branch = ''main'',
     gr_language = None, gr_size = Some 1\<rparr>, pm_default_branch_sha = sha\<rparr>"

definition run_discovery :: discovery_result where
  "run_discovery = \<lparr>dr_files = [], dr_inspected_file_count = 0, dr_total_bytes = 0, dr_skipped = []\<rparr>"

definition run_processing :: "nat \<Rightarrow> string \<Rightarrow> processing_result" where
  "run_processing ver sha = \<lparr>pr_repository_id = 7, pr_index_version = ver, pr_commit_sha = sha,
     pr_parsed_file_count = 0, pr_partial_file_count = 0, pr_skipped_file_count = 0, pr_symbol_count = 0,
     pr_chunk_count = 1, pr_warning_counts = [], pr_symbols = [], pr_chunk_fingerprints = [],
     pr_chunks = [], pr_call_site_count = 0, pr_exact_edge_count = 0, pr_ambiguous_edge_count = 0,
     pr_unresolved_call_count = 0, pr_graph_warning_count = 0, pr_graph_fingerprint = ''f'',
     pr_call_edges = []\<rparr>"

definition run_claim :: claimed_job where
  "run_claim = \<lparr>cl_id = 100, cl_repository_id = 7, cl_attempt = 1\<rparr>"

text \<open>Imported: the repository row, the membership and the queued job.\<close>

definition run_job :: indexing_job where
  "run_job = queued_job 100 1 7 (Some 9) INITIAL_INDEX (Some ''c'') (Some ''main'') (Some FULL) None 0"

definition run_row :: repository where
  "run_row = attach_identity 1 (run_repository ''c'') (new_repository 7 None PUBLIC (pm_repository (run_repository ''c'')))"

definition run_imported :: db where
  "run_imported = empty_db\<lparr>db_jobs := [run_job\<lparr>job_last_enqueued_at := Some 1\<rparr>],
     db_repositories := [run_row\<lparr>repo_indexing_status := R_QUEUED, repo_indexing_progress := 0,
       repo_indexing_stage := Some ''queued''\<rparr>],
     db_user_repositories := [\<lparr>ur_user_id = 9, ur_repository_id = 7\<rparr>]\<rparr>"

lemmas run_defs = run_row_def attach_identity_def new_repository_def run_repository_def run_job_def queued_job_def
  run_imported_def empty_db_def run_claim_def

lemmas store_eval = select_first_def update_where_def update_jobs_def update_repositories_def update_builds_def
  update_deliveries_def update_first_delivery_def first_delivery_def insert_job_def Let_def

lemma run_import:
  "\<exists>res. import_repository run_access 1 7 100 9 (PL_Found (run_repository ''c'')) empty_db = (Inr res, run_imported)"
  by (simp add: import_repository_def validate_size_def run_access_def attach_and_enqueue_def attach_def
      public_row_def attached_def attachments_def open_jobs_of_def attach_job_def active_build_of_def latest_job_def
      enqueued_def run_defs store_eval)

text \<open>Claimed, and given its target version.\<close>

definition run_claimed_row :: repository where
  "run_claimed_row = run_row\<lparr>repo_indexing_status := CLONING, repo_indexing_progress := 5,
     repo_indexing_stage := Some ''cloning''\<rparr>"

definition run_claimed_job :: indexing_job where
  "run_claimed_job = run_job\<lparr>job_last_enqueued_at := Some 1, job_status := RUNNING, job_attempt := 1,
     job_locked_by := Some ''w'', job_started_at := Some 2, job_heartbeat_at := Some 2\<rparr>"

definition run_held :: db where
  "run_held = run_imported\<lparr>db_jobs := [run_claimed_job], db_repositories := [run_claimed_row]\<rparr>"

lemma run_claims: "claim 2 100 ''w'' run_imported = (Some run_claim, run_held)"
  by (simp add: claim_def claimable_def one_running_ok_def running_of_def run_held_def run_claimed_row_def
      run_claimed_job_def due_by_def run_defs store_eval)

definition run_targeted :: db where
  "run_targeted = run_held\<lparr>db_jobs := [run_claimed_job\<lparr>job_target_index_version := Some 1\<rparr>]\<rparr>"

lemma run_context: "\<exists>ctx. authorized_context run_store 3 run_claim run_held = (Some ctx, run_targeted)"
  by (simp add: authorized_context_def repository_by_id_def access_granted_def requested_by_def
      run_held_def run_claimed_row_def run_claimed_job_def run_targeted_def run_defs store_eval)

text \<open>Prepared: a building row for version 1.\<close>

definition run_build :: index_build where
  "run_build = new_build run_store run_claim 7 ''c'' (run_processing 1 ''c'') ''p''"

definition run_prepared_job :: indexing_job where
  "run_prepared_job = run_claimed_job\<lparr>job_target_index_version := Some 1, job_source_commit_sha := Some ''c'',
     job_scan := scan_counts_of run_discovery (run_processing 1 ''c''),
     job_embedding := Some (embedding_of run_store ''p''),
     job_graph := graph_counts_of (run_processing 1 ''c'')\<rparr>"

definition run_prepared_row :: repository where
  "run_prepared_row = run_claimed_row\<lparr>repo_current_remote_sha := Some ''c'', repo_size_bytes := Some 0\<rparr>"

definition run_prepared :: db where
  "run_prepared = run_held\<lparr>db_jobs := [run_prepared_job], db_repositories := [run_prepared_row],
     db_builds := [run_build]\<rparr>"

lemmas run_defs2 = run_held_def run_claimed_row_def run_claimed_job_def run_targeted_def run_prepared_def
  run_prepared_job_def run_prepared_row_def run_build_def new_build_def run_processing_def run_discovery_def

lemma run_prepares:
  "prepare_build run_digests run_store run_claim ''w'' ''c'' run_discovery (run_processing 1 ''c'') ''p'' run_targeted
    = Inr run_prepared"
  by (simp add: prepare_build_def owned_job_repository_def owned_job_def owned_def repository_by_id_def
      build_taken_def store_build_def delete_version_symbols_def delete_where_def symbol_rows_def edge_rows_def
      build_job_unique_def symbol_keys_ok_def edge_keys_ok_def run_defs2 run_defs store_eval)

text \<open>Counted, validated, ready, published.\<close>

definition run_counted_job :: indexing_job where
  "run_counted_job = run_prepared_job\<lparr>job_vectors := \<lparr>vc_embedded_chunk_count = 1, vc_vector_count = 1,
     vc_reused_chunk_count = 0, vc_reembedded_chunk_count = 1\<rparr>\<rparr>"

definition run_counted :: db where
  "run_counted = run_prepared\<lparr>db_jobs := [run_counted_job],
     db_builds := [run_build\<lparr>bld_embedded_chunk_count := 1, bld_vector_count := 1\<rparr>]\<rparr>"

definition run_validated :: db where
  "run_validated = run_counted\<lparr>db_builds := [run_build\<lparr>bld_embedded_chunk_count := 1, bld_vector_count := 1,
     bld_graph_validated := True\<rparr>]\<rparr>"

definition run_ready_build :: index_build where
  "run_ready_build = run_build\<lparr>bld_embedded_chunk_count := 1, bld_vector_count := 1,
     bld_graph_validated := True, bld_state := READY\<rparr>"

definition run_ready :: db where
  "run_ready = run_counted\<lparr>db_builds := [run_ready_build]\<rparr>"

lemmas run_defs3 = run_counted_job_def run_counted_def run_validated_def run_ready_build_def run_ready_def

lemma run_counts: "record_vector_counts run_claim ''w'' 1 1 0 None run_prepared = Inr run_counted"
  by (simp add: record_vector_counts_def owned_job_def owned_def building_of_def build_at_def
      run_defs3 run_defs2 run_defs store_eval)

lemma run_validates: "validate_graph run_digests run_collate run_claim ''w'' run_counted = Inr run_validated"
  by (simp add: validate_graph_def owned_job_def owned_def building_of_def build_at_def version_edges_def
      count_edges_def graph_fingerprint_def run_digests_def graph_counts_of_def run_defs3 run_defs2 run_defs store_eval)

lemma run_readies: "mark_build_ready run_claim ''w'' run_validated = Inr run_ready"
  by (simp add: mark_build_ready_def owned_job_def owned_def building_of_def build_at_def build_complete_def
      build_checks_def run_defs3 run_defs2 run_defs store_eval)

definition run_active_row :: repository where
  "run_active_row = activated_repository 9 1 ''c'' 1 False run_prepared_row"

definition run_active :: db where
  "run_active = run_ready\<lparr>db_jobs := [run_counted_job\<lparr>job_status := COMPLETE, job_progress := 100,
       job_stage := Some ''complete'', job_target_commit_sha := Some ''c'', job_heartbeat_at := Some 9,
       job_completed_at := Some 9, job_locked_by := None\<rparr>],
     db_repositories := [run_active_row],
     db_builds := [run_ready_build\<lparr>bld_state := ACTIVE, bld_cleanup_status := NOT_REQUIRED,
       bld_activated_at := Some 9\<rparr>]\<rparr>"

lemma run_activates: "activate 9 run_claim ''w'' ''c'' run_ready = Inr (0, run_active)"
  by (simp add: activate_def owned_job_repository_def owned_job_def owned_def repository_by_id_def same_branch_def
      activatable_def build_at_def build_complete_def supersede_previous_def active_at_def one_active_ok_def active_of_def
      build_checks_def run_active_def run_active_row_def activated_repository_def run_defs3 run_defs2 run_defs store_eval)

text \<open>The other run: the job fails for good after its build was prepared.\<close>

definition run_failed :: db where
  "run_failed = snd (fail run_store 9 0 run_claim ''w'' ''e'' ''m'' False run_prepared)"

section \<open>The states are reachable\<close>

definition run_state :: "db \<Rightarrow> bool \<Rightarrow> system" where
  "run_state db busy = \<lparr>sys_db = db, sys_claims = (if busy then (\<lambda>_. None)(''w'' := Some run_claim) else (\<lambda>_. None))\<rparr>"

abbreviation run_reachable :: "db \<Rightarrow> bool \<Rightarrow> bool" where
  "run_reachable db busy \<equiv> reachable run_store run_digests run_collate run_access (run_state db busy)"

lemma run_reach_worker:
  assumes "run_reachable db True" and "worker_op run_store run_digests run_collate ''w'' run_claim db db'"
  shows "run_reachable db' True"
  using reach_step [OF assms(1) step_worker [of _ "''w''" run_claim _ _ _ db']] assms(2)
  by (simp add: run_state_def)

lemma run_reach_outside:
  assumes "run_reachable db busy" and "outside_op run_store run_access db db'"
  shows "run_reachable db' busy"
  using reach_step [OF assms(1) step_outside [of _ _ _ db']] assms(2) by (simp add: run_state_def)

lemma run_reach_empty: "run_reachable empty_db False"
  using reach_init [of empty_db] by (simp add: unused_db_def empty_db_def run_state_def initial_system_def)

lemma run_reach_imported: "run_reachable run_imported False"
proof -
  obtain res where "import_repository run_access 1 7 100 9 (PL_Found (run_repository ''c'')) empty_db = (Inr res, run_imported)"
    using run_import by blast
  then show ?thesis
    by (rule run_reach_outside [OF run_reach_empty out_import]) (simp add: fresh_row_ids_def empty_db_def)
qed

lemma run_reach_held: "run_reachable run_held True"
  using reach_step [OF run_reach_imported step_claim [of _ "''w''" 2 100 run_claim run_held]] run_claims
  by (simp add: run_state_def)

lemma run_reach_targeted: "run_reachable run_targeted True"
  using run_context run_reach_worker [OF run_reach_held wop_context] by blast

lemma run_reach_prepared: "run_reachable run_prepared True"
  by (rule run_reach_worker [OF run_reach_targeted wop_prepare [OF run_prepares]])

lemma run_reach_ready: "run_reachable run_ready True"
  by (rule run_reach_worker [OF run_reach_worker [OF run_reach_worker [OF run_reach_prepared
    wop_vectors [OF run_counts]] wop_validate [OF run_validates]] wop_ready [OF run_readies]])

lemma run_reach_active: "run_reachable run_active True"
  by (rule run_reach_worker [OF run_reach_ready wop_activate [OF run_activates]])

lemma run_reach_failed: "run_reachable run_failed True"
  unfolding run_failed_def
  by (rule run_reach_worker [OF run_reach_prepared wop_fail]) (rule prod.collapse [symmetric])

lemma run_attempts: "0 < st_max_attempts run_store"
  by (simp add: run_store_def)

end
