(* ===== verification/DeadEnd.thy ===== *)
theory DeadEnd
  imports SampleRun
begin

text \<open>
  A repository that can never be indexed again. \<open>prepare_build\<close> refuses a build row of another job;
  a row keeps the job that prepared it when that job fails, is superseded or is abandoned. So once a
  job ends after \<open>prepare_build\<close> without publishing, the next version of its repository belongs to a
  finished job for ever.
\<close>

section \<open>Who a build belongs to\<close>

definition build_owner :: "index_build \<Rightarrow> (uuid \<times> nat) \<times> uuid option" where
  "build_owner b = (build_key b, bld_job_id b)"

definition owners :: "db \<Rightarrow> ((uuid \<times> nat) \<times> uuid option) list" where
  "owners db = map build_owner (db_builds db)"

lemma owners_update:
  "(\<And>b. P b \<Longrightarrow> build_owner (f b) = build_owner b) \<Longrightarrow>
   map build_owner (update_where P f bs) = map build_owner bs"
  by (simp add: map_update_where)

lemma owners_frame: "db_builds db' = db_builds db \<Longrightarrow> owners db' = owners db"
  by (simp add: owners_def)

lemma owners_vectors:
  "record_vector_counts c w e v r q db = Inr db' \<Longrightarrow> owners db' = owners db"
  by (auto simp: record_vector_counts_def owners_def build_owner_def build_key_def
      intro!: owners_update split: option.splits)

lemma owners_validate:
  assumes "validate_graph D col c w db = Inr db'"
  shows "owners db' = owners db"
proof -
  from assms obtain ver where "db_builds db' = update_where (building_of c ver)
      (\<lambda>b. b\<lparr>bld_graph_validated := True\<rparr>) (db_builds db)"
    by (auto simp: validate_graph_def Let_def split: option.splits if_splits)
  then show ?thesis by (simp add: owners_def owners_update build_owner_def build_key_def)
qed

lemma owners_ready:
  assumes "mark_build_ready c w db = Inr db'"
  shows "owners db' = owners db"
proof -
  from assms obtain ver where "db_builds db' = update_where (\<lambda>b. building_of c ver b \<and> build_complete b)
      (\<lambda>b. b\<lparr>bld_state := READY\<rparr>) (db_builds db)"
    by (auto simp: mark_build_ready_def Let_def split: option.splits if_splits)
  then show ?thesis by (simp add: owners_def owners_update build_owner_def build_key_def)
qed

lemma owners_activate:
  assumes "activate now c w sha db = Inr (previous, db')"
  shows "owners db' = owners db"
proof -
  from assms obtain r :: repository where "db_builds db' = update_where (build_at (repo_id r) (repo_index_version r + 1))
      (\<lambda>b. b\<lparr>bld_state := ACTIVE, bld_cleanup_status := NOT_REQUIRED, bld_activated_at := Some now\<rparr>)
      (db_builds (supersede_previous (repo_id r) (repo_index_version r) db))"
    by (elim activate_rowD) blast
  then show ?thesis
    by (simp add: owners_def owners_update build_owner_def build_key_def supersede_previous_def)
qed

lemma owners_failed_cleanup: "owners (record_failed_build_cleanup now repo ver cleaned db) = owners db"
  by (simp add: owners_def owners_update build_owner_def build_key_def record_failed_build_cleanup_def Let_def
      split: option.split)

lemma owners_superseded_cleanup:
  "complete_superseded_cleanup now repo ver db = Inr db' \<Longrightarrow> owners db' = owners db"
  by (auto simp: owners_def owners_update build_owner_def build_key_def complete_superseded_cleanup_def
      split: option.splits if_splits)

text \<open>Preparing a build takes over only a row of no job, or of the same job.\<close>

lemma owners_prepare:
  assumes "prepare_build D S c w sha d p fp db = Inr db'" and "((repo, ver), Some jid) \<in> set (owners db)"
    and "jid \<noteq> cl_id c" and inv: "db_index_inv db"
  shows "((repo, ver), Some jid) \<in> set (owners db')"
  using assms(1)
proof (rule prepare_buildD)
  fix job r
  assume free: "\<not> build_taken c (repo_id r) (pr_index_version p) db"
    and bs: "db_builds db' = db_builds (store_build S c (repo_id r) sha p fp db)"
  from assms(2) obtain b where b: "b \<in> set (db_builds db)" "build_key b = (repo, ver)" "bld_job_id b = Some jid"
    by (auto simp: owners_def build_owner_def)
  have "\<not> build_at (repo_id r) (pr_index_version p) b"
  proof
    assume at: "build_at (repo_id r) (pr_index_version p) b"
    then obtain b' where b': "select_first (build_at (repo_id r) (pr_index_version p)) (db_builds db) = Some b'"
      using b(1) by (cases "select_first (build_at (repo_id r) (pr_index_version p)) (db_builds db)")
        (auto simp: select_first_None)
    have "b' = b"
      using index_inv_build_unique [OF inv [unfolded db_index_inv_def], of b' b] select_first_SomeD [OF b'] at b(1)
      by (simp add: build_at_def build_key_def)
    with free b' b(3) assms(3) show False by (simp add: build_taken_def)
  qed
  with b(1) have "b \<in> set (db_builds db')"
    unfolding bs store_build_def by (force simp: set_update_where split: option.split)
  with b(2,3) show ?thesis by (force simp: owners_def build_owner_def)
qed

lemma worker_owners:
  assumes op: "worker_op S D col w c db db'" and "((repo, ver), Some jid) \<in> set (owners db)"
    and "owned_job c w db = None \<or> jid \<noteq> cl_id c" and inv: "db_index_inv db"
  shows "((repo, ver), Some jid) \<in> set (owners db')"
  using op
proof (cases rule: worker_op.cases)
  case (wop_prepare sha d p fp)
  then have "owned_job c w db \<noteq> None" by (auto elim!: prepare_buildD)
  with assms(3) have "jid \<noteq> cl_id c" by simp
  then show ?thesis by (rule owners_prepare [OF wop_prepare assms(2) _ inv])
next
  case (wop_context now ctx)
  show ?thesis unfolding snd_eqD [OF wop_context] using assms(2) by (simp add: owners_def)
next
  case (wop_fail now rnd code msg retryable again)
  show ?thesis unfolding snd_eqD [OF wop_fail] using assms(2) by (simp add: owners_def)
next
  case (wop_vectors e v r q)
  then show ?thesis using owners_vectors assms(2) by metis
next
  case wop_validate
  then show ?thesis using owners_validate assms(2) by metis
next
  case wop_ready
  then show ?thesis using owners_ready assms(2) by metis
next
  case (wop_activate now sha previous)
  then show ?thesis using owners_activate assms(2) by metis
next
  case (wop_superseded_cleanup now repo' ver')
  then show ?thesis using owners_superseded_cleanup assms(2) by metis
next
  case (wop_failed_cleanup now repo' ver' cleaned)
  show ?thesis unfolding wop_failed_cleanup using assms(2) by (simp add: owners_failed_cleanup)
qed (use assms(2) in \<open>simp_all add: owners_def\<close>)

section \<open>The dead end\<close>

definition dead_end :: "uuid \<Rightarrow> nat \<Rightarrow> uuid \<Rightarrow> db \<Rightarrow> bool" where
  "dead_end repo v jid db \<longleftrightarrow>
     version_of repo db = Some v \<and> ((repo, v + 1), Some jid) \<in> set (owners db)
     \<and> (\<exists>st n. finished st \<and> has_core jid st n db)"

lemma outside_owners: "outside_op S A db db' \<Longrightarrow> owners db' = owners db"
  using outside_effect recover_frame(1) owners_frame intake_def by metis

lemma finished_not_owned:
  assumes "jobs_inv S (db_jobs db)" and "has_core jid st n db" and "finished st"
    and "owned c w j" and "j \<in> set (db_jobs db)"
  shows "cl_id c \<noteq> jid"
proof
  assume same: "cl_id c = jid"
  from assms(2) obtain x where x: "x \<in> set (db_jobs db)" "job_id x = jid" "job_status x = st"
    unfolding has_core_def by blast
  have "x = j" using jobs_inv_unique [OF assms(1) x(1) assms(5)] x(2) assms(4) same by (simp add: owned_def)
  with x(3) assms(3,4) show False by (auto simp: owned_def finished_def)
qed

lemma dead_end_step:
  assumes step: "sys_step S D col A s t" and inv: "sys_inv S s" and dead: "dead_end repo v jid (sys_db s)"
  shows "dead_end repo v jid (sys_db t)"
proof -
  from dead obtain st n where v: "version_of repo (sys_db s) = Some v"
    and own: "((repo, v + 1), Some jid) \<in> set (owners (sys_db s))"
    and fin: "finished st" and core: "has_core jid st n (sys_db s)"
    unfolding dead_end_def by blast
  have js: "jobs_inv S (db_jobs (sys_db s))" and ix: "db_index_inv (sys_db s)"
    using inv by (simp_all add: sys_inv_def)
  have not_owned: "cl_id c \<noteq> jid" if "owned c w j" "j \<in> set (db_jobs (sys_db s))" for c w j
    using finished_not_owned [OF js core fin that] .
  have "\<not> publishes w c repo v (sys_db s)" for w c
  proof
    assume "publishes w c repo v (sys_db s)"
    then obtain j b where j: "j \<in> set (db_jobs (sys_db s))" "owned c w j"
      and b: "b \<in> set (db_builds (sys_db s))" "build_at repo (v + 1) b" "bld_job_id b = Some (cl_id c)"
      unfolding publishes_def by blast
    from own obtain b' where b': "b' \<in> set (db_builds (sys_db s))" "build_key b' = (repo, v + 1)"
      "bld_job_id b' = Some jid"
      by (auto simp: owners_def build_owner_def)
    have "b' = b"
      using index_inv_build_unique [OF ix [unfolded db_index_inv_def] b'(1) b(1)] b'(2) b(2)
      by (simp add: build_at_def build_key_def)
    with b(3) b'(3) not_owned [OF j(2,1)] show False by simp
  qed
  with step_version [OF step inv v] have "version_of repo (sys_db t) = Some v" by blast
  moreover have "((repo, v + 1), Some jid) \<in> set (owners (sys_db t))"
    using step
  proof (cases rule: sys_step.cases)
    case (step_claim w now jid' c db')
    then show ?thesis using own claim_frame(3) [OF step_claim(3)] by (simp add: owners_def)
  next
    case (step_worker w c db')
    have "owned_job c w (sys_db s) = None \<or> jid \<noteq> cl_id c"
    proof (cases "owned_job c w (sys_db s)")
      case (Some j)
      from not_owned [OF owned_jobD(2,1) [OF this]] show ?thesis by simp
    qed simp
    from worker_owners [OF step_worker(3) own this ix] step_worker(1) show ?thesis by simp
  next
    case (step_outside db')
    then show ?thesis using own outside_owners [OF step_outside(2)] by simp
  qed (use own in simp)
  moreover have "has_core jid st n (sys_db t)" by (rule step_finished [OF step inv core fin])
  ultimately show ?thesis using fin unfolding dead_end_def by blast
qed

lemma dead_end_steps:
  assumes "sys_steps S D col A s t" and "sys_inv S s" and "0 < st_max_attempts S" and "dead_end repo v jid (sys_db s)"
  shows "dead_end repo v jid (sys_db t)"
  using assms by (induction rule: sys_steps.induct) (auto intro: dead_end_step sys_steps_inv)

lemma prepare_refused:
  assumes "sys_inv S t" and "dead_end repo v jid (sys_db t)" and "pr_repository_id p = repo"
    and "sys_claims t w = Some c"
  shows "prepare_build D S c w sha d p fp (sys_db t) \<noteq> Inr db'"
proof
  assume prep: "prepare_build D S c w sha d p fp (sys_db t) = Inr db'"
  then show False
  proof (rule prepare_buildD)
    fix job r
    assume job: "owned_job c w (sys_db t) = Some job"
      and r0: "repository_by_id (job_repository_id job) (sys_db t) = Some r"
      and ver: "pr_index_version p = repo_index_version r + 1"
      and p: "pr_repository_id p = cl_repository_id c"
      and free: "\<not> build_taken c (repo_id r) (pr_index_version p) (sys_db t)"
    from assms(2) obtain st n where v: "version_of repo (sys_db t) = Some v"
      and own: "((repo, v + 1), Some jid) \<in> set (owners (sys_db t))"
      and fin: "finished st" and core: "has_core jid st n (sys_db t)"
      unfolding dead_end_def by blast
    have js: "jobs_inv S (db_jobs (sys_db t))" and ix: "db_index_inv (sys_db t)"
      and tok: "token_ok w c (db_jobs (sys_db t))"
      using assms(1,4) by (simp_all add: sys_inv_def)
    note r = repository_by_idD [OF r0]
    have "job_repository_id job = cl_repository_id c"
      using tok owned_jobD(1,2) [OF job] by (simp add: token_ok_def)
    with r p assms(3) have rid: "repo_id r = repo" by simp
    have "distinct (map repo_id (db_repositories (sys_db t)))"
      using ix by (simp add: db_index_inv_def index_inv_def)
    from version_of_eq [OF this conjunct1 [OF r]] rid v have rv: "repo_index_version r = v" by simp
    from own obtain b where b: "b \<in> set (db_builds (sys_db t))" "build_key b = (repo, v + 1)" "bld_job_id b = Some jid"
      by (auto simp: owners_def build_owner_def)
    have at: "build_at repo (v + 1) b" using b(2) by (simp add: build_at_def build_key_def)
    obtain b' where b': "select_first (build_at repo (v + 1)) (db_builds (sys_db t)) = Some b'"
      using b(1) at by (cases "select_first (build_at repo (v + 1)) (db_builds (sys_db t))") (auto simp: select_first_None)
    have "b' = b"
      using index_inv_build_unique [OF ix [unfolded db_index_inv_def], of b' b] select_first_SomeD [OF b'] at b(1)
      by (simp add: build_at_def build_key_def)
    with free b' b(3) rid rv ver have "cl_id c = jid" by (simp add: build_taken_def)
    with finished_not_owned [OF js core fin owned_jobD(2,1) [OF job]] show False by simp
  qed
qed

text \<open>
  C23: Once the row of the next version of a repository belongs to a job that has ended, every
  \<open>prepare_build\<close> of any worker for that repository fails, in every continuation, and the repository
  keeps its index version for ever: no later push, reindex or refresh can index it.
\<close>

theorem left_over_build_blocks_repository:
  assumes "reachable S D col A s" and "0 < st_max_attempts S"
    and "b \<in> set (db_builds (sys_db s))" and "r \<in> set (db_repositories (sys_db s))"
    and "bld_repository_id b = repo_id r" and "bld_index_version b = repo_index_version r + 1"
    and "bld_job_id b = Some (job_id j)" and "j \<in> set (db_jobs (sys_db s))" and "finished (job_status j)"
    and "sys_steps S D col A s t"
  shows "(\<exists>r' \<in> set (db_repositories (sys_db t)). repo_id r' = repo_id r \<and> repo_index_version r' = repo_index_version r)
    \<and> (\<forall>c w sha d p fp db'. pr_repository_id p = repo_id r \<longrightarrow> sys_claims t w = Some c \<longrightarrow>
         prepare_build D S c w sha d p fp (sys_db t) \<noteq> Inr db')"
proof -
  have inv: "sys_inv S s" by (rule reachable_inv [OF assms(1,2)])
  have "distinct (map repo_id (db_repositories (sys_db s)))"
    using inv by (simp add: sys_inv_def db_index_inv_def index_inv_def)
  from version_of_eq [OF this assms(4)] have "version_of (repo_id r) (sys_db s) = Some (repo_index_version r)" .
  moreover have "((repo_id r, repo_index_version r + 1), Some (job_id j)) \<in> set (owners (sys_db s))"
    using assms(3,5,6,7) by (force simp: owners_def build_owner_def build_key_def)
  moreover have "has_core (job_id j) (job_status j) (job_attempt j) (sys_db s)"
    using assms(8) by (auto simp: has_core_def)
  ultimately have "dead_end (repo_id r) (repo_index_version r) (job_id j) (sys_db s)"
    using assms(9) unfolding dead_end_def by blast
  from dead_end_steps [OF assms(10) inv assms(2) this]
  have dead: "dead_end (repo_id r) (repo_index_version r) (job_id j) (sys_db t)" .
  have inv_t: "sys_inv S t" by (rule sys_steps_inv [OF assms(10) inv assms(2)])
  have "prepare_build D S c w sha d p fp (sys_db t) \<noteq> Inr db'"
    if p: "pr_repository_id p = repo_id r" and w: "sys_claims t w = Some c" for c w sha d p fp db'
  proof
    assume "prepare_build D S c w sha d p fp (sys_db t) = Inr db'"
    then show False
      using prepare_refused [OF inv_t dead p w] by blast
  qed
  then show ?thesis
    using dead version_of_member unfolding dead_end_def by blast
qed

lemma run_failed_rows:
  "db_builds run_failed = [run_build]"
  "\<exists>r. db_repositories run_failed = [r] \<and> repo_id r = 7 \<and> repo_index_version r = 0"
  "\<exists>j. db_jobs run_failed = [j] \<and> job_id j = 100 \<and> job_status j = FAILED"
  by (simp_all add: run_failed_def fail_def should_retry_def owned_job_def owned_def run_defs2 run_defs store_eval)

lemma run_build_simps: "bld_repository_id run_build = 7" "bld_index_version run_build = 1" "bld_job_id run_build = Some 100"
  by (simp_all add: run_build_def new_build_def run_claim_def run_processing_def)

theorem left_over_build_blocks_repository_witness:
  "(\<exists>r' \<in> set (db_repositories run_failed). repo_id r' = 7 \<and> repo_index_version r' = 0)
   \<and> (\<nexists>db'. prepare_build run_digests run_store run_claim ''w'' ''c'' run_discovery (run_processing 1 ''c'') ''p''
         run_failed = Inr db')"
proof -
  obtain r where r: "db_repositories run_failed = [r]" "repo_id r = 7" "repo_index_version r = 0"
    using run_failed_rows(2) by blast
  obtain j where j: "db_jobs run_failed = [j]" "job_id j = 100" "job_status j = FAILED"
    using run_failed_rows(3) by blast
  have claim: "sys_claims (run_state run_failed True) ''w'' = Some run_claim" "sys_db (run_state run_failed True) = run_failed"
    by (simp_all add: run_state_def)
  have "(\<exists>r' \<in> set (db_repositories run_failed). repo_id r' = repo_id r \<and> repo_index_version r' = repo_index_version r)
    \<and> (\<forall>c w sha d p fp db'. pr_repository_id p = repo_id r \<longrightarrow> sys_claims (run_state run_failed True) w = Some c \<longrightarrow>
         prepare_build run_digests run_store c w sha d p fp run_failed \<noteq> Inr db')"
    using left_over_build_blocks_repository [OF run_reach_failed run_attempts, where b = run_build and r = r and j = j
        and t = "run_state run_failed True", unfolded claim(2)]
    by (simp add: run_failed_rows(1) run_build_simps r j finished_def)
  moreover have "pr_repository_id (run_processing 1 ''c'') = 7" by (simp add: run_processing_def)
  ultimately show ?thesis using claim(1) unfolding r(2,3) by blast
qed

end
