(* ===== verification/Guarantees.thy ===== *)
theory Guarantees
  imports DeadEnd
begin

text \<open>
  The guarantees of the pipeline, as theorems over the reachable states and the steps of
  \<^theory_text>\<open>System\<close>, each with its instance on the concrete run of \<^theory_text>\<open>SampleRun\<close>.
\<close>

section \<open>In every reachable state\<close>

text \<open>
  C2: In every reachable state job ids are unique, at most one job of a repository runs, a job is locked exactly
  while it runs, no job has been attempted more often than configured, and a job waiting for a
  retry has attempts left.
\<close>

theorem reachable_jobs_exclusive:
  assumes "reachable S D col A s" and "0 < st_max_attempts S"
  shows "distinct (map job_id (db_jobs (sys_db s)))
    \<and> (\<forall>i \<in> set (db_jobs (sys_db s)). \<forall>j \<in> set (db_jobs (sys_db s)).
         job_status i = RUNNING \<and> job_status j = RUNNING \<and> job_repository_id i = job_repository_id j \<longrightarrow> i = j)
    \<and> (\<forall>j \<in> set (db_jobs (sys_db s)).
         (job_status j = RUNNING \<longleftrightarrow> job_locked_by j \<noteq> None) \<and> job_attempt j \<le> st_max_attempts S
         \<and> (job_status j = RETRYING \<longrightarrow> job_attempt j < st_max_attempts S))"
proof -
  have inv: "jobs_inv S (db_jobs (sys_db s))" using reachable_inv [OF assms] by (simp add: sys_inv_def)
  then have d: "distinct (map job_id (db_jobs (sys_db s)))" by (simp add: jobs_inv_def)
  have "\<forall>i \<in> set (db_jobs (sys_db s)). \<forall>j \<in> set (db_jobs (sys_db s)).
      job_status i = RUNNING \<and> job_status j = RUNNING \<and> job_repository_id i = job_repository_id j \<longrightarrow> i = j"
    using inv one_running_iff [OF d] unfolding jobs_inv_def by blast
  with inv d show ?thesis by (auto simp: jobs_inv_def job_shape_def)
qed

theorem reachable_jobs_exclusive_witness:
  "list_all (\<lambda>j. job_attempt j \<le> 3) (db_jobs run_prepared)"
  using reachable_jobs_exclusive [OF run_reach_prepared run_attempts]
  by (simp add: run_state_def run_store_def list_all_iff)

text \<open>
  C1: In every reachable state each published version of a repository has exactly one active build, which is
  complete: as many vectors as expected chunks, none failed or skipped, the graph validated. Its
  version, vector count and commit are those the repository reports. No other build is active.
\<close>

theorem reachable_index_consistent:
  assumes "reachable S D col A s" and "0 < st_max_attempts S"
  shows "(\<forall>r \<in> set (db_repositories (sys_db s)). 0 < repo_index_version r \<longrightarrow>
      (\<exists>b \<in> set (db_builds (sys_db s)). active_at (repo_id r) (repo_index_version r) b))
    \<and> (\<forall>b \<in> set (db_builds (sys_db s)). bld_state b = ACTIVE \<longrightarrow>
        build_complete b \<and> bld_failed_chunk_count b = 0 \<and> bld_skipped_chunk_count b = 0
        \<and> bld_cleanup_status b = NOT_REQUIRED
        \<and> (\<exists>r \<in> set (db_repositories (sys_db s)). repo_id r = bld_repository_id b
             \<and> repo_index_version r = bld_index_version b \<and> repo_active_vector_count r = bld_vector_count b
             \<and> repo_last_indexed_commit_sha r = Some (bld_commit_sha b)))
    \<and> (\<forall>repo. one_active_ok repo (db_builds (sys_db s)))"
proof -
  have inv: "index_inv (db_repositories (sys_db s)) (db_builds (sys_db s))"
    using reachable_inv [OF assms] by (simp add: sys_inv_def db_index_inv_def)
  have ok: "build_ok b" if "b \<in> set (db_builds (sys_db s))" for b
    using inv that by (simp add: index_inv_def)
  have pub: "\<exists>r \<in> set (db_repositories (sys_db s)). published b (repo_core r)"
    if "b \<in> set (db_builds (sys_db s))" "bld_state b = ACTIVE" for b
    using inv that by (simp add: index_inv_def)
  have has: "\<forall>r \<in> set (db_repositories (sys_db s)). 0 < repo_index_version r \<longrightarrow>
      (\<exists>b \<in> set (db_builds (sys_db s)). active_at (repo_id r) (repo_index_version r) b)"
    using inv by (simp add: index_inv_def)
  show ?thesis
    using has index_inv_one_active [OF inv] ok pub
    by (fastforce simp: build_ok_def build_checks_def published_def repo_core_def)
qed

theorem reachable_index_consistent_witness:
  "\<exists>b \<in> set (db_builds run_active). active_at 7 1 b"
proof -
  have "run_active_row \<in> set (db_repositories run_active)" "repo_id run_active_row = 7" "repo_index_version run_active_row = 1"
    by (simp_all add: run_active_def run_active_row_def run_prepared_row_def run_claimed_row_def run_defs)
  with conjunct1 [OF reachable_index_consistent [OF run_reach_active run_attempts]] show ?thesis
    by (fastforce simp: run_state_def)
qed

section \<open>Across every step and run\<close>

text \<open>
  C5: A step leaves the index version of every repository as it is, or raises it by one. It raises
  it only when some worker holds the lock of a running job of the repository whose generation and
  branch are current and whose build for that version is ready, complete and its own.
\<close>

theorem index_version_steps_by_activation:
  assumes "reachable S D col A s" and "0 < st_max_attempts S" and "sys_step S D col A s t"
    and "r \<in> set (db_repositories (sys_db s))"
  shows "\<exists>r' \<in> set (db_repositories (sys_db t)). repo_id r' = repo_id r
    \<and> (repo_index_version r' = repo_index_version r
       \<or> repo_index_version r' = repo_index_version r + 1
         \<and> (\<exists>w c. sys_claims s w = Some c \<and> publishes w c (repo_id r) (repo_index_version r) (sys_db s)))"
proof -
  have inv: "sys_inv S s" by (rule reachable_inv [OF assms(1,2)])
  then have "distinct (map repo_id (db_repositories (sys_db s)))"
    by (simp add: sys_inv_def db_index_inv_def index_inv_def)
  from step_version [OF assms(3) inv version_of_eq [OF this assms(4)]] show ?thesis
    using version_of_member by metis
qed

lemma run_step_activate:
  "sys_step run_store run_digests run_collate run_access (run_state run_ready True) (run_state run_active True)"
  using step_worker [of "run_state run_ready True" "''w''" run_claim run_store run_digests run_collate run_active run_access]
    wop_activate [OF run_activates] by (simp add: run_state_def)

lemma run_ready_row: "run_prepared_row \<in> set (db_repositories run_ready)" "repo_id run_prepared_row = 7"
  "repo_index_version run_prepared_row = 0"
  by (simp_all add: run_defs3 run_prepared_def run_prepared_row_def run_claimed_row_def run_defs)

theorem index_version_steps_by_activation_witness:
  "\<exists>r' \<in> set (db_repositories run_active). repo_id r' = 7
    \<and> (repo_index_version r' = 0 \<or> repo_index_version r' = 1)"
proof -
  have "run_prepared_row \<in> set (db_repositories (sys_db (run_state run_ready True)))"
    using run_ready_row(1) by (simp add: run_state_def)
  from index_version_steps_by_activation [OF run_reach_ready run_attempts run_step_activate this] show ?thesis
    unfolding run_ready_row(2,3) by (auto simp: run_state_def)
qed

text \<open>
  C6: While a version stays the published one of its repository, its symbols and call edges never
  change, through any steps of any workers, webhooks and users: a build in progress, a failed build's
  cleanup and a late worker cannot touch the index that answers questions.
\<close>

theorem published_content_stable:
  assumes "reachable S D col A s" and "0 < st_max_attempts S" and "sys_steps S D col A s t"
    and "r \<in> set (db_repositories (sys_db s))" and "0 < repo_index_version r"
    and "r' \<in> set (db_repositories (sys_db t))" and "repo_id r' = repo_id r"
    and "repo_index_version r' = repo_index_version r"
  shows "content (repo_id r) (repo_index_version r) (sys_db t) = content (repo_id r) (repo_index_version r) (sys_db s)"
proof -
  have inv: "sys_inv S s" by (rule reachable_inv [OF assms(1,2)])
  have ids: "distinct (map repo_id (db_repositories (sys_db u)))" if "sys_inv S u" for u
    using that by (simp add: sys_inv_def db_index_inv_def index_inv_def)
  note inv_t = sys_steps_inv [OF assms(3) inv assms(2)]
  have "version_of (repo_id r) (sys_db t) = Some (repo_index_version r)"
    using version_of_eq [OF ids [OF inv_t] assms(6)] assms(7,8) by simp
  with version_of_eq [OF ids [OF inv] assms(4)] show ?thesis
    by (intro steps_content [OF assms(3) inv assms(2) _ assms(5)])
qed

theorem published_content_stable_witness:
  "content 7 1 (mark_enqueued 5 100 run_active) = content 7 1 run_active"
proof -
  let ?t = "run_state (mark_enqueued 5 100 run_active) True"
  have step: "sys_steps run_store run_digests run_collate run_access (run_state run_active True) ?t"
    using steps_step [OF steps_refl step_outside [of run_store run_access "run_state run_active True"]]
      out_enqueue [of run_store run_access run_active 5 100]
    by (auto simp: run_state_def)
  have row: "run_active_row \<in> set (db_repositories run_active)" "repo_id run_active_row = 7"
    "repo_index_version run_active_row = 1"
    by (simp_all add: run_active_def run_active_row_def run_prepared_row_def run_claimed_row_def run_defs)
  have "db_repositories (mark_enqueued 5 100 run_active) = db_repositories run_active"
    by (simp add: mark_enqueued_def)
  with published_content_stable [OF run_reach_active run_attempts step, of run_active_row run_active_row] row
  show ?thesis by (simp add: run_state_def)
qed



end
