(* ===== verification/StoreContracts.thy ===== *)
theory StoreContracts
  imports SampleRun
begin

text \<open>
  Contracts of single operations of the job store: what a worker without the lock can do, what
  recovery and reconciliation select, how long a retry waits, and what an operation leaves behind.
\<close>

section \<open>Fencing\<close>

lemma update_none_db:
  "\<forall>j \<in> set (db_jobs db). \<not> P j \<Longrightarrow> update_jobs P f db = db"
  by (simp add: update_jobs_def update_where_none)

lemma not_owned: "owned_job c w db = None \<Longrightarrow> \<forall>j \<in> set (db_jobs db). \<not> owned c w j"
  by (simp add: owned_job_def select_first_None)



section \<open>Recovery\<close>

text \<open>What recovery makes of one abandoned job.\<close>

definition recovered :: "store_settings \<Rightarrow> time \<Rightarrow> indexing_job \<Rightarrow> indexing_job" where
  "recovered S now j =
     (if job_attempt j < st_max_attempts S
      then j\<lparr>job_status := RETRYING, job_next_attempt_at := Some now, job_locked_by := None,
        job_error_code := Some ''worker_abandoned'',
        job_safe_error_message := Some ''Worker stopped before the job completed'',
        job_stage := Some ''retry_wait''\<rparr>
      else j\<lparr>job_status := FAILED, job_next_attempt_at := None, job_locked_by := None,
        job_error_code := Some ''worker_abandoned'',
        job_safe_error_message := Some ''Worker stopped before the job completed'',
        job_stage := Some ''failed'', job_completed_at := Some now\<rparr>)"

lemma recover_job_recovered:
  assumes "distinct (map job_id (db_jobs db))" and "j \<in> set (db_jobs db)"
  shows "db_jobs (recover_job S now j db) = map (\<lambda>x. if x = j then recovered S now x else x) (db_jobs db)"
  unfolding recover_job_jobs update_where_def
proof (rule map_cong [OF refl])
  fix x assume x: "x \<in> set (db_jobs db)"
  then have "job_id x = job_id j \<longleftrightarrow> x = j" using assms distinct_key_unique by metis
  then show "(if job_id x = job_id j
      then x\<lparr>job_status := if job_attempt j < st_max_attempts S then RETRYING else FAILED,
        job_next_attempt_at := if job_attempt j < st_max_attempts S then Some now else None,
        job_locked_by := None, job_error_code := Some ''worker_abandoned'',
        job_safe_error_message := Some ''Worker stopped before the job completed'',
        job_stage := Some (if job_attempt j < st_max_attempts S then ''retry_wait'' else ''failed''),
        job_completed_at := if job_attempt j < st_max_attempts S then job_completed_at x else Some now\<rparr>
      else x) = (if x = j then recovered S now x else x)"
    by (auto simp: recovered_def)
qed

lemma recovered_id [simp]: "job_id (recovered S now j) = job_id j"
  by (simp add: recovered_def)

lemma recover_jobs_fold:
  assumes "distinct (map job_id (db_jobs db))" and "distinct (map job_id js)" and "set js \<subseteq> set (db_jobs db)"
  shows "db_jobs (fold (recover_job S now) js db)
    = map (\<lambda>x. if x \<in> set js then recovered S now x else x) (db_jobs db)"
  using assms
proof (induction js arbitrary: db)
  case (Cons j js)
  let ?db = "recover_job S now j db"
  have rows: "db_jobs ?db = map (\<lambda>x. if x = j then recovered S now x else x) (db_jobs db)"
    using Cons.prems by (intro recover_job_recovered) auto
  have ids: "map job_id (db_jobs ?db) = map job_id (db_jobs db)"
    unfolding rows by simp
  have notin: "x \<noteq> j" "job_id x \<noteq> job_id j" if "x \<in> set js" for x
    using Cons.prems(2) that by (auto simp: image_iff)
  have sub: "set js \<subseteq> set (db_jobs ?db)"
    using Cons.prems(3) notin unfolding rows by (force simp: image_iff)
  have new: "recovered S now j \<notin> set js" using notin(2) by (metis recovered_id)
  from Cons.IH [of ?db] Cons.prems ids sub have
    "db_jobs (fold (recover_job S now) js ?db) = map (\<lambda>x. if x \<in> set js then recovered S now x else x) (db_jobs ?db)"
    by simp
  also have "\<dots> = map (\<lambda>x. if x \<in> set (j # js) then recovered S now x else x) (db_jobs db)"
    unfolding rows map_map by (rule map_cong [OF refl]) (use notin new in auto)
  finally show ?case by simp
qed simp

text \<open>
  C18: Recovery returns the number of running jobs whose heartbeat is missing or too old, and turns
  exactly those into jobs waiting for an immediate retry, or failed ones when no attempt is left;
  every other job row is as it was.
\<close>

theorem recover_abandoned_spec:
  assumes "distinct (map job_id (db_jobs db))" and "recover_abandoned S now db = (n, db')"
  defines "lost \<equiv> abandoned (now - seconds (st_abandoned_after_seconds S))"
  shows "n = length (filter lost (db_jobs db))
    \<and> db_jobs db' = map (\<lambda>j. if lost j then recovered S now j else j) (db_jobs db)"
proof -
  have "distinct (map job_id (filter lost (db_jobs db)))"
    using assms(1) by (simp add: distinct_map_filter)
  from recover_jobs_fold [OF assms(1) this] assms(2) show ?thesis
    by (auto simp: recover_abandoned_def lost_def Let_def)
qed

theorem recover_abandoned_spec_witness:
  "\<exists>db'. recover_abandoned run_store 90000000 run_held = (1, db')
     \<and> db_jobs db' = [recovered run_store 90000000 run_claimed_job]"
proof -
  obtain n db' where r: "recover_abandoned run_store 90000000 run_held = (n, db')"
    by (cases "recover_abandoned run_store 90000000 run_held")
  have "distinct (map job_id (db_jobs run_held))" by (simp add: run_held_def)
  from recover_abandoned_spec [OF this r] r show ?thesis
    by (simp add: run_held_def run_claimed_job_def abandoned_def older_than_def seconds_def run_store_def)
qed

section \<open>Reconciliation\<close>

lemma take_sort_minimal:
  fixes key :: "'a \<Rightarrow> 'b::linorder"
  assumes "x \<in> set xs" and "x \<notin> set (take n (sort_key key xs))" and "y \<in> set (take n (sort_key key xs))"
  shows "key y \<le> key x"
proof -
  let ?s = "sort_key key xs"
  have "x \<in> set (drop n ?s)"
    using assms(1,2) by (metis Un_iff append_take_drop_id set_append set_sort)
  moreover have "sorted (map key (take n ?s) @ map key (drop n ?s))"
    by (metis append_take_drop_id map_append sorted_sort_key)
  ultimately show ?thesis using assms(3) by (auto simp: sorted_append)
qed

text \<open>
  Reconciliation re-enqueues only jobs that wait, are due and were not enqueued recently, at most
  100 at a time, all of them when there are no more than 100, and never a younger one while leaving
  out an older one.
\<close>

theorem due_jobs_oldest_first:
  assumes "distinct (map job_id (db_jobs db))"
  shows "length (due_jobs S now db) \<le> 100
    \<and> set (due_jobs S now db) \<subseteq> job_id ` {j \<in> set (db_jobs db). due_job S now j}
    \<and> (length (filter (due_job S now) (db_jobs db)) \<le> 100 \<longrightarrow>
         set (due_jobs S now db) = job_id ` {j \<in> set (db_jobs db). due_job S now j})
    \<and> (\<forall>i \<in> set (db_jobs db). \<forall>j \<in> set (db_jobs db). due_job S now i \<and> job_id i \<notin> set (due_jobs S now db)
         \<and> job_id j \<in> set (due_jobs S now db) \<longrightarrow> job_created_at j \<le> job_created_at i)"
proof (intro conjI)
  let ?s = "sort_key job_created_at (filter (due_job S now) (db_jobs db))"
  show "length (due_jobs S now db) \<le> 100" by (simp add: due_jobs_def)
  show "set (due_jobs S now db) \<subseteq> job_id ` {j \<in> set (db_jobs db). due_job S now j}"
    using set_take_subset [of 100 ?s] by (auto simp: due_jobs_def)
  show "length (filter (due_job S now) (db_jobs db)) \<le> 100 \<longrightarrow>
      set (due_jobs S now db) = job_id ` {j \<in> set (db_jobs db). due_job S now j}"
    by (auto simp: due_jobs_def)
  show "\<forall>i \<in> set (db_jobs db). \<forall>j \<in> set (db_jobs db). due_job S now i \<and> job_id i \<notin> set (due_jobs S now db)
      \<and> job_id j \<in> set (due_jobs S now db) \<longrightarrow> job_created_at j \<le> job_created_at i"
  proof (intro ballI impI)
    fix i j assume i: "i \<in> set (db_jobs db)" and j: "j \<in> set (db_jobs db)"
      and d: "due_job S now i \<and> job_id i \<notin> set (due_jobs S now db) \<and> job_id j \<in> set (due_jobs S now db)"
    then obtain j' where j': "j' \<in> set (take 100 ?s)" "job_id j' = job_id j"
      by (auto simp: due_jobs_def)
    then have "j' \<in> set (db_jobs db)" using set_take_subset [of 100 ?s] by auto
    with j'(2) j assms have "j' = j" by (blast intro: distinct_key_unique)
    have "i \<notin> set (take 100 ?s)" using d by (auto simp: due_jobs_def)
    with take_sort_minimal [of i "filter (due_job S now) (db_jobs db)" 100 job_created_at j'] i d j' \<open>j' = j\<close>
    show "job_created_at j \<le> job_created_at i" by simp
  qed
qed

theorem due_jobs_oldest_first_witness: "set (due_jobs run_store 90000000 run_imported) = {100}"
proof -
  have "distinct (map job_id (db_jobs run_imported))" by (simp add: run_imported_def)
  moreover have rows: "db_jobs run_imported = [run_job\<lparr>job_last_enqueued_at := Some 1\<rparr>]"
    by (simp add: run_imported_def)
  moreover have "due_job run_store 90000000 (run_job\<lparr>job_last_enqueued_at := Some 1\<rparr>)"
    by (simp add: due_job_def claimable_def due_by_def older_than_def run_job_def queued_job_def run_store_def seconds_def)
  then have "{j. j = run_job\<lparr>job_last_enqueued_at := Some 1\<rparr> \<and> due_job run_store 90000000 j}
      = {run_job\<lparr>job_last_enqueued_at := Some 1\<rparr>}" by blast
  moreover have "job_id run_job = 100" by (simp add: run_job_def queued_job_def)
  ultimately show ?thesis
    using due_jobs_oldest_first [of run_imported run_store 90000000] by simp
qed

section \<open>Retries\<close>

text \<open>
  A retry waits at least the exponential back-off for its attempt and at most half of it more;
  the back-off never exceeds the configured maximum, and for a later attempt it is never shorter.
\<close>

theorem retry_delay_bounds:
  "seconds (retry_base S n) \<le> retry_delay S rnd n
   \<and> 2 * retry_delay S rnd n \<le> 3 * seconds (retry_base S n)
   \<and> retry_base S n \<le> st_retry_max_seconds S
   \<and> retry_base S n \<le> retry_base S (n + k)"
proof -
  let ?b = "retry_base S n"
  have "2 * (seconds b + milliseconds m) \<le> 3 * seconds b" if "m \<le> b * 500" for b m
  proof -
    have "int m \<le> int b * 500" using that by (metis of_nat_mono of_nat_mult of_nat_numeral)
    then show ?thesis by (simp add: seconds_def milliseconds_def)
  qed
  moreover have "rnd mod (?b * 500 + 1) \<le> ?b * 500" by (simp add: less_Suc_eq_le [symmetric])
  ultimately have "2 * retry_delay S rnd n \<le> 3 * seconds ?b"
    unfolding retry_delay_def Let_def by blast
  moreover have "(2::nat) ^ (n - 1) \<le> 2 ^ (n + k - 1)" by (intro power_increasing) simp_all
  ultimately show ?thesis
    by (auto simp: retry_delay_def Let_def seconds_def milliseconds_def retry_base_def min_le_iff_disj)
qed

text \<open>
  A failure that is retried leaves the job waiting with the back-off of its attempt and free for
  any worker; one that is not leaves it failed for good. In both cases the lock is released, and
  retries stop once the configured number of attempts is used.
\<close>

theorem fail_releases_job:
  assumes "owned_job c w db = Some j" and "distinct (map job_id (db_jobs db))"
    and "fail S now rnd c w code msg retryable db = (again, db')"
  shows "again = (retryable \<and> cl_attempt c < st_max_attempts S)
    \<and> (\<exists>j' \<in> set (db_jobs db'). job_id j' = cl_id c \<and> job_locked_by j' = None \<and> job_error_code j' = Some code
         \<and> (if again
            then job_status j' = RETRYING \<and> job_next_attempt_at j' = Some (now + retry_delay S rnd (cl_attempt c))
            else job_status j' = FAILED \<and> job_next_attempt_at j' = None \<and> job_completed_at j' = Some now))
    \<and> (\<forall>i \<in> set (db_jobs db). job_id i \<noteq> cl_id c \<longrightarrow> i \<in> set (db_jobs db'))"
proof -
  note j = owned_jobD [OF assms(1)]
  define f :: "indexing_job \<Rightarrow> indexing_job" where
    "f = (\<lambda>j. j\<lparr>job_status := (if again then RETRYING else FAILED), job_error_code := Some code,
         job_safe_error_message := Some msg,
         job_next_attempt_at := (if again then Some (now + retry_delay S rnd (cl_attempt c)) else None),
         job_completed_at := (if again then None else Some now), job_heartbeat_at := Some now,
         job_locked_by := None, job_stage := Some (if again then ''retry_wait'' else ''failed'')\<rparr>)"
  have again: "again = should_retry S c retryable" using assms(3) by (simp add: fail_def Let_def)
  have "db_jobs db' = db_jobs (snd (fail S now rnd c w code msg retryable db))" using assms(3) by simp
  then have rows: "db_jobs db' = update_where (owned c w) f (db_jobs db)"
    using assms(1) by (simp add: fail_def Let_def again f_def)
  have "f j \<in> set (db_jobs db')" using j(1,2) unfolding rows set_update_where by force
  moreover have "i \<in> set (db_jobs db')" if "i \<in> set (db_jobs db)" "job_id i \<noteq> cl_id c" for i
    using that unfolding rows set_update_where by (force simp: owned_def)
  moreover have "job_id (f j) = cl_id c \<and> job_locked_by (f j) = None \<and> job_error_code (f j) = Some code
      \<and> (if again
         then job_status (f j) = RETRYING \<and> job_next_attempt_at (f j) = Some (now + retry_delay S rnd (cl_attempt c))
         else job_status (f j) = FAILED \<and> job_next_attempt_at (f j) = None \<and> job_completed_at (f j) = Some now)"
    using j(3) by (simp add: f_def)
  ultimately show ?thesis
    using again unfolding should_retry_def by blast
qed

theorem fail_releases_job_witness:
  "\<exists>j' \<in> set (db_jobs run_failed). job_id j' = 100 \<and> job_status j' = FAILED \<and> job_locked_by j' = None"
proof -
  have own: "owned_job run_claim ''w'' run_prepared = Some run_prepared_job"
    by (simp add: owned_job_def owned_def run_defs2 run_defs store_eval)
  have ids: "distinct (map job_id (db_jobs run_prepared))" by (simp add: run_prepared_def)
  obtain again where "fail run_store 9 0 run_claim ''w'' ''e'' ''m'' False run_prepared = (again, run_failed)"
    by (simp add: run_failed_def fail_def Let_def)
  from fail_releases_job [OF own ids this] show ?thesis
    by (auto simp: run_claim_def)
qed

end
