(* ===== verification/Identifiers.thy ===== *)
theory Identifiers
  imports CallGraph
begin

text \<open>
  The texts that identify rows and points: \<open>str(uuid)\<close> keeps the order of UUIDs, decimal and
  UUID texts are injective.
\<close>

section \<open>Lexicographic order\<close>

lemma list_le_append_iff:
  fixes a a' :: "'a::linorder list"
  shows "length a = length a' \<Longrightarrow> a @ b \<le> a' @ b' \<longleftrightarrow> a < a' \<or> a = a' \<and> b \<le> b'"
  by (induction a a' rule: list_induct2) auto

lemma list_append_less_iff:
  fixes a a' :: "'a::linorder list"
  shows "length a = length a' \<Longrightarrow> a @ b < a' @ b' \<longleftrightarrow> a < a' \<or> a = a' \<and> b < b'"
  by (induction a a' rule: list_induct2) auto

lemma map_le_iff:
  fixes f :: "'a::linorder \<Rightarrow> 'b::linorder"
  assumes "\<And>x y. x < y \<longleftrightarrow> f x < f y" and "inj f"
  shows "map f xs \<le> map f ys \<longleftrightarrow> xs \<le> ys"
proof (induction xs arbitrary: ys)
  case (Cons x xs)
  then show ?case
    by (cases ys) (simp_all add: assms(1) [symmetric] inj_eq [OF assms(2)])
qed simp

text \<open>Fingerprints are compared as strings in memory and as code points in the query.\<close>

lemma py_le_iff: "py s \<le> py t \<longleftrightarrow> s \<le> t"
  unfolding py_def by (rule map_le_iff) (auto simp: less_char_def inj_def)

section \<open>UUIDs\<close>

definition hex_digits :: "nat \<Rightarrow> nat \<Rightarrow> nat list" where
  "hex_digits n u = map (\<lambda>i. hex_digit (u div 16 ^ (n - 1 - i) mod 16)) [0..<n]"

lemma hex_digits_Suc: "hex_digits (Suc n) u = hex_digit (u div 16 ^ n mod 16) # hex_digits n u"
proof -
  have "[0..<Suc n] = 0 # map Suc [0..<n]" by (simp add: upt_conv_Cons map_Suc_upt)
  then show ?thesis by (simp add: hex_digits_def comp_def)
qed

lemma length_hex_digits [simp]: "length (hex_digits n u) = n"
  by (simp add: hex_digits_def)

lemma hex_digit_less: "d < 16 \<Longrightarrow> e < 16 \<Longrightarrow> hex_digit d < hex_digit e \<longleftrightarrow> d < e"
  by (auto simp: hex_digit_def)

lemma hex_digits_mod: "hex_digits n u = hex_digits n (u mod 16 ^ n)"
proof -
  have "u div 16 ^ (n - 1 - i) mod 16 = u mod 16 ^ n div 16 ^ (n - 1 - i) mod 16" if "i < n" for i
  proof -
    have "n = (n - 1 - i) + Suc i" using that by simp
    then have "(16::nat) ^ n = 16 ^ (n - 1 - i) * 16 ^ Suc i" by (metis power_add)
    then have "u mod 16 ^ n div 16 ^ (n - 1 - i) = u div 16 ^ (n - 1 - i) mod 16 ^ Suc i"
      by (simp add: mod_mult2_eq div_mult_self1)
    then show ?thesis by (simp add: mod_mod_cancel)
  qed
  then show ?thesis by (simp add: hex_digits_def)
qed

lemma hex_digits_less:
  "u < 16 ^ n \<Longrightarrow> v < 16 ^ n \<Longrightarrow> u < v \<Longrightarrow> hex_digits n u < hex_digits n v"
proof (induction n arbitrary: u v)
  case (Suc n)
  let ?q = "\<lambda>x. x div 16 ^ n" and ?r = "\<lambda>x. x mod 16 ^ n"
  have q: "?q u < 16" "?q v < 16"
    using Suc.prems(1,2) by (simp_all add: less_mult_imp_div_less mult.commute)
  have "?q u < ?q v \<or> ?q u = ?q v \<and> ?r u < ?r v"
    using Suc.prems(3) by (metis div_le_mono div_mult_mod_eq le_neq_implies_less nat_add_left_cancel_less less_imp_le)
  then show ?case
  proof
    assume "?q u < ?q v"
    with q show ?thesis by (simp add: hex_digits_Suc hex_digit_less)
  next
    assume r: "?q u = ?q v \<and> ?r u < ?r v"
    then have "hex_digits n (?r u) < hex_digits n (?r v)" by (intro Suc.IH) simp_all
    with r show ?thesis
      by (simp add: hex_digits_Suc hex_digits_mod [of n u] hex_digits_mod [of n v])
  qed
qed simp

definition dashed :: "nat list \<Rightarrow> nat list" where
  "dashed h = join [45] [take 8 h, take 4 (drop 8 h), take 4 (drop 12 h), take 4 (drop 16 h), drop 20 h]"

lemma uuid_str_dashed: "uuid_str u = dashed (hex_digits 32 u)"
  by (simp add: uuid_str_def dashed_def hex_digits_def Let_def)

lemma split_less:
  fixes xs ys :: "nat list"
  assumes "length xs = length ys" and "xs < ys"
  shows "take n xs < take n ys \<or> take n xs = take n ys \<and> drop n xs < drop n ys"
  using assms list_append_less_iff [of "take n xs" "take n ys" "drop n xs" "drop n ys"] by simp

lemma dashed_less:
  assumes "length h = 32" and "length h' = 32" and "h < h'"
  shows "dashed h < dashed h'"
proof -
  have dashed: "dashed h = take 8 h @ 45 # take 4 (drop 8 h) @ 45 # take 4 (drop 12 h) @ 45 # take 4 (drop 16 h)
      @ 45 # drop 20 h" for h
    by (simp add: dashed_def)
  have "take 8 h < take 8 h' \<or> take 8 h = take 8 h' \<and> drop 8 h < drop 8 h'"
    using assms by (intro split_less) simp_all
  moreover have "drop 8 h < drop 8 h' \<Longrightarrow> take 4 (drop 8 h) < take 4 (drop 8 h')
      \<or> take 4 (drop 8 h) = take 4 (drop 8 h') \<and> drop 12 h < drop 12 h'"
    using split_less [of "drop 8 h" "drop 8 h'" 4] assms(1,2) by simp
  moreover have "drop 12 h < drop 12 h' \<Longrightarrow> take 4 (drop 12 h) < take 4 (drop 12 h')
      \<or> take 4 (drop 12 h) = take 4 (drop 12 h') \<and> drop 16 h < drop 16 h'"
    using split_less [of "drop 12 h" "drop 12 h'" 4] assms(1,2) by simp
  moreover have "drop 16 h < drop 16 h' \<Longrightarrow> take 4 (drop 16 h) < take 4 (drop 16 h')
      \<or> take 4 (drop 16 h) = take 4 (drop 16 h') \<and> drop 20 h < drop 20 h'"
    using split_less [of "drop 16 h" "drop 16 h'" 4] assms(1,2) by simp
  ultimately show ?thesis
    unfolding dashed using assms(1,2)
    by (subst list_append_less_iff, simp)+ (auto simp: list_append_less_iff)
qed

lemma uuid_str_less:
  assumes "u < 2 ^ 128" and "v < 2 ^ 128" and "u < v"
  shows "uuid_str u < uuid_str v"
  unfolding uuid_str_dashed using assms by (intro dashed_less hex_digits_less) simp_all

lemma uuid_str_le: "u < 2 ^ 128 \<Longrightarrow> v < 2 ^ 128 \<Longrightarrow> uuid_str u \<le> uuid_str v \<Longrightarrow> u \<le> v"
  using uuid_str_less [of v u] by (meson leD not_le_imp_less)

lemma uuid_str_eq: "u < 2 ^ 128 \<Longrightarrow> v < 2 ^ 128 \<Longrightarrow> uuid_str u = uuid_str v \<Longrightarrow> u = v"
  using uuid_str_less by (metis less_irrefl nat_neq_iff)

section \<open>Decimal numbers\<close>

lemma dec_digits_range: "c \<in> set (dec_digits n) \<Longrightarrow> 48 \<le> c \<and> c \<le> 57"
proof (induction n rule: dec_digits.induct)
  case (1 n)
  then show ?case by (subst (asm) dec_digits.simps) (auto split: if_splits)
qed

lemma dec_digits_inj: "dec_digits m = dec_digits n \<Longrightarrow> m = n"
proof (induction m arbitrary: n rule: dec_digits.induct)
  case (1 m)
  have ne: "dec_digits k \<noteq> []" "[] \<noteq> dec_digits k" for k by (subst dec_digits.simps, simp)+
  have eq: "(if m < 10 then [48 + m] else dec_digits (m div 10) @ [48 + m mod 10])
      = (if n < 10 then [48 + n] else dec_digits (n div 10) @ [48 + n mod 10])"
    using "1.prems" by (simp add: dec_digits.simps [of m] dec_digits.simps [of n] del: dec_digits_small)
  show ?case
  proof (cases "m < 10 \<or> n < 10")
    case True
    with eq ne show ?thesis by (auto split: if_splits)
  next
    case False
    with eq have "dec_digits (m div 10) = dec_digits (n div 10)" "m mod 10 = n mod 10" by simp_all
    with False "1.IH" have "m div 10 = n div 10" by simp
    with \<open>m mod 10 = n mod 10\<close> show ?thesis by (metis div_mult_mod_eq)
  qed
qed

end
