(* ===== verification/GraphPersistence.thy ===== *)
theory GraphPersistence
  imports SampleRun Identifiers
begin

text \<open>
  From the call graph in memory to the rows and back: the graph the builder returns, stored by
  \<open>prepare_build\<close>, is read back by \<open>validate_graph\<close> in the same order and with the same counts and
  fingerprint, provided the database sorts text by code point.
\<close>

section \<open>The two sort orders\<close>

lemma pair_order:
  fixes x y :: "'a::linorder"
  shows "(x, x) < (y, y) \<longleftrightarrow> x < y" and "(x, x) \<le> (y, y) \<longleftrightarrow> x \<le> y"
  by (auto simp: less_prod_def)

lemma key_mono:
  fixes a a' :: "'a::linorder" and l l' n n' :: "'b::linorder" and x x' :: "'c::linorder"
    and y y' :: "'d::linorder" and t t' :: "'e::linorder" and f f' :: "'f::linorder" and g g' :: "'g::linorder"
  assumes key: "(a, l, n, x, t, f) \<le> (a', l', n', x', t', f')"
    and "x < x' \<Longrightarrow> y < y'" and "x = x' \<Longrightarrow> y = y'" and "f \<le> f' \<Longrightarrow> g \<le> g'"
  shows "((a, a), l, n, y, (t, t), (g, g)) \<le> ((a', a'), l', n', y', (t', t'), (g', g'))"
proof -
  have tail: "(y, (t, t), (g, g)) \<le> (y', (t', t'), (g', g'))" if "(x, t, f) \<le> (x', t', f')"
  proof (cases "x = x'")
    case True
    with that assms(3) have "t < t' \<or> t \<le> t' \<and> f \<le> f'" by simp
    with True assms(3,4) show ?thesis by (auto simp: pair_order)
  next
    case False
    with that have "x < x'" by auto
    with assms(2) show ?thesis by simp
  qed
  have "a < a' \<or> a \<le> a' \<and> (l < l' \<or> l \<le> l' \<and> (n < n' \<or> n \<le> n' \<and> (x, t, f) \<le> (x', t', f')))"
    using key by simp
  with tail have "a < a' \<or> a \<le> a' \<and> (l < l' \<or> l \<le> l' \<and> (n < n' \<or> n \<le> n'
      \<and> (y, (t, t), (g, g)) \<le> (y', (t', t'), (g', g'))))" by blast
  then show ?thesis unfolding less_eq_prod_simp pair_order by (elim disjE conjE) simp_all
qed

lemma sql_order:
  assumes "ce_caller_symbol_id e < 2 ^ 128" and "ce_caller_symbol_id e' < 2 ^ 128"
    and "edge_key e \<le> edge_key e'"
  shows "sql_edge_key (\<lambda>s. s) e \<le> sql_edge_key (\<lambda>s. s) e'"
  unfolding sql_edge_key_def
proof (rule key_mono [OF assms(3) [unfolded edge_key_def]])
  assume "uuid_str (ce_caller_symbol_id e) < uuid_str (ce_caller_symbol_id e')"
  with uuid_str_le [OF assms(1,2)] show "ce_caller_symbol_id e < ce_caller_symbol_id e'"
    by (metis le_neq_implies_less less_imp_le less_irrefl)
next
  assume "uuid_str (ce_caller_symbol_id e) = uuid_str (ce_caller_symbol_id e')"
  then show "ce_caller_symbol_id e = ce_caller_symbol_id e'" by (rule uuid_str_eq [OF assms(1,2)])
qed (simp add: py_le_iff)

lemma sorted_sql:
  assumes "sorted (map edge_key es)" and "\<forall>e \<in> set es. ce_caller_symbol_id e < 2 ^ 128"
  shows "sort_key (sql_edge_key (\<lambda>s. s)) es = es"
proof -
  have "sorted (map (sql_edge_key (\<lambda>s. s)) es)"
    using assms
  proof (induction es)
    case (Cons e es)
    then show ?case using sql_order by auto
  qed simp
  then show ?thesis by (rule sort_key_id_if_sorted)
qed

section \<open>Stored and read back\<close>

definition carries :: "processing_result \<Rightarrow> call_graph \<Rightarrow> bool" where
  "carries p g \<longleftrightarrow> pr_call_edges p = cg_edges g \<and> pr_call_site_count p = cg_call_site_count g
     \<and> pr_exact_edge_count p = cg_exact_edge_count g
     \<and> pr_ambiguous_edge_count p = cg_ambiguous_edge_count g
     \<and> pr_unresolved_call_count p = cg_unresolved_call_count g
     \<and> pr_graph_fingerprint p = cg_fingerprint g"

text \<open>Deleting the symbols of a version deletes its edges, when the foreign keys hold.\<close>

lemma delete_version_edges:
  assumes "\<forall>e \<in> set (db_edges db). edge_refs_ok (db_symbols db) e"
  shows "filter (\<lambda>e. ed_repository_id e = repo \<and> ed_index_version e = ver \<and> Q e)
    (db_edges (delete_version_symbols repo ver db)) = []"
proof -
  have "ce_caller_symbol_id (ed_edge e) \<in> set (map sd_id (filter (\<lambda>s. sd_repository_id s = repo \<and> sd_index_version s = ver)
      (db_symbols db)))"
    if "e \<in> set (db_edges db)" "ed_repository_id e = repo" "ed_index_version e = ver" for e
  proof -
    from assms that(1) obtain s where "s \<in> set (db_symbols db)" "sd_id s = ce_caller_symbol_id (ed_edge e)"
      "sd_repository_id s = ed_repository_id e" "sd_index_version s = ed_index_version e"
      unfolding edge_refs_ok_def list_ex_iff by blast
    with that(2,3) show ?thesis by force
  qed
  then show ?thesis
    unfolding filter_empty_conv by (auto simp: delete_version_symbols_def Let_def delete_where_def)
qed

lemma filter_edge_rows:
  assumes "\<forall>e \<in> set (pr_call_edges p). ce_commit_sha e = sha"
  shows "map ed_edge (filter (\<lambda>e. ed_repository_id e = repo \<and> ed_index_version e = pr_index_version p
      \<and> ce_commit_sha (ed_edge e) = sha) (edge_rows repo p)) = pr_call_edges p"
proof -
  have "map ed_edge (filter (\<lambda>e. ed_repository_id e = repo \<and> ed_index_version e = pr_index_version p
      \<and> ce_commit_sha (ed_edge e) = sha)
      (map (\<lambda>e. \<lparr>ed_repository_id = repo, ed_index_version = pr_index_version p, ed_edge = e\<rparr>) es)) = es"
    if "\<forall>e \<in> set es. ce_commit_sha e = sha" for es
    using that by (induction es) auto
  with assms show ?thesis by (simp add: edge_rows_def)
qed

lemma graph_edge_facts:
  assumes "build_call_graph D m repo ver sha fs symbols = Inr g" and "e \<in> set (cg_edges g)"
  shows "ce_commit_sha e = sha" and "\<exists>c. ce_caller_symbol_id e = deterministic_symbol_id D repo ver c"
  using assms by (auto elim!: build_call_graph_edge simp: call_edge_of_def Let_def)

lemma prepared_build:
  assumes "prepare_build D S c w sha d p fp db = Inr db'" and inv: "db_index_inv db"
    and token: "token_ok w c (db_jobs db)"
  obtains b where "select_first (building_of c (pr_index_version p)) (db_builds db') = Some b"
    and "bld_commit_sha b = sha" and "bld_graph b = graph_counts_of p"
    and "bld_graph_fingerprint b = Some (pr_graph_fingerprint p)"
  using assms(1)
proof (rule prepare_buildD)
  fix job r
  assume job: "owned_job c w db = Some job" and r0: "repository_by_id (job_repository_id job) db = Some r"
    and bs: "db_builds db' = db_builds (store_build S c (repo_id r) sha p fp db)"
  have rid: "repo_id r = cl_repository_id c"
    using token owned_jobD(1,2) [OF job] repository_by_idD [OF r0] by (simp add: token_ok_def)
  let ?at = "build_at (repo_id r) (pr_index_version p)"
  have new: "?at (new_build S c (repo_id r) sha p fp)" by (simp add: build_at_def new_build_def)
  have good: "building_of c (pr_index_version p) b \<and> bld_commit_sha b = sha \<and> bld_graph b = graph_counts_of p
      \<and> bld_graph_fingerprint b = Some (pr_graph_fingerprint p)"
    if "b \<in> set (db_builds db')" "?at b" for b
  proof (cases "select_first ?at (db_builds db)")
    case None
    then have "\<forall>x \<in> set (db_builds db). \<not> ?at x" by (simp add: select_first_None)
    then have "b = new_build S c (repo_id r) sha p fp"
      using that unfolding bs store_build_def None by auto
    with new rid show ?thesis by (simp add: building_of_def new_build_def build_at_def)
  next
    case (Some b0)
    with that obtain b1 where "b1 \<in> set (db_builds db)" "?at b1" "b = reset_build S c sha p fp b1"
      unfolding bs by (auto simp: store_build_def set_update_where build_at_def split: if_splits)
    with rid show ?thesis by (simp add: building_of_def reset_build_def build_at_def)
  qed
  have "\<exists>b \<in> set (db_builds db'). ?at b"
  proof (cases "select_first ?at (db_builds db)")
    case None
    with new show ?thesis unfolding bs by (simp add: store_build_def)
  next
    case (Some b0)
    then have "b0 \<in> set (db_builds db)" "?at b0" by (auto dest: select_first_SomeD)
    moreover have "?at (reset_build S c sha p fp b0)" using \<open>?at b0\<close> by (simp add: build_at_def reset_build_def)
    ultimately show ?thesis unfolding bs using Some by (force simp: store_build_def set_update_where)
  qed
  with good have "\<exists>b \<in> set (db_builds db'). building_of c (pr_index_version p) b" by blast
  then obtain b where b: "select_first (building_of c (pr_index_version p)) (db_builds db') = Some b"
    by (cases "select_first (building_of c (pr_index_version p)) (db_builds db')") (auto simp: select_first_None)
  then have "b \<in> set (db_builds db')" "?at b"
    using rid by (auto dest!: select_first_SomeD simp: building_of_def)
  from that [OF b] good [OF this] show ?thesis by blast
qed

lemma prepared_job:
  assumes "prepare_build D S c w sha d p fp db = Inr db'"
  shows "\<exists>job. owned_job c w db' = Some job \<and> job_target_index_version job = Some (pr_index_version p)"
proof -
  from assms obtain job f where job: "owned_job c w db = Some job"
    and tgt: "job_target_index_version job = Some (pr_index_version p)"
    and js: "db_jobs db' = update_where (\<lambda>j. job_id j = job_id job) f (db_jobs db)"
    and f: "\<And>j. job_core (f j) = job_core j" "\<And>j. job_target_index_version (f j) = job_target_index_version j"
    by (auto simp: prepare_build_def owned_job_repository_def Let_def job_core_def split: option.splits if_splits)
  have own: "owned c w (f j) = owned c w j" for j
    using f(1) [of j] by (simp add: owned_def job_core_def)
  have "select_first (owned c w) (update_where P f js) = map_option (\<lambda>j. if P j then f j else j) (select_first (owned c w) js)"
    for P js
    by (induction js) (auto simp: select_first_def update_where_def own)
  with job tgt f(2) show ?thesis by (simp add: owned_job_def js)
qed

lemma prepared_edges:
  assumes "prepare_build D S c w sha d p fp db = Inr db'" and "token_ok w c (db_jobs db)"
    and "\<forall>e \<in> set (db_edges db). edge_refs_ok (db_symbols db) e"
    and "pr_call_edges p = es" and "\<forall>e \<in> set es. ce_commit_sha e = sha"
  shows "version_edges (cl_repository_id c) (pr_index_version p) sha db' = es"
  using assms(1)
proof (rule prepare_buildD)
  fix job r
  assume job: "owned_job c w db = Some job" and r0: "repository_by_id (job_repository_id job) db = Some r"
    and edges: "db_edges db' = db_edges (delete_version_symbols (repo_id r) (pr_index_version p) db) @ edge_rows (repo_id r) p"
  have rid: "repo_id r = cl_repository_id c"
    using assms(2) owned_jobD(1,2) [OF job] repository_by_idD [OF r0] by (simp add: token_ok_def)
  show ?thesis
    using delete_version_edges [OF assms(3)] filter_edge_rows [of p sha "repo_id r"] assms(4,5)
    by (simp add: version_edges_def edges rid)
qed



end
