(* ===== verification/IntakeContracts.thy ===== *)
theory IntakeContracts
  imports SampleRun
begin

text \<open>
  What the entry points of the system promise: the webhook handler of \<^theory_text>\<open>Webhooks\<close> (signature
  gate, deduplication, superseding of running jobs) and the access services of \<^theory_text>\<open>Access\<close>
  (authorisation, limits, the state of a repository imported again).
\<close>

section \<open>Webhooks\<close>

lemma deliveries_frames:
  "db_deliveries (update_repositories P f db) = db_deliveries db"
  "db_deliveries (update_jobs Q g db) = db_deliveries db"
  "db_deliveries (insert_job j db) = db_deliveries db"
  "db_deliveries (set_installation i h db) = db_deliveries db"
  "db_deliveries (snd (upsert_installation i gi db)) = db_deliveries db"
  "db_deliveries (revoke_installation_repositories i now db) = db_deliveries db"
  "db_deliveries (add_creator now i s db) = db_deliveries db"
  by (simp_all add: update_repositories_def update_jobs_def insert_job_def set_installation_def
      upsert_installation_def revoke_installation_repositories_def add_creator_def split: option.splits)

lemma jobs_frames:
  "db_jobs (update_repositories P f db) = db_jobs db"
  "db_jobs (set_installation i h db) = db_jobs db"
  "db_jobs (snd (upsert_installation i gi db)) = db_jobs db"
  "db_jobs (revoke_installation_repositories i now db) = db_jobs db"
  "db_jobs (add_creator now i s db) = db_jobs db"
  by (simp_all add: update_repositories_def set_installation_def upsert_installation_def
      revoke_installation_repositories_def add_creator_def split: option.splits)

lemmas event_frames = deliveries_frames jobs_frames

lemma grant_repository_frames:
  "db_deliveries (fst (grant_repository rid iid g db pend)) = db_deliveries db"
  "db_jobs (fst (grant_repository rid iid g db pend)) = db_jobs db"
  by (simp_all add: grant_repository_def event_frames split: option.splits)

lemma grant_repositories_frames:
  "db_deliveries (fst (grant_repositories rids n iid gs db pend)) = db_deliveries db
   \<and> db_jobs (fst (grant_repositories rids n iid gs db pend)) = db_jobs db"
  by (induction rids n iid gs db pend rule: grant_repositories.induct)
    (simp_all add: grant_repository_frames case_prod_beta)

lemma apply_installation_frames:
  "db_deliveries (apply_installation ids now p db) = db_deliveries db"
  "db_jobs (apply_installation ids now p db) = db_jobs db"
  by (simp_all add: apply_installation_def case_prod_beta event_frames Let_def split: option.splits)

lemma apply_repository_access_frames:
  "db_deliveries (apply_repository_access ids now p db) = db_deliveries db"
  "db_jobs (apply_repository_access ids now p db) = db_jobs db"
  by (simp_all add: apply_repository_access_def case_prod_beta event_frames grant_repositories_frames
      Let_def split: option.splits)

lemma apply_push_deliveries:
  assumes "apply_push now jid p d db = Inr (job, d', db')"
  shows "db_deliveries db' = db_deliveries db \<and> dlv_delivery_id d' = dlv_delivery_id d"
  using assms
  by (auto simp: apply_push_def finish_delivery_def deliveries_frames Let_def split: if_splits option.splits)

lemma apply_metadata_deliveries:
  assumes "apply_repository_metadata now jid p d db = (job, d', db')"
  shows "db_deliveries db' = db_deliveries db \<and> dlv_delivery_id d' = dlv_delivery_id d"
  using assms
  by (auto simp: apply_repository_metadata_def finish_delivery_def deliveries_frames Let_def
      split: if_splits option.splits)

lemma apply_event_deliveries:
  assumes "apply_event ids now event p d db = Inr (job, d', db')"
  shows "db_deliveries db' = db_deliveries db \<and> dlv_delivery_id d' = dlv_delivery_id d"
  using assms
  by (auto simp: apply_event_def delete_repository_def deliveries_frames apply_installation_frames
      apply_repository_access_frames split: if_splits option.splits bool.splits
      dest: apply_push_deliveries apply_metadata_deliveries)

lemma handled_deliveries:
  assumes "handle_webhook ids now ok digest signature (Some delivery) (Some event) ct (Some p) db = Inr (res, db')"
    and "\<not> list_ex (\<lambda>d. dlv_delivery_id d = delivery) (db_deliveries db)"
  shows "map dlv_delivery_id (db_deliveries db') = map dlv_delivery_id (db_deliveries db) @ [delivery]"
proof -
  have wake: "map dlv_delivery_id (db_deliveries (wake_worker now ok did job db0)) = map dlv_delivery_id (db_deliveries db0)"
    for did job db0
    by (auto simp: wake_worker_def update_jobs_def update_deliveries_def update_where_def split: option.splits)
  have settle: "dlv_delivery_id (settle_delivery now job d) = dlv_delivery_id d" for job d
    by (simp add: settle_delivery_def split: option.splits)
  have received: "dlv_delivery_id (received_delivery i now delivery event p) = delivery" for i
    by (simp add: received_delivery_def)
  show ?thesis
    using assms
    by (auto simp: handle_webhook_def Let_def wake settle received insert_delivery_def
        dest!: apply_event_deliveries split: if_splits sum.splits)
qed

text \<open>
  C19: A webhook is handled only with the right signature over its body, and at most once: it adds one
  delivery row under its delivery id, and handling it again, at any time and whatever the queue does,
  answers that it is a duplicate and changes nothing. A refused webhook changes nothing at all.
\<close>

theorem webhook_handled_once:
  assumes "handle_webhook ids now ok digest signature delivery event ct parsed db = Inr (res, db')"
  shows "signature = Some (''sha256='' @ digest) \<and> length digest = 64
    \<and> handle_webhook ids' now' ok' digest signature delivery event ct parsed db' = Inr (WH_Duplicate, db')
    \<and> (if res = WH_Duplicate then db' = db
       else map Some (map dlv_delivery_id (db_deliveries db'))
         = map Some (map dlv_delivery_id (db_deliveries db)) @ [delivery])"
proof -
  from assms obtain d e p where some: "delivery = Some d" "event = Some e" "parsed = Some p"
    by (auto simp: handle_webhook_def split: option.splits if_splits)
  have gate: "verify_signature digest signature" "media_type ct = py ''application/json''"
      "delivery_pattern d \<and> event_pattern e \<and> supported_payload e p"
    using assms some by (auto simp: handle_webhook_def split: if_splits)
  have sig: "signature = Some (''sha256='' @ digest)" "length digest = 64"
    using gate(1) by (auto simp: verify_signature_def signature_pattern_def split: option.splits)
  let ?old = "list_ex (\<lambda>x. dlv_delivery_id x = d) (db_deliveries db)"
  have dup: "handle_webhook ids' now' ok' digest signature delivery event ct parsed db0 = Inr (WH_Duplicate, db0)"
    if "list_ex (\<lambda>x. dlv_delivery_id x = d) (db_deliveries db0)" for db0
    using gate some that by (simp add: handle_webhook_def)
  show ?thesis
  proof (cases ?old)
    case True
    with assms gate some have "res = WH_Duplicate" "db' = db" by (simp_all add: handle_webhook_def)
    with dup [OF True] sig show ?thesis by simp
  next
    case False
    with assms gate some have "res \<noteq> WH_Duplicate"
      by (auto simp: handle_webhook_def Let_def split: if_splits sum.splits prod.splits)
    moreover have ids: "map dlv_delivery_id (db_deliveries db') = map dlv_delivery_id (db_deliveries db) @ [d]"
      using handled_deliveries [OF assms [unfolded some] False] .
    moreover have "d \<in> dlv_delivery_id ` set (db_deliveries db')"
      using arg_cong [OF ids, of set] by simp
    then have "list_ex (\<lambda>x. dlv_delivery_id x = d) (db_deliveries db')"
      by (auto simp: list_ex_iff)
    ultimately show ?thesis using dup sig some(1) by simp
  qed
qed

definition sample_push :: webhook_payload where
  "sample_push = \<lparr>wp_action = None, wp_installation = Some \<lparr>gi_id = 4,
       gi_account = \<lparr>ga_id = 2, ga_login = ''o'', ga_is_user = True\<rparr>, gi_permissions = [], gi_selection_all = True,
       gi_suspended_at = None\<rparr>, wp_sender = None,
     wp_repository = Some (pm_repository (run_repository ''c'')), wp_repositories_added = [], wp_repositories_removed = [],
     wp_ref = Some ''refs/heads/main'', wp_before = Some ''c'', wp_after = Some ''d'', wp_forced = False, wp_deleted = False\<rparr>"

definition sample_ids :: fresh_ids where
  "sample_ids = \<lparr>id_delivery = 200, id_job = 201, id_installation = 202, id_repositories = (\<lambda>n. 300 + n)\<rparr>"

lemma sample_signature: "verify_signature (replicate 64 CHR ''a'') (Some (''sha256='' @ replicate 64 CHR ''a''))"
proof -
  have "take 7 (''sha256='' @ s) = ''sha256=''" "drop 7 (''sha256='' @ s) = s" "length (''sha256='' @ s) = 7 + length s"
    for s :: string by simp_all
  moreover have "between CHR ''a'' CHR ''f'' CHR ''a''" by (simp add: between_def less_eq_char_def)
  ultimately show ?thesis
    unfolding verify_signature_def signature_pattern_def
    by (simp only: option.case length_replicate list_all_iff set_replicate_conv_if) simp
qed

lemma sample_headers:
  "media_type (Some (py ''application/json'')) = py ''application/json''"
  "delivery_pattern ''d-1''" "event_pattern ''push''" "supported_payload ''push'' sample_push"
  by (simp_all add: media_type_def py_def strip_def lower_def lower_cp_def is_space_def delivery_pattern_def
      event_pattern_def between_def less_eq_char_def supported_payload_def supported_events_def sample_push_def
      no_repository_lists_def)

lemma sample_handled:
  assumes "apply_event sample_ids 8 ''push'' sample_push (received_delivery 200 8 ''d-1'' ''push'' sample_push) db
      = Inr (jb, d', db1)"
    and "db_deliveries db = []" and "repository_keys_ok (db_repositories db1)"
  shows "handle_webhook sample_ids 8 True (replicate 64 CHR ''a'') (Some (''sha256='' @ replicate 64 CHR ''a''))
     (Some ''d-1'') (Some ''push'') (Some (py ''application/json'')) (Some sample_push) db
   = Inr (WH_Accepted, wake_worker 8 True 200 jb (insert_delivery (settle_delivery 8 jb d') db1))"
proof -
  have "id_delivery sample_ids = 200" by (simp add: sample_ids_def)
  with assms sample_signature sample_headers show ?thesis
    by (simp add: handle_webhook_def supported_events_def)
qed

lemma sample_push_handled:
  "handle_webhook sample_ids 8 True (replicate 64 CHR ''a'') (Some (''sha256='' @ replicate 64 CHR ''a''))
     (Some ''d-1'') (Some ''push'') (Some (py ''application/json'')) (Some sample_push) empty_db
   = Inr (WH_Accepted, empty_db\<lparr>db_deliveries := [finish_delivery 8 W_UNAUTHORIZED ''installation_unauthorized''
       (received_delivery 200 8 ''d-1'' ''push'' sample_push)]\<rparr>)"
proof -
  have "apply_event sample_ids 8 ''push'' sample_push (received_delivery 200 8 ''d-1'' ''push'' sample_push) empty_db
    = Inr (None, finish_delivery 8 W_UNAUTHORIZED ''installation_unauthorized''
       (received_delivery 200 8 ''d-1'' ''push'' sample_push), empty_db)"
    by (simp add: apply_event_def apply_push_def sample_push_def active_installation_def empty_db_def select_first_def)
  from sample_handled [OF this] show ?thesis
    by (simp add: empty_db_def repository_keys_ok_def wake_worker_def settle_delivery_def finish_delivery_def
        insert_delivery_def)
qed

theorem webhook_handled_once_witness:
  "handle_webhook sample_ids 9 False (replicate 64 CHR ''a'') (Some (''sha256='' @ replicate 64 CHR ''a''))
     (Some ''d-1'') (Some ''push'') (Some (py ''application/json'')) (Some sample_push)
     (empty_db\<lparr>db_deliveries := [finish_delivery 8 W_UNAUTHORIZED ''installation_unauthorized''
       (received_delivery 200 8 ''d-1'' ''push'' sample_push)]\<rparr>)
   = Inr (WH_Duplicate, empty_db\<lparr>db_deliveries := [finish_delivery 8 W_UNAUTHORIZED ''installation_unauthorized''
       (received_delivery 200 8 ''d-1'' ''push'' sample_push)]\<rparr>)"
  using webhook_handled_once [OF sample_push_handled] by blast

section \<open>A new job supersedes the running one\<close>

text \<open>The effect of an event that creates the job \<open>jid\<close>: one new row, and a new generation of its repository.\<close>

definition superseding :: "uuid \<Rightarrow> db \<Rightarrow> db \<Rightarrow> bool" where
  "superseding jid db db' \<longleftrightarrow>
     (\<exists>job r f. db_jobs db' = db_jobs db @ [job] \<and> job_id job = jid \<and> job_locked_by job = None
        \<and> job_repository_id job = repo_id r \<and> r \<in> set (db_repositories db)
        \<and> db_repositories db' = update_where (\<lambda>x. repo_id x = repo_id r) f (db_repositories db)
        \<and> (\<forall>x. repo_id (f x) = repo_id x)
        \<and> (\<forall>x. repo_refresh_generation (f x) = repo_refresh_generation r + 1))"

lemma supersedingI:
  assumes "db_jobs db' = db_jobs db @ [job]" and "job_id job = jid" and "job_locked_by job = None"
    and "job_repository_id job = repo_id r" and "r \<in> set (db_repositories db)"
    and "db_repositories db' = update_where (\<lambda>x. repo_id x = repo_id r) f (db_repositories db)"
    and "\<And>x. repo_id (f x) = repo_id x" and "\<And>x. repo_refresh_generation (f x) = repo_refresh_generation r + 1"
  shows "superseding jid db db'"
  unfolding superseding_def using assms by blast

lemma granted_member: "granted_repository i g db = Some r \<Longrightarrow> r \<in> set (db_repositories db)"
  unfolding granted_repository_def by (drule select_first_SomeD) simp

lemma apply_push_jobs:
  assumes "apply_push now jid p d db = Inr (res, d', db')"
  shows "db_jobs db' = db_jobs db \<and> res = None \<or> res = Some jid \<and> superseding jid db db'"
  using assms
  by (auto simp: apply_push_def Let_def jobs_frames insert_job_def update_repositories_def queued_job_def
      split: if_splits option.splits intro!: supersedingI dest: granted_member)

lemma update_where_twice:
  "(\<And>x. P (f x) = P x) \<Longrightarrow> update_where P g (update_where P f xs) = update_where P (\<lambda>x. g (f x)) xs"
  by (induction xs) (simp_all add: update_where_def)

lemma apply_metadata_jobs:
  assumes "apply_repository_metadata now jid p d db = (res, d', db')"
  shows "db_jobs db' = db_jobs db \<and> res = None \<or> res = Some jid \<and> superseding jid db db'"
proof -
  have "superseding jid db (insert_job j (update_repositories (\<lambda>x. repo_id x = repo_id r) g
      (update_repositories (\<lambda>x. repo_id x = repo_id r) f db)))"
    if "granted_repository i gid db = Some r" and "job_id j = jid" "job_locked_by j = None" "job_repository_id j = repo_id r"
      and "\<And>x. repo_id (f x) = repo_id x" "\<And>x. repo_id (g x) = repo_id x"
      and "\<And>x. repo_refresh_generation (g x) = repo_refresh_generation r + 1" for i gid r j f g
    using that granted_member [OF that(1)]
    by (intro supersedingI [where job = j and r = r and f = "\<lambda>x. g (f x)"])
      (simp_all add: insert_job_def update_repositories_def update_where_twice)
  then show ?thesis
    using assms
    by (auto simp: apply_repository_metadata_def Let_def jobs_frames queued_job_def split: if_splits option.splits)
qed

lemma apply_event_jobs:
  assumes "apply_event ids now event p d db = Inr (res, d', db')"
  shows "db_jobs db' = db_jobs db \<and> res = None \<or> res = Some (id_job ids) \<and> superseding (id_job ids) db db'"
  using assms apply_push_jobs [of now "id_job ids" p d db res d' db'] apply_metadata_jobs [of now "id_job ids" p d db res d' db']
  by (auto simp: apply_event_def delete_repository_def jobs_frames apply_installation_frames
      apply_repository_access_frames split: if_splits option.splits bool.splits)

lemma select_first_update_other:
  assumes "select_first P xs = Some x" and "\<not> Q x" and "\<And>y. P (f y) = P y"
  shows "select_first P (update_where Q f xs) = Some x"
  using assms by (induction xs) (auto simp: select_first_def update_where_def split: if_splits)

lemma select_first_append: "select_first P xs = Some x \<Longrightarrow> select_first P (xs @ ys) = Some x"
  by (induction xs) (auto simp: select_first_def split: if_splits)

lemma select_first_updated:
  assumes "select_first P xs = Some x" and "\<And>y. P (f y) = P y"
  shows "select_first P (update_where Q f xs) = Some (if Q x then f x else x)"
  using assms by (induction xs) (auto simp: select_first_def update_where_def split: if_splits)

lemma superseding_owned:
  assumes "superseding jid db db1" and "owned_job_repository c w db = Some (job, r)"
    and "distinct (map repo_id (db_repositories db))"
    and "j \<in> set (db_jobs db1)" and "j \<notin> set (db_jobs db)" and "job_repository_id j = repo_id r"
  shows "\<exists>r1. owned_job_repository c w db1 = Some (job, r1) \<and> repo_id r1 = repo_id r
    \<and> repo_refresh_generation r1 = repo_refresh_generation r + 1"
proof -
  obtain new r0 f where s: "db_jobs db1 = db_jobs db @ [new]" "job_repository_id new = repo_id r0"
    "r0 \<in> set (db_repositories db)"
    "db_repositories db1 = update_where (\<lambda>x. repo_id x = repo_id r0) f (db_repositories db)"
    "\<And>x. repo_id (f x) = repo_id x" "\<And>x. repo_refresh_generation (f x) = repo_refresh_generation r0 + 1"
    using assms(1) unfolding superseding_def by blast
  have own: "owned_job c w db = Some job" and at: "repository_by_id (job_repository_id job) db = Some r"
    using assms(2) by (auto simp: owned_job_repository_def split: option.splits)
  have r: "r \<in> set (db_repositories db)" "job_repository_id job = repo_id r"
    using repository_by_idD [OF at] by simp_all
  have "r0 = r"
    using assms(4-6) s(1-3) r(1) assms(3) by (auto dest: distinct_key_unique)
  have "owned_job c w db1 = Some job"
    using own by (simp add: owned_job_def s(1) select_first_append)
  moreover have "repository_by_id (job_repository_id job) db1 = Some (f r)"
    using select_first_updated [OF at [unfolded repository_by_id_def], where f = f and Q = "\<lambda>x. repo_id x = repo_id r0"] s(5)
    by (simp add: repository_by_id_def s(4) \<open>r0 = r\<close>)
  ultimately show ?thesis using s(5,6) \<open>r0 = r\<close> by (simp add: owned_job_repository_def)
qed

lemma wake_worker_owned:
  assumes "owned_job_repository c w db = Some (job, r)" and "\<And>k. res = Some k \<Longrightarrow> job_id job \<noteq> k"
  shows "owned_job_repository c w (wake_worker now ok did res (insert_delivery d db)) = Some (job, r)"
proof -
  have own: "owned_job c w db = Some job" and at: "repository_by_id (job_repository_id job) db = Some r"
    using assms(1) by (auto simp: owned_job_repository_def split: option.splits)
  have "owned_job c w (wake_worker now ok did res (insert_delivery d db)) = Some job"
    using own assms(2)
    by (auto simp: wake_worker_def insert_delivery_def owned_job_def update_jobs_def update_deliveries_def
        owned_def split: option.splits intro: select_first_update_other)
  moreover have "repository_by_id i (wake_worker now ok did res (insert_delivery d db)) = repository_by_id i db" for i
    by (simp add: wake_worker_def insert_delivery_def repository_by_id_def update_jobs_def update_deliveries_def
        split: option.splits)
  ultimately show ?thesis using at by (simp add: owned_job_repository_def)
qed

lemma wake_worker_keys:
  "map (\<lambda>j. (job_id j, job_repository_id j)) (db_jobs (wake_worker now ok did res (insert_delivery d db)))
    = map (\<lambda>j. (job_id j, job_repository_id j)) (db_jobs db)"
  by (simp add: wake_worker_def insert_delivery_def update_jobs_def update_deliveries_def update_where_def
      split: option.splits)

text \<open>
  C20: When a webhook creates a job for a repository (a push, or a change of the default branch) whose
  running job was current, that job stops being current in the same transaction: its worker can no
  longer activate the index it builds.
\<close>

theorem webhook_supersedes_running_job:
  assumes "handle_webhook ids now ok digest signature delivery event ct parsed db = Inr (res, db')"
    and "fresh_ids_ok ids db" and "distinct (map repo_id (db_repositories db))"
    and "owned_job_repository c w db = Some (job, r)"
    and "job_refresh_generation job = repo_refresh_generation r"
    and "j \<in> set (db_jobs db')" and "job_id j \<notin> job_id ` set (db_jobs db)" and "job_repository_id j = repo_id r"
  shows "\<not> is_current c w db' \<and> activate t c w sha db' = Inl activation_race"
proof -
  have job: "job \<in> set (db_jobs db)"
    using assms(4) by (auto simp: owned_job_repository_def owned_job_def dest!: select_first_SomeD split: option.splits)
  have "db' \<noteq> db" using assms(6,7) by blast
  then obtain d e p where some: "delivery = Some d" "event = Some e" "parsed = Some p"
    using assms(1) by (auto simp: handle_webhook_def split: option.splits if_splits)
  let ?row = "received_delivery (id_delivery ids) now d e p"
  have "\<exists>row. db' = insert_delivery row db \<or> (\<exists>jb d' db1. apply_event ids now e p ?row db = Inr (jb, d', db1)
      \<and> db' = wake_worker now ok (id_delivery ids) jb (insert_delivery row db1))"
    using assms(1) \<open>db' \<noteq> db\<close> some
    by (simp add: handle_webhook_def Let_def split: if_splits sum.splits prod.splits) blast+
  moreover have "db' \<noteq> insert_delivery row db" for row
    using assms(6,7) by (auto simp: insert_delivery_def)
  ultimately obtain row jb d' db1 where ev: "apply_event ids now e p ?row db = Inr (jb, d', db1)"
    and db': "db' = wake_worker now ok (id_delivery ids) jb (insert_delivery row db1)" by blast
  have "(job_id j, job_repository_id j) \<in> (\<lambda>j. (job_id j, job_repository_id j)) ` set (db_jobs db')"
    using assms(6) by blast
  also have "\<dots> = (\<lambda>j. (job_id j, job_repository_id j)) ` set (db_jobs db1)"
    using arg_cong [OF wake_worker_keys, of set] by (simp add: db')
  finally obtain new where new: "new \<in> set (db_jobs db1)" "job_id new = job_id j" "job_repository_id new = repo_id r"
    using assms(8) by auto
  then have "new \<notin> set (db_jobs db)" using assms(7) by (metis imageI)
  from apply_event_jobs [OF ev] consider "db_jobs db1 = db_jobs db"
    | "jb = Some (id_job ids)" "superseding (id_job ids) db db1" by blast
  then show ?thesis
  proof cases
    case 1
    with new(1) \<open>new \<notin> set (db_jobs db)\<close> show ?thesis by simp
  next
    case 2
    with superseding_owned [OF 2(2) assms(4,3) new(1) \<open>new \<notin> set (db_jobs db)\<close> new(3)] obtain r1 where
      r1: "owned_job_repository c w db1 = Some (job, r1)" "repo_refresh_generation r1 = repo_refresh_generation r + 1"
      by blast
    have "job_id job \<noteq> id_job ids" using job assms(2) unfolding fresh_ids_ok_def by (metis imageI)
    then have "owned_job_repository c w db' = Some (job, r1)"
      unfolding db' 2(1) by (intro wake_worker_owned [OF r1(1)]) simp
    with r1(2) assms(5) show ?thesis by (simp add: is_current_def activate_def Let_def)
  qed
qed

definition sample_job :: indexing_job where
  "sample_job = (queued_job 100 1 7 None INITIAL_INDEX None (Some ''main'') None None 0)
     \<lparr>job_status := RUNNING, job_attempt := 1, job_locked_by := Some ''w''\<rparr>"

definition sample_row :: repository where
  "sample_row = new_repository 7 (Some 202) GITHUB_INSTALLATION (pm_repository (run_repository ''c''))"

definition sample_db :: db where
  "sample_db = empty_db\<lparr>db_jobs := [sample_job], db_repositories := [sample_row],
     db_installations := [(new_installation 202 (the (wp_installation sample_push)))]\<rparr>"

definition sample_new_job :: indexing_job where
  "sample_new_job = queued_job 201 8 7 None FULL_REBUILD (Some ''d'') (Some ''main'') (Some FULL) None 1"

lemma not_zero_sha: "''d'' \<noteq> zero_sha"
proof
  assume "''d'' = zero_sha"
  then have "length ''d'' = length zero_sha" by (rule arg_cong)
  then show False by (simp add: zero_sha_def)
qed

lemma sample_applies:
  "\<exists>d db1. apply_event sample_ids 8 ''push'' sample_push (received_delivery 200 8 ''d-1'' ''push'' sample_push) sample_db
      = Inr (Some 201, d, db1)
    \<and> db_jobs db1 = [sample_job, sample_new_job]
    \<and> map repo_installation_id (db_repositories db1) = [Some 202]"
  by (simp add: apply_event_def apply_push_def sample_push_def active_installation_def granted_repository_def
      sample_db_def sample_row_def sample_job_def sample_ids_def sample_new_job_def new_installation_def
      fill_installation_def new_repository_def run_repository_def queued_job_def empty_db_def store_eval
      push_mode_def not_zero_sha)

theorem webhook_supersedes_running_job_witness:
  "\<exists>db'. handle_webhook sample_ids 8 True (replicate 64 CHR ''a'') (Some (''sha256='' @ replicate 64 CHR ''a''))
     (Some ''d-1'') (Some ''push'') (Some (py ''application/json'')) (Some sample_push) sample_db = Inr (WH_Accepted, db')
   \<and> activate 9 run_claim ''w'' ''c'' db' = Inl activation_race"
proof -
  obtain d db1 where ev: "apply_event sample_ids 8 ''push'' sample_push (received_delivery 200 8 ''d-1'' ''push'' sample_push) sample_db
      = Inr (Some 201, d, db1)" "db_jobs db1 = [sample_job, sample_new_job]"
      "map repo_installation_id (db_repositories db1) = [Some 202]"
    by (use sample_applies in \<open>elim exE conjE\<close>)
  let ?db' = "wake_worker 8 True 200 (Some 201) (insert_delivery (settle_delivery 8 (Some 201) d) db1)"
  obtain r where "db_repositories db1 = [r]" using ev(3) by auto
  then have handled: "handle_webhook sample_ids 8 True (replicate 64 CHR ''a'') (Some (''sha256='' @ replicate 64 CHR ''a''))
     (Some ''d-1'') (Some ''push'') (Some (py ''application/json'')) (Some sample_push) sample_db = Inr (WH_Accepted, ?db')"
    by (intro sample_handled [OF ev(1)]) (simp_all add: sample_db_def empty_db_def repository_keys_ok_def)
  have fresh: "fresh_ids_ok sample_ids sample_db"
    by (simp add: fresh_ids_ok_def sample_ids_def sample_db_def sample_job_def sample_row_def new_repository_def
        queued_job_def empty_db_def inj_def)
  have ids: "distinct (map repo_id (db_repositories sample_db))" by (simp add: sample_db_def)
  have own: "owned_job_repository run_claim ''w'' sample_db = Some (sample_job, sample_row)"
    by (simp add: owned_job_repository_def owned_job_def owned_def sample_db_def sample_job_def sample_row_def
        run_claim_def repository_by_id_def new_repository_def queued_job_def select_first_def)
  have gen: "job_refresh_generation sample_job = repo_refresh_generation sample_row" "repo_id sample_row = 7"
    by (simp_all add: sample_job_def sample_row_def new_repository_def queued_job_def)
  have "db_jobs ?db' = [sample_job, sample_new_job\<lparr>job_last_enqueued_at := Some 8\<rparr>]"
    by (simp add: wake_worker_def insert_delivery_def update_jobs_def update_where_def ev(2) sample_job_def
        sample_new_job_def queued_job_def)
  moreover have "job_id sample_new_job = 201" "job_repository_id sample_new_job = 7"
    by (simp_all add: sample_new_job_def queued_job_def)
  moreover have "201 \<notin> job_id ` set (db_jobs sample_db)"
    by (simp add: sample_db_def sample_job_def queued_job_def)
  ultimately show ?thesis
    using webhook_supersedes_running_job [OF handled fresh ids own gen(1), of "sample_new_job\<lparr>job_last_enqueued_at := Some 8\<rparr>"]
      gen(2) handled by auto
qed

section \<open>Access\<close>

text \<open>
  C21: A repository is handed to a user only while it is neither revoked nor deleted and either the
  user is a member, verified within the time allowed, of the active installation that owns it, or it is
  public, attached to the user, and its visibility was checked recently or just now on the same
  GitHub repository.
\<close>

theorem authorized_repository_sound:
  assumes "get_authorized_repository A now user repo require_fresh lookup db = (Inr r, db')"
  shows "r \<in> set (db_repositories db') \<and> repo_id r = repo \<and> repo_access_revoked_at r = None \<and> repo_deleted_at r = None
    \<and> ((\<exists>i \<in> set (db_installations db). \<exists>m \<in> set (db_members db).
          repo_installation_id r = Some (inst_id i) \<and> inst_status i = INST_ACTIVE \<and> inst_deleted_at i = None
          \<and> mem_installation_id m = inst_id i \<and> mem_user_id m = user
          \<and> now - seconds (as_membership_ttl_seconds A) \<le> mem_verified_at m)
       \<or> repo_access_mode r = PUBLIC \<and> attached user repo db
          \<and> (\<exists>t. repo_visibility_checked_at r = Some t \<and> now - seconds (as_visibility_ttl_seconds A) \<le> t)
          \<and> (if require_fresh then \<exists>g. lookup = PL_Found g \<and> gr_id (pm_repository g) = repo_github_repository_id r
             else True))"
proof (cases "map_option repo_access_mode (repository_by_id repo db) = Some PUBLIC")
  case False
  then have sel: "select_first (\<lambda>r. repo_id r = repo \<and> private_access (membership_cutoff A now) user r db)
      (db_repositories db) = Some r" and "db' = db"
    using assms unfolding get_authorized_repository_def if_not_P [OF False] by (simp_all split: option.splits)
  from select_first_SomeD [OF sel] have r: "r \<in> set (db_repositories db)" "repo_id r = repo"
    and acc: "private_access (membership_cutoff A now) user r db" by auto
  from acc obtain i where i: "installation_of r db = Some i" "authorized_installation (membership_cutoff A now) user i db"
    "repo_access_revoked_at r = None" "repo_deleted_at r = None"
    by (auto simp: private_access_def split: option.splits)
  from i(1) have "i \<in> set (db_installations db)" "repo_installation_id r = Some (inst_id i)"
    by (auto simp: installation_of_def dest!: select_first_SomeD split: option.splits)
  with i(2-4) r \<open>db' = db\<close> show ?thesis
    by (auto simp: authorized_installation_def member_of_def membership_cutoff_def list_ex_iff)
next
  case True
  then have pub: "get_authorized_public_repository A now user repo require_fresh lookup db = (Inr r, db')"
    using assms unfolding get_authorized_repository_def if_P [OF True] by simp
  then obtain r0 where sel: "select_first (\<lambda>r. repo_id r = repo \<and> public_access user r db) (db_repositories db) = Some r0"
    by (auto simp: get_authorized_public_repository_def split: option.splits)
  from select_first_SomeD [OF sel] have r0: "r0 \<in> set (db_repositories db)" "repo_id r0 = repo" "attached user repo db"
    "repo_access_mode r0 = PUBLIC" "repo_access_revoked_at r0 = None" "repo_deleted_at r0 = None"
    by (auto simp: public_access_def)
  show ?thesis
  proof (cases "\<not> require_fresh \<and> visibility_fresh A now r0")
    case True
    with pub sel have "r = r0" "db' = db" by (simp_all add: get_authorized_public_repository_def)
    with r0 True show ?thesis by (auto simp: visibility_fresh_def split: option.splits)
  next
    case False
    with pub sel obtain g where g: "lookup = PL_Found g" "gr_id (pm_repository g) = repo_github_repository_id r0"
      "r = refresh_identity now g r0" "db' = update_repositories (\<lambda>x. repo_id x = repo) (refresh_identity now g) db"
      by (auto simp: get_authorized_public_repository_def split: public_lookup.splits if_splits)
    have "r \<in> set (db_repositories db')" using r0(1,2) by (force simp: g(3,4) update_repositories_def set_update_where)
    moreover have "repo_visibility_checked_at r = Some now" by (simp add: g(3) refresh_identity_def Let_def)
    moreover have "now - seconds (as_visibility_ttl_seconds A) \<le> now" by (simp add: seconds_def)
    ultimately show ?thesis using r0 g by (simp add: refresh_identity_def Let_def)
  qed
qed

theorem authorized_repository_sound_witness:
  "gr_id (pm_repository (run_repository ''c'')) = 42 \<and>
   (\<exists>r. repo_access_mode r = PUBLIC \<and> repo_github_repository_id r = 42
      \<and> fst (get_authorized_repository run_access 90000000 9 7 True (PL_Found (run_repository ''c'')) run_imported) = Inr r)"
proof -
  obtain r db' where read: "get_authorized_repository run_access 90000000 9 7 True (PL_Found (run_repository ''c'')) run_imported
      = (Inr r, db')" "repo_access_mode r = PUBLIC"
    by (simp add: get_authorized_repository_def get_authorized_public_repository_def repository_by_id_def public_access_def
        attached_def refresh_identity_def run_defs store_eval)
  have "db_installations run_imported = []" by (simp add: run_defs)
  with authorized_repository_sound [OF read(1)] read show ?thesis by (auto simp: run_repository_def)
qed

section \<open>Importing a public repository\<close>

lemma latest_job_Some: "latest_job P db = Some j \<Longrightarrow> j \<in> set (db_jobs db) \<and> P j"
proof -
  assume "latest_job P db = Some j"
  then obtain js where "rev (sort_key job_created_at (filter P (db_jobs db))) = j # js"
    by (auto simp: latest_job_def split: list.splits)
  from arg_cong [OF this, of set] show ?thesis by auto
qed

lemma latest_job_None: "latest_job P db = None \<Longrightarrow> filter P (db_jobs db) = []"
proof -
  assume "latest_job P db = None"
  then have "sort_key job_created_at (filter P (db_jobs db)) = []"
    by (auto simp: latest_job_def split: list.splits)
  from arg_cong [OF this, of set] show ?thesis by (auto simp: filter_empty_conv)
qed

lemma attachD:
  assumes "attach A now rid jid user m expected manual db = Inr (res, queued, db')"
  obtains (step) r db2 where "attach_job now jid user m manual r db2 = (res, queued, db')"
    and "db_jobs db2 = db_jobs db" and "db_builds db2 = db_builds db"
    and "r \<in> set (db_repositories db2)"
    and "case public_row (gr_id (pm_repository m)) db of
        None \<Rightarrow> r = attach_identity now m (new_repository rid None PUBLIC (pm_repository m))
      | Some r0 \<Rightarrow> r = attach_identity now m r0"
    and "attached user (repo_id r) db2"
    and "attachments user db2 \<le> max (attachments user db) (as_repository_limit A)"
proof -
  let ?row = "public_row (gr_id (pm_repository m)) db"
  let ?member = "case ?row of None \<Rightarrow> False | Some r \<Rightarrow> attached user (repo_id r) db"
  define r where "r = (case ?row of None \<Rightarrow> attach_identity now m (new_repository rid None PUBLIC (pm_repository m))
    | Some r \<Rightarrow> attach_identity now m r)"
  define db1 where "db1 = (case ?row of None \<Rightarrow> db\<lparr>db_repositories := db_repositories db @ [r]\<rparr>
    | Some r0 \<Rightarrow> update_repositories (\<lambda>x. repo_id x = repo_id r0) (attach_identity now m) db)"
  define db2 where "db2 = (if ?member then db1 else db1\<lparr>db_user_repositories := db_user_repositories db1
                 @ [\<lparr>ur_user_id = user, ur_repository_id = repo_id r\<rparr>]\<rparr>)"
  have pair: "(case ?row of None \<Rightarrow> (let r = attach_identity now m (new_repository rid None PUBLIC (pm_repository m))
                  in (r, db\<lparr>db_repositories := db_repositories db @ [r]\<rparr>))
      | Some r \<Rightarrow> (attach_identity now m r, update_repositories (\<lambda>x. repo_id x = repo_id r) (attach_identity now m) db))
      = (r, db1)"
    by (cases ?row) (simp_all add: r_def db1_def Let_def)
  have out: "attach_job now jid user m manual r db2 = (res, queued, db')"
    and limit: "\<not> ?member \<Longrightarrow> attachments user db < as_repository_limit A"
    using assms unfolding attach_def Let_def pair [unfolded Let_def] db2_def by (auto split: if_splits)
  have frame: "db_jobs db1 = db_jobs db" "db_builds db1 = db_builds db" "db_user_repositories db1 = db_user_repositories db"
    by (simp_all add: db1_def update_repositories_def split: option.splits)
  have "r \<in> set (db_repositories db1)"
  proof (cases ?row)
    case (Some r0)
    then have "r0 \<in> set (db_repositories db)" unfolding public_row_def by (auto dest: select_first_SomeD)
    with Some show ?thesis by (force simp: r_def db1_def update_repositories_def set_update_where)
  qed (simp add: r_def db1_def)
  moreover have "attached user (repo_id r) db2"
    by (cases ?row) (auto simp: db2_def r_def frame attached_def)
  moreover have "attachments user db2 \<le> max (attachments user db) (as_repository_limit A)"
    using limit by (auto simp: db2_def attachments_def frame simp del: if_split_asm split: if_splits)
  ultimately show thesis
    by (intro step [OF out]) (auto simp: db2_def frame r_def split: option.splits)
qed


lemma attach_first:
  "\<exists>res db'. attach run_access 1 7 100 9 (run_repository ''c'') None False empty_db = Inr (res, Some 100, db')
    \<and> pub_repository_id res = 7 \<and> \<not> pub_already_current res \<and> pub_job res = Some 100"
  by (simp add: attach_def run_access_def public_row_def attached_def attachments_def open_jobs_of_def attach_job_def
      active_build_of_def latest_job_def run_defs store_eval)


text \<open>
  Importing again a public repository whose access had been revoked, while its index is still that of
  the head of its default branch, restores access but neither restores the indexing status nor
  creates a job: the repository stays unsearchable, and every further import or refresh at this
  commit leaves it so.
\<close>

theorem reimport_leaves_unsearchable:
  assumes "public_row (gr_id (pm_repository m)) db = Some r" and "repo_indexing_status r = ACCESS_REVOKED"
    and "active_build_of r db = Some b" and "bld_commit_sha b = pm_default_branch_sha m"
    and "repo_last_indexed_commit_sha r = Some (pm_default_branch_sha m)"
    and "attach A now rid jid user m expected manual db = Inr (res, queued, db')"
  shows "queued = None \<and> pub_already_current res \<and> db_jobs db' = db_jobs db
    \<and> (\<exists>r' \<in> set (db_repositories db'). repo_id r' = repo_id r \<and> repo_access_revoked_at r' = None
        \<and> repo_indexing_status r' = ACCESS_REVOKED \<and> \<not> is_searchable r' \<and> active_index_refused r')"
  using assms(6)
proof (cases rule: attachD)
  case (step r' db2)
  have r': "r' = attach_identity now m r" using step(5) assms(1) by simp
  then have same: "repo_id r' = repo_id r" "repo_index_version r' = repo_index_version r"
      "repo_indexing_status r' = ACCESS_REVOKED" "repo_access_revoked_at r' = None"
      "repo_last_indexed_commit_sha r' = Some (pm_default_branch_sha m)"
    using assms(2,5) by (simp_all add: attach_identity_def Let_def)
  have build: "active_build_of r' db2 = Some b"
    using assms(3) by (simp add: active_build_of_def same step(3))
  have "queued = None \<and> pub_already_current res \<and> db' = db2"
    using step(1) unfolding attach_job_def Let_def build same(5) option.case assms(4)
    by (simp split: if_splits) auto
  with step(2,4) same show ?thesis
    by (auto simp: is_searchable_def active_index_refused_def unsearchable_status_def)
qed

definition revoked_db :: db where
  "revoked_db = revoke_public_access 10 7 run_active"

lemma revoked_rows:
  "db_repositories revoked_db = [run_active_row\<lparr>repo_access_revoked_at := Some 10, repo_indexing_status := ACCESS_REVOKED,
     repo_indexing_stage := Some ''public_access_unavailable''\<rparr>]"
  "db_builds revoked_db = db_builds run_active" "db_user_repositories revoked_db = [\<lparr>ur_user_id = 9, ur_repository_id = 7\<rparr>]"
  "db_jobs revoked_db = db_jobs run_active"
  by (simp_all add: revoked_db_def revoke_public_access_def run_active_def run_active_row_def activated_repository_def
      run_defs3 run_defs2 run_defs store_eval)

lemma active_row_simps:
  "repo_id run_active_row = 7" "repo_access_mode run_active_row = PUBLIC" "repo_github_repository_id run_active_row = 42"
  "repo_index_version run_active_row = 1" "repo_last_indexed_commit_sha run_active_row = Some ''c''"
  by (simp_all add: run_active_row_def activated_repository_def run_defs2 run_defs)

theorem reimport_leaves_unsearchable_witness:
  "\<exists>res db'. attach run_access 11 8 101 9 (run_repository ''c'') None False revoked_db = Inr (res, None, db')
    \<and> db_jobs db' = db_jobs run_active
    \<and> list_ex (\<lambda>r. repo_id r = 7 \<and> \<not> is_searchable r) (db_repositories db')"
proof -
  let ?row = "run_active_row\<lparr>repo_access_revoked_at := Some 10, repo_indexing_status := ACCESS_REVOKED,
     repo_indexing_stage := Some ''public_access_unavailable''\<rparr>"
  have m: "gr_id (pm_repository (run_repository ''c'')) = 42" "pm_default_branch_sha (run_repository ''c'') = ''c''"
    by (simp_all add: run_repository_def)
  have row: "public_row 42 revoked_db = Some ?row"
    by (simp add: public_row_def revoked_rows active_row_simps select_first_def)
  have "\<not> isl (attach run_access 11 8 101 9 (run_repository ''c'') None False revoked_db)"
    by (simp add: attach_def m row attached_def revoked_rows active_row_simps Let_def)
  then obtain res q db' where a: "attach run_access 11 8 101 9 (run_repository ''c'') None False revoked_db = Inr (res, q, db')"
    by (cases "attach run_access 11 8 101 9 (run_repository ''c'') None False revoked_db") auto
  have "\<exists>b. active_build_of ?row revoked_db = Some b \<and> bld_commit_sha b = ''c''"
    by (simp add: active_build_of_def revoked_rows active_row_simps active_at_def build_at_def run_active_def
        run_defs3 run_defs2 run_defs select_first_def)
  then obtain b where b: "active_build_of ?row revoked_db = Some b" "bld_commit_sha b = ''c''" by blast
  from reimport_leaves_unsearchable [OF row [folded m(1)] _ b(1) _ _ a] b(2) m(2) active_row_simps a
  show ?thesis by (auto simp: list_ex_iff revoked_rows)
qed

end
