(* ===== verification/Embedding.thy ===== *)
theory Embedding
  imports Complex_Main Identifiers
begin

text \<open>
  Model inputs and the embedding service: \<^verbatim>\<open>backend/app/embeddings/preprocessing.py\<close> and
  \<^verbatim>\<open>backend/app/embeddings/client.py\<close>. SHA-256 is a parameter; what the service answers (and pydantic
  accepts) is data. A vector component is a finite number or not finite, and whether the rounded
  norm of a finite vector is close to one is a parameter of the settings.
\<close>

section \<open>Canonical JSON\<close>

datatype json = J_Null | J_Nat nat | J_Str pystr | J_List "json list" | J_Obj "(pystr \<times> json) list"

text \<open>\<open>json.dumps(..., ensure_ascii=False)\<close> escapes quotes, backslashes and control characters.\<close>

definition json_escape :: "nat \<Rightarrow> pystr" where
  "json_escape c =
     (if c = 34 then [92, 34] else if c = 92 then [92, 92]
      else if c = 10 then [92, 110] else if c = 13 then [92, 114] else if c = 9 then [92, 116]
      else if c = 8 then [92, 98] else if c = 12 then [92, 102]
      else if c < 32 then [92, 117, 48, 48, hex_digit (c div 16), hex_digit (c mod 16)]
      else [c])"

definition json_string :: "pystr \<Rightarrow> pystr" where
  "json_string s = 34 # concat (map json_escape s) @ [34]"

text \<open>Separators are bare commas and colons; the objects of this code list their keys in sorted order.\<close>

fun json_text :: "json \<Rightarrow> pystr" where
  "json_text J_Null = py ''null''"
| "json_text (J_Nat n) = dec_digits n"
| "json_text (J_Str s) = json_string s"
| "json_text (J_List xs) = 91 # join [44] (map json_text xs) @ [93]"
| "json_text (J_Obj kvs) = 123 # join [44] (map (\<lambda>(k, v). json_string k @ 58 # json_text v) kvs) @ [125]"

section \<open>Preprocessing\<close>

record embedding_settings =
  es_model_identifier :: string
  es_model_revision :: string
  es_dimension :: nat
  es_preprocessing_version :: string
  es_max_document_bytes :: nat
  es_batch_size :: nat
  es_max_attempts :: nat
  es_unit_norm :: "rat list \<Rightarrow> bool"

record prepared_embedding =
  pe_item_id :: pystr
  pe_text :: pystr
  pe_fingerprint :: string
  pe_chunk :: "content_chunk option"

definition policy_fingerprint :: "digests \<Rightarrow> embedding_settings \<Rightarrow> string" where
  "policy_fingerprint D E = sha256_hex D (json_text (J_Obj
     [(py ''dimension'', J_Nat (es_dimension E)),
      (py ''max_document_bytes'', J_Nat (es_max_document_bytes E)),
      (py ''model_identifier'', J_Str (py (es_model_identifier E))),
      (py ''model_revision'', J_Str (py (es_model_revision E))),
      (py ''preprocessing_version'', J_Str (py (es_preprocessing_version E)))]))"

definition optional :: "pystr option \<Rightarrow> json" where
  "optional v = (case v of None \<Rightarrow> J_Null | Some s \<Rightarrow> J_Str s)"

definition content_kind :: "chunk_type \<Rightarrow> string" where
  "content_kind t = (if t = CT_MARKDOWN \<or> t = CT_DOCUMENTATION then ''documentation'' else ''code'')"

definition chunk_metadata :: "content_chunk \<Rightarrow> json" where
  "chunk_metadata c = J_Obj
     [(py ''chunk_type'', J_Str (py (chunk_type_value (ck_chunk_type c)))),
      (py ''content_kind'', J_Str (py (content_kind (ck_chunk_type c)))),
      (py ''decorators'', J_List (map J_Str (ck_decorators c))),
      (py ''end_line'', J_Nat (ck_end_line c)),
      (py ''file_path'', J_Str (ck_file_path c)),
      (py ''heading_hierarchy'', J_List (map J_Str (ck_heading_hierarchy c))),
      (py ''language'', J_Str (py (ck_language c))),
      (py ''parent_symbol'', optional (ck_parent_qualified_name c)),
      (py ''qualified_symbol'', optional (ck_qualified_name c)),
      (py ''signature'', optional (ck_signature c)),
      (py ''start_line'', J_Nat (ck_start_line c)),
      (py ''symbol'', optional (ck_symbol_name c))]"

definition document_too_large :: indexing_error where
  "document_too_large = IndexingError ''embedding_document_too_large''
     ''A repository chunk exceeds the embedding input limit'' False"

definition document_text :: "embedding_settings \<Rightarrow> content_chunk \<Rightarrow> pystr" where
  "document_text E c = join [10]
     [py ''repolume_preprocessing='' @ py (es_preprocessing_version E),
      py ''chunk_metadata='' @ json_text (chunk_metadata c),
      py ''chunk_content_begin'', ck_content c, py ''chunk_content_end'']"

definition input_fingerprint :: "digests \<Rightarrow> embedding_settings \<Rightarrow> pystr \<Rightarrow> string" where
  "input_fingerprint D E text = sha256_hex D (py (policy_fingerprint D E) @ [10] @ text)"

definition prepare_chunk ::
  "digests \<Rightarrow> embedding_settings \<Rightarrow> content_chunk \<Rightarrow> indexing_error + prepared_embedding" where
  "prepare_chunk D E c =
     (let text = document_text E c in
      if es_max_document_bytes E < utf8_len text then Inl document_too_large
      else Inr \<lparr>pe_item_id = dec_digits (ck_ordinal c), pe_text = text,
             pe_fingerprint = input_fingerprint D E text, pe_chunk = Some c\<rparr>)"

definition prepare_query ::
  "digests \<Rightarrow> embedding_settings \<Rightarrow> pystr \<Rightarrow> indexing_error + prepared_embedding" where
  "prepare_query D E query =
     (let text = join [10]
            [py ''repolume_preprocessing='' @ py (es_preprocessing_version E),
             py ''content_kind=query'', py ''query_content_begin'', query, py ''query_content_end''] in
      if es_max_document_bytes E < utf8_len text then Inl document_too_large
      else Inr \<lparr>pe_item_id = py ''query'', pe_text = text,
             pe_fingerprint = input_fingerprint D E text, pe_chunk = None\<rparr>)"

section \<open>The client of the embedding service\<close>

datatype component = Finite rat | Not_Finite

type_synonym vector = "component list"

definition finite_vector :: "vector \<Rightarrow> bool" where
  "finite_vector v \<longleftrightarrow> Not_Finite \<notin> set v"

definition unit_vector :: "(rat list \<Rightarrow> bool) \<Rightarrow> vector \<Rightarrow> bool" where
  "unit_vector unit_norm v \<longleftrightarrow> unit_norm (map (\<lambda>c. case c of Finite q \<Rightarrow> q | Not_Finite \<Rightarrow> 0) v)"

record embedding_response =
  er_model :: string
  er_revision :: string
  er_dimension :: nat
  er_normalized :: bool
  er_results :: "(pystr \<times> vector) list"

text \<open>One HTTP attempt: no connection, or a status with the body (\<open>None\<close> when it does not validate).\<close>

datatype http_attempt = No_Connection | Answered nat "embedding_response option"

definition retryable_statuses :: "nat set" where
  "retryable_statuses = {408, 425, 429, 500, 502, 503, 504}"

definition invalid_response :: "string \<Rightarrow> indexing_error" where
  "invalid_response category =
     IndexingError category ''The embedding service returned an invalid response'' False"

definition refused_status :: "nat \<Rightarrow> indexing_error" where
  "refused_status status =
     (if status = 401 \<or> status = 403
      then IndexingError ''embedding_authentication_failed''
        ''The private embedding service rejected worker authentication'' False
      else if status = 503
      then IndexingError ''embedding_model_not_ready'' ''The embedding model is not ready''
        (status \<in> retryable_statuses)
      else if status = 413 \<or> status = 422
      then IndexingError ''embedding_input_rejected''
        ''A repository chunk was rejected by the embedding service'' (status \<in> retryable_statuses)
      else IndexingError ''embedding_service_failure''
        ''The private embedding service could not generate embeddings'' (status \<in> retryable_statuses))"

text \<open>
  The attempts from number \<open>attempt\<close> on, \<open>left\<close> of them left; \<open>answers n\<close> is what attempt \<open>n\<close> meets.
\<close>

fun request_with_retry ::
  "(nat \<Rightarrow> http_attempt) \<Rightarrow> nat \<Rightarrow> nat \<Rightarrow> indexing_error + embedding_response option" where
  "request_with_retry answers attempt 0 = Inl (InternalError ''retry_exhausted'')"
| "request_with_retry answers attempt (Suc left) =
     (case answers attempt of
        No_Connection \<Rightarrow>
          if left = 0
          then Inl (IndexingError ''embedding_service_unavailable''
                 ''The private embedding service is temporarily unavailable'' True)
          else request_with_retry answers (attempt + 1) left
      | Answered status body \<Rightarrow>
          if status = 200 then Inr body
          else if status \<in> retryable_statuses \<and> 0 < left
          then request_with_retry answers (attempt + 1) left
          else Inl (refused_status status))"

text \<open>The loop over the results; \<open>seen\<close> is the dictionary built so far.\<close>

fun read_results ::
  "embedding_settings \<Rightarrow> pystr list \<Rightarrow> (pystr \<rightharpoonup> vector) \<Rightarrow> (pystr \<times> vector) list
    \<Rightarrow> indexing_error + (pystr \<rightharpoonup> vector)" where
  "read_results E ids seen [] = Inr seen"
| "read_results E ids seen ((i, v) # rs) =
     (if seen i \<noteq> None \<or> i \<notin> set ids then Inl (invalid_response ''unexpected_embedding_result'')
      else if length v \<noteq> es_dimension E then Inl (invalid_response ''embedding_dimension_mismatch'')
      else if \<not> finite_vector v then Inl (invalid_response ''non_finite_embedding'')
      else if \<not> unit_vector (es_unit_norm E) v then Inl (invalid_response ''embedding_normalization_mismatch'')
      else read_results E ids (seen(i \<mapsto> v)) rs)"

definition embed_batch ::
  "embedding_settings \<Rightarrow> (nat \<Rightarrow> http_attempt) \<Rightarrow> prepared_embedding list
    \<Rightarrow> indexing_error + (pystr \<rightharpoonup> vector)" where
  "embed_batch E answers documents =
     (let ids = map pe_item_id documents in
      if \<not> distinct ids then Inl (invalid_response ''duplicate_embedding_request_id'')
      else case request_with_retry answers 1 (es_max_attempts E) of
        Inl e \<Rightarrow> Inl e
      | Inr None \<Rightarrow> Inl (invalid_response ''malformed_embedding_response'')
      | Inr (Some r) \<Rightarrow>
          if er_model r \<noteq> es_model_identifier E \<or> er_revision r \<noteq> es_model_revision E
             \<or> er_dimension r \<noteq> es_dimension E \<or> \<not> er_normalized r
          then Inl (invalid_response ''embedding_model_mismatch'')
          else if length (er_results r) \<noteq> length ids
          then Inl (invalid_response ''embedding_result_count_mismatch'')
          else case read_results E ids Map.empty (er_results r) of
            Inl e \<Rightarrow> Inl e
          | Inr results \<Rightarrow>
              if list_ex (\<lambda>i. results i = None) ids
              then Inl (invalid_response ''missing_embedding_result'') else Inr results)"

text \<open>\<open>range(0, len(documents), batch_size)\<close>; \<open>es_batch_size\<close> is positive (a field constraint).\<close>

function batches :: "nat \<Rightarrow> 'a list \<Rightarrow> 'a list list" where
  "batches k xs = (if xs = [] then [] else if k = 0 then [xs] else take k xs # batches k (drop k xs))"
  by pat_completeness auto

termination by (relation "measure (\<lambda>(k, xs). length xs)") auto

declare batches.simps [simp del]

text \<open>\<open>answers b\<close> is what the attempts of batch number \<open>b\<close> meet.\<close>

fun embed_batches ::
  "embedding_settings \<Rightarrow> (nat \<Rightarrow> nat \<Rightarrow> http_attempt) \<Rightarrow> nat \<Rightarrow> (pystr \<rightharpoonup> vector)
    \<Rightarrow> prepared_embedding list list \<Rightarrow> indexing_error + (pystr \<rightharpoonup> vector)" where
  "embed_batches E answers b got [] = Inr got"
| "embed_batches E answers b got (batch # rest) =
     (case embed_batch E (answers b) batch of
        Inl e \<Rightarrow> Inl e
      | Inr results \<Rightarrow>
          if list_ex (\<lambda>d. got (pe_item_id d) \<noteq> None \<and> results (pe_item_id d) \<noteq> None) batch
          then Inl (invalid_response ''duplicate_embedding_result'')
          else embed_batches E answers (b + 1) (got ++ results) rest)"

definition embed_documents ::
  "embedding_settings \<Rightarrow> (nat \<Rightarrow> nat \<Rightarrow> http_attempt) \<Rightarrow> prepared_embedding list
    \<Rightarrow> indexing_error + (pystr \<rightharpoonup> vector)" where
  "embed_documents E answers documents =
     embed_batches E answers 0 Map.empty (batches (es_batch_size E) documents)"

definition embed_query ::
  "embedding_settings \<Rightarrow> (nat \<Rightarrow> http_attempt) \<Rightarrow> prepared_embedding \<Rightarrow> indexing_error + vector" where
  "embed_query E answers query =
     (case embed_batch E answers [query] of
        Inl e \<Rightarrow> Inl e
      | Inr results \<Rightarrow>
          (case results (pe_item_id query) of
             None \<Rightarrow> Inl (invalid_response ''missing_query_embedding'')
           | Some v \<Rightarrow> Inr v))"

section \<open>Canonical JSON can be read back\<close>

lemma hex_digit_eq: "d < 16 \<Longrightarrow> e < 16 \<Longrightarrow> hex_digit d = hex_digit e \<longleftrightarrow> d = e"
  by (auto simp: hex_digit_def split: if_splits)

lemma json_escape_hd: "json_escape c \<noteq> [] \<and> hd (json_escape c) \<noteq> 34"
  by (simp add: json_escape_def)

definition hex_value :: "nat \<Rightarrow> nat" where
  "hex_value c = (if c < 58 then c - 48 else c - 87)"

lemma hex_value_digit: "d < 16 \<Longrightarrow> hex_value (hex_digit d) = d"
  by (auto simp: hex_value_def hex_digit_def)

text \<open>A reader for one escaped character.\<close>

definition json_unescape :: "pystr \<Rightarrow> nat \<times> pystr" where
  "json_unescape s =
     (if hd s \<noteq> 92 then (hd s, tl s)
      else let c = hd (tl s); r = drop 2 s in
        if c = 110 then (10, r) else if c = 114 then (13, r) else if c = 116 then (9, r)
        else if c = 98 then (8, r) else if c = 102 then (12, r)
        else if c = 117 then (16 * hex_value (s ! 4) + hex_value (s ! 5), drop 6 s)
        else (c, r))"

lemma json_unescape_escape: "json_unescape (json_escape c @ s) = (c, s)"
proof (cases "c < 32 \<and> c \<notin> {8, 9, 10, 12, 13}")
  case True
  then have "json_escape c = [92, 117, 48, 48, hex_digit (c div 16), hex_digit (c mod 16)]"
    by (auto simp: json_escape_def)
  moreover have "c div 16 < 16" using True by linarith
  ultimately show ?thesis by (simp add: json_unescape_def hex_value_digit)
next
  case False
  show ?thesis
  proof (cases "c \<in> {8, 9, 10, 12, 13, 34, 92}")
    case True
    then show ?thesis by (auto simp: json_unescape_def json_escape_def)
  next
    case plain: False
    with False have "json_escape c = [c]" "c \<noteq> 92" by (auto simp: json_escape_def)
    then show ?thesis by (simp add: json_unescape_def)
  qed
qed

lemma json_escape_prefix: "json_escape c @ s = json_escape d @ t \<Longrightarrow> c = d \<and> s = t"
  by (drule arg_cong [where f = json_unescape]) (simp only: json_unescape_escape prod.inject)

lemma json_string_prefix:
  "json_string a @ s = json_string b @ t \<Longrightarrow> a = b \<and> s = t"
proof (induction a arbitrary: b)
  case Nil
  then show ?case
    by (cases b) (auto simp: json_string_def dest!: arg_cong [where f = hd] simp: hd_append json_escape_hd)
next
  case (Cons c a)
  show ?case
  proof (cases b)
    case Nil
    with Cons.prems have "json_escape c @ concat (map json_escape a) @ 34 # s = 34 # t" by (simp add: json_string_def)
    then have "hd (json_escape c @ concat (map json_escape a) @ 34 # s) = 34" by simp
    then show ?thesis by (simp add: json_escape_hd)
  next
    case b: (Cons d b')
    with Cons.prems have "json_escape c @ concat (map json_escape a) @ 34 # s
        = json_escape d @ concat (map json_escape b') @ 34 # t" by (simp add: json_string_def)
    from json_escape_prefix [OF this] Cons.IH [of b'] b show ?thesis by (simp add: json_string_def)
  qed
qed

definition delimited :: "pystr \<Rightarrow> bool" where
  "delimited s \<longleftrightarrow> (case s of [] \<Rightarrow> True | c # _ \<Rightarrow> c < 48 \<or> 57 < c)"

lemma delimited_Cons [simp]: "delimited (c # s) \<longleftrightarrow> c < 48 \<or> 57 < c"
  by (simp add: delimited_def)

lemma dec_digits_prefix:
  assumes "dec_digits m @ s = dec_digits n @ t" and "delimited s" and "delimited t"
  shows "m = n \<and> s = t"
proof -
  let ?digit = "\<lambda>c. 48 \<le> c \<and> c \<le> (57::nat)"
  have split: "takeWhile ?digit (dec_digits k @ u) = dec_digits k" if "delimited u" for k u
    using that dec_digits_range by (subst takeWhile_append2) (auto simp: delimited_def split: list.splits)
  have "dec_digits m = dec_digits n"
    using arg_cong [OF assms(1), of "takeWhile ?digit"] split assms(2,3) by simp
  with dec_digits_inj assms(1) show ?thesis by auto
qed

lemma join_prefix:
  fixes f :: "'a \<Rightarrow> pystr"
  assumes "\<And>x y s t. x \<in> set xs \<Longrightarrow> delimited s \<Longrightarrow> delimited t \<Longrightarrow> f x @ s = f y @ t \<Longrightarrow> x = y \<and> s = t"
    and "\<And>x. f x \<noteq> []" and "\<And>x. hd (f x) \<noteq> stop" and "57 < stop"
    and "join [44] (map f xs) @ stop # s = join [44] (map f ys) @ stop # t"
  shows "xs = ys \<and> s = t"
  using assms(1,5)
proof (induction xs arbitrary: ys)
  case Nil
  then show ?case
  proof (cases ys)
    case (Cons y ys')
    then have "join [44] (map f ys) = f y @ (if ys' = [] then [] else 44 # join [44] (map f ys'))"
      by (simp add: join_Cons)
    with Nil have "hd (stop # s) = hd (f y @ (if ys' = [] then [] else 44 # join [44] (map f ys')) @ stop # t)"
      by simp
    with assms(2,3) [of y] show ?thesis by (auto simp: hd_append split: if_splits)
  qed simp
next
  case (Cons x xs)
  show ?case
  proof (cases ys)
    case Nil
    with Cons.prems(2) have "f x @ (if xs = [] then [] else 44 # join [44] (map f xs)) @ stop # s = stop # t"
      by (simp add: join_Cons split: if_splits)
    then have "hd (f x @ (if xs = [] then [] else 44 # join [44] (map f xs)) @ stop # s) = stop" by simp
    with assms(2,3) [of x] show ?thesis by (simp add: hd_append)
  next
    case ys: (Cons y ys')
    let ?u = "(if xs = [] then [] else 44 # join [44] (map f xs)) @ stop # s"
    let ?v = "(if ys' = [] then [] else 44 # join [44] (map f ys')) @ stop # t"
    have "f x @ ?u = f y @ ?v" using Cons.prems(2) ys by (simp add: join_Cons split: if_splits)
    moreover have "delimited ?u" "delimited ?v" using assms(4) by simp_all
    ultimately have "x = y \<and> ?u = ?v" by (intro Cons.prems(1)) simp_all
    moreover from this have "(xs = []) = (ys' = [])" using assms(4) by (auto split: if_splits)
    ultimately show ?thesis
      using Cons.IH [of ys'] Cons.prems(1) ys by (auto split: if_splits)
  qed
qed

text \<open>The kind of a value shows in the first character of its text.\<close>

definition lead :: "nat \<Rightarrow> nat" where
  "lead c = (if 48 \<le> c \<and> c \<le> 57 then 0 else c)"

fun json_kind :: "json \<Rightarrow> nat" where
  "json_kind J_Null = 110" | "json_kind (J_Nat _) = 0" | "json_kind (J_Str _) = 34"
| "json_kind (J_List _) = 91" | "json_kind (J_Obj _) = 123"

lemma json_lead: "json_text a \<noteq> [] \<and> lead (hd (json_text a)) = json_kind a"
proof (cases a)
  case (J_Nat n)
  have ne: "dec_digits n \<noteq> []" by (subst dec_digits.simps) simp
  then have "hd (dec_digits n) \<in> set (dec_digits n)" by simp
  from dec_digits_range [OF this] ne J_Nat show ?thesis by (simp add: lead_def)
qed (simp_all add: py_def json_string_def lead_def)

lemma json_lead_append: "lead (hd (json_text a @ s)) = json_kind a"
  using json_lead [of a] by (simp add: hd_append)

lemma json_not_stop: "stop = 93 \<or> stop = 125 \<Longrightarrow> hd (json_text a) \<noteq> stop"
  using json_lead [of a] by (cases a) (auto simp: lead_def)

text \<open>Two texts that go on in the same way are texts of the same value.\<close>

lemma json_text_prefix:
  "json_text a @ s = json_text b @ t \<Longrightarrow> delimited s \<Longrightarrow> delimited t \<Longrightarrow> a = b \<and> s = t"
proof (induction a arbitrary: b s t)
  case J_Null
  then have "json_kind b = 110" using json_lead_append [of b t] json_lead_append [of J_Null s] by simp
  then have "b = J_Null" by (cases b) simp_all
  with J_Null(1) show ?case by simp
next
  case (J_Nat n)
  then have "json_kind b = 0" using json_lead_append [of b t] json_lead_append [of "J_Nat n" s] by simp
  then obtain m where "b = J_Nat m" by (cases b) simp_all
  with J_Nat dec_digits_prefix [of n s m t] show ?case by simp
next
  case (J_Str x)
  then have "json_kind b = 34" using json_lead_append [of b t] json_lead_append [of "J_Str x" s] by simp
  then obtain y where "b = J_Str y" by (cases b) simp_all
  with J_Str(1) json_string_prefix [of x s y t] show ?case by simp
next
  case (J_List xs)
  then have "json_kind b = 91" using json_lead_append [of b t] json_lead_append [of "J_List xs" s] by simp
  then obtain ys where b: "b = J_List ys" by (cases b) simp_all
  have "xs = ys \<and> s = t"
    by (rule join_prefix [of xs json_text 93]) (use J_List b json_lead json_not_stop in \<open>simp_all add: json_lead\<close>)
  with b show ?case by simp
next
  case (J_Obj kvs)
  then have "json_kind b = 123" using json_lead_append [of b t] json_lead_append [of "J_Obj kvs" s] by simp
  then obtain kws where b: "b = J_Obj kws" by (cases b) simp_all
  let ?f = "\<lambda>(k, v). json_string k @ 58 # json_text v"
  have item: "x = y \<and> u = v" if "x \<in> set kvs" "delimited u" "delimited v" "?f x @ u = ?f y @ v" for x y u v
  proof -
    obtain k j k' j' where xy: "x = (k, j)" "y = (k', j')" by fastforce
    with that(4) have "json_string k @ 58 # json_text j @ u = json_string k' @ 58 # json_text j' @ v" by simp
    from json_string_prefix [OF this] have "k = k'" "json_text j @ u = json_text j' @ v" by simp_all
    with J_Obj.IH [of x j u j' v] that xy show ?thesis by (simp add: prod_set_defs)
  qed
  have "kvs = kws \<and> s = t"
    by (rule join_prefix [of kvs ?f 125, OF item]) (use J_Obj.prems b in \<open>auto simp: json_string_def\<close>)
  with b show ?case by simp
qed

section \<open>The text of a chunk determines what is embedded\<close>

lemma py_inj: "py s = py t \<longleftrightarrow> s = t"
  by (simp add: py_le_iff order.eq_iff)

lemma optional_inj: "optional v = optional w \<longleftrightarrow> v = w"
  by (auto simp: optional_def split: option.splits)

lemma map_J_Str_inj: "map J_Str xs = map J_Str ys \<longleftrightarrow> xs = ys"
  by (simp add: inj_map_eq_map inj_def)

definition embedded_part where
  "embedded_part c = (ck_chunk_type c, ck_decorators c, ck_file_path c, ck_start_line c, ck_end_line c,
     ck_heading_hierarchy c, ck_language c, ck_symbol_name c, ck_qualified_name c, ck_parent_qualified_name c,
     ck_signature c, ck_content c)"

lemma document_text_inj:
  assumes "document_text E c = document_text E c'"
  shows "embedded_part c = embedded_part c'"
proof -
  let ?tail = "\<lambda>c. 10 # py ''chunk_content_begin'' @ 10 # ck_content c @ 10 # py ''chunk_content_end''"
  have layout: "document_text E c = py ''repolume_preprocessing='' @ py (es_preprocessing_version E) @ 10 #
      py ''chunk_metadata='' @ json_text (chunk_metadata c) @ ?tail c" for c
    by (simp add: document_text_def)
  from assms have "json_text (chunk_metadata c) @ ?tail c = json_text (chunk_metadata c') @ ?tail c'"
    unfolding layout by (simp only: same_append_eq list.inject)
  from json_text_prefix [OF this] have "chunk_metadata c = chunk_metadata c'" "?tail c = ?tail c'" by simp_all
  then show ?thesis
    by (auto simp: chunk_metadata_def embedded_part_def py_inj optional_inj map_J_Str_inj chunk_type_value_inject)
qed

lemma prepare_chunkD:
  assumes "prepare_chunk D E c = Inr p"
  shows "pe_item_id p = dec_digits (ck_ordinal c)" and "pe_text p = document_text E c"
    and "pe_fingerprint p = input_fingerprint D E (document_text E c)" and "pe_chunk p = Some c"
    and "utf8_len (pe_text p) \<le> es_max_document_bytes E"
  using assms by (auto simp: prepare_chunk_def Let_def split: if_splits)

section \<open>What the client accepts\<close>

definition good_vector :: "embedding_settings \<Rightarrow> vector \<Rightarrow> bool" where
  "good_vector E v \<longleftrightarrow> length v = es_dimension E \<and> finite_vector v \<and> unit_vector (es_unit_norm E) v"

lemma read_results_Inr:
  "read_results E ids seen rs = Inr r \<Longrightarrow> (\<forall>v \<in> ran seen. good_vector E v)
    \<Longrightarrow> dom r = dom seen \<union> fst ` set rs \<and> fst ` set rs \<subseteq> set ids \<and> (\<forall>v \<in> ran r. good_vector E v)"
proof (induction E ids seen rs rule: read_results.induct)
  case (2 E ids seen i v rs)
  then have c: "seen i = None" "i \<in> set ids" "good_vector E v" "read_results E ids (seen(i \<mapsto> v)) rs = Inr r"
    by (auto simp: good_vector_def split: if_splits)
  have "\<forall>u \<in> ran (seen(i \<mapsto> v)). good_vector E u" using 2(3) c by (auto simp: ran_def)
  from 2(1) [OF _ _ _ _ c(4) this] c show ?case by (auto simp: good_vector_def)
qed auto

lemma embed_batch_Inr:
  assumes "embed_batch E answers docs = Inr r"
  shows "dom r = pe_item_id ` set docs" and "distinct (map pe_item_id docs)" and "\<forall>v \<in> ran r. good_vector E v"
proof -
  show d: "distinct (map pe_item_id docs)"
    using assms by (auto simp: embed_batch_def Let_def split: if_splits)
  with assms obtain resp where "request_with_retry answers 1 (es_max_attempts E) = Inr (Some resp)"
    by (auto simp: embed_batch_def Let_def split: sum.splits option.splits)
  with assms d have resp: "read_results E (map pe_item_id docs) Map.empty (er_results resp) = Inr r"
    and all: "\<not> list_ex (\<lambda>i. r i = None) (map pe_item_id docs)"
    by (auto simp: embed_batch_def Let_def split: if_splits sum.splits)
  from read_results_Inr [OF resp] have "dom r \<subseteq> pe_item_id ` set docs" "\<forall>v \<in> ran r. good_vector E v" by auto
  moreover have "pe_item_id ` set docs \<subseteq> dom r" using all by (auto simp: list_ex_iff)
  ultimately show "dom r = pe_item_id ` set docs" "\<forall>v \<in> ran r. good_vector E v" by auto
qed

lemma concat_batches: "concat (batches k xs) = xs"
  by (induction k xs rule: batches.induct) (subst batches.simps, auto)

lemma embed_batches_Inr:
  "embed_batches E answers b got bs = Inr r \<Longrightarrow> (\<forall>v \<in> ran got. good_vector E v)
    \<Longrightarrow> dom r = dom got \<union> pe_item_id ` set (concat bs) \<and> distinct (map pe_item_id (concat bs))
      \<and> dom got \<inter> pe_item_id ` set (concat bs) = {} \<and> (\<forall>v \<in> ran r. good_vector E v)"
proof (induction E answers b got bs rule: embed_batches.induct)
  case (2 E answers b got batch rest)
  then obtain results where batch: "embed_batch E (answers b) batch = Inr results"
    and new: "\<not> list_ex (\<lambda>d. got (pe_item_id d) \<noteq> None \<and> results (pe_item_id d) \<noteq> None) batch"
    and rest: "embed_batches E answers (b + 1) (got ++ results) rest = Inr r"
    by (auto split: sum.splits if_splits)
  note d = embed_batch_Inr [OF batch]
  have "\<forall>v \<in> ran (got ++ results). good_vector E v"
    using "2.prems"(2) d(3) by (auto simp: ran_def map_add_Some_iff)
  note ih = "2.IH" [OF batch new rest this]
  have "got (pe_item_id x) = None" if "x \<in> set batch" for x
  proof -
    have "pe_item_id x \<in> dom results" using that by (simp add: d(1))
    with new that show ?thesis unfolding list_ex_iff by blast
  qed
  then have apart: "dom got \<inter> pe_item_id ` set batch = {}" by auto
  have dom: "dom (got ++ results) = dom got \<union> pe_item_id ` set batch" using d(1) by auto
  have parts: "pe_item_id ` set (concat (batch # rest)) = pe_item_id ` set batch \<union> pe_item_id ` set (concat rest)"
    by (simp only: concat.simps set_append image_Un)
  from ih have r: "dom r = dom (got ++ results) \<union> pe_item_id ` set (concat rest)"
    and rest: "distinct (map pe_item_id (concat rest))" and good: "\<forall>v \<in> ran r. good_vector E v"
    and "dom (got ++ results) \<inter> pe_item_id ` set (concat rest) = {}" by iprover+
  from this(4) have away: "dom got \<inter> pe_item_id ` set (concat rest) = {}"
    "pe_item_id ` set batch \<inter> pe_item_id ` set (concat rest) = {}"
    unfolding dom Int_Un_distrib2 Un_empty by iprover+
  show ?case
  proof (intro conjI)
    show "dom r = dom got \<union> pe_item_id ` set (concat (batch # rest))"
      unfolding parts r dom by (rule Un_assoc)
    show "distinct (map pe_item_id (concat (batch # rest)))"
      using d(2) rest away(2) by (simp only: concat.simps map_append distinct_append set_map)
    show "dom got \<inter> pe_item_id ` set (concat (batch # rest)) = {}"
      unfolding parts Int_Un_distrib apart away(1) by simp
  qed (rule good)
qed simp

text \<open>
  When the embedding client returns, it has one vector for every document and for nothing else, the item
  ids were distinct, and every vector has the configured dimension, finite components and unit
  norm, however the documents were batched and however often requests were retried.
\<close>

theorem embed_documents_complete:
  assumes "embed_documents E answers documents = Inr r"
  shows "dom r = pe_item_id ` set documents \<and> distinct (map pe_item_id documents)
    \<and> (\<forall>v \<in> ran r. length v = es_dimension E \<and> finite_vector v \<and> unit_vector (es_unit_norm E) v)"
  using embed_batches_Inr [OF assms [unfolded embed_documents_def]]
  by (simp add: concat_batches good_vector_def)

definition sample_embedding :: embedding_settings where
  "sample_embedding = \<lparr>es_model_identifier = ''m'', es_model_revision = ''r'', es_dimension = 1,
     es_preprocessing_version = ''1'', es_max_document_bytes = 4096, es_batch_size = 2, es_max_attempts = 2,
     es_unit_norm = (\<lambda>v. v = [1])\<rparr>"

theorem embed_documents_complete_witness:
  "embed_documents sample_embedding
     (\<lambda>b n. if n = 1 then Answered 503 None else Answered 200 (Some \<lparr>er_model = ''m'', er_revision = ''r'',
        er_dimension = 1, er_normalized = True, er_results = [(py ''0'', [Finite 1])]\<rparr>))
     [\<lparr>pe_item_id = py ''0'', pe_text = py ''t'', pe_fingerprint = ''f'', pe_chunk = None\<rparr>] = Inr [py ''0'' \<mapsto> [Finite 1]]
   \<and> dom [py ''0'' \<mapsto> [Finite 1]] = {py ''0''}"
proof -
  let ?answers = "\<lambda>(b::nat) (n::nat). if n = 1 then Answered 503 None else Answered 200 (Some \<lparr>er_model = ''m'', er_revision = ''r'',
        er_dimension = 1, er_normalized = True, er_results = [(py ''0'', [Finite 1])]\<rparr>)"
  let ?docs = "[\<lparr>pe_item_id = py ''0'', pe_text = py ''t'', pe_fingerprint = ''f'', pe_chunk = None\<rparr>]"
  have "batches 2 ?docs = [?docs]" by (simp add: batches.simps)
  then have run: "embed_documents sample_embedding ?answers ?docs = Inr [py ''0'' \<mapsto> [Finite 1]]"
    by (simp add: embed_documents_def embed_batch_def sample_embedding_def numeral_2_eq_2 retryable_statuses_def
        finite_vector_def unit_vector_def)
  from embed_documents_complete [OF run] run show ?thesis by simp
qed

end
