(* ===== verification/Actions.thy ===== *)
theory Actions
  imports Models
begin

text \<open>
  Python coroutines as actions on a world: an action ends with a value or an exception and leaves a
  changed world, also when it raises. \<open>seq\<close> is sequencing (with the value bound), \<open>handle\<close> is
  \<^verbatim>\<open>try ... except\<close>, \<open>ensure\<close> is \<^verbatim>\<open>try ... finally\<close>.
\<close>

type_synonym ('w, 'a) act = "'w \<Rightarrow> (indexing_error + 'a) \<times> 'w"

definition ret :: "'a \<Rightarrow> ('w, 'a) act" where
  "ret x w = (Inr x, w)"

definition throw :: "indexing_error \<Rightarrow> ('w, 'a) act" where
  "throw e w = (Inl e, w)"

definition seq :: "('w, 'a) act \<Rightarrow> ('a \<Rightarrow> ('w, 'b) act) \<Rightarrow> ('w, 'b) act" where
  "seq m f w = (case m w of (Inl e, w') \<Rightarrow> (Inl e, w') | (Inr x, w') \<Rightarrow> f x w')"

definition handle :: "('w, 'a) act \<Rightarrow> (indexing_error \<Rightarrow> ('w, 'a) act) \<Rightarrow> ('w, 'a) act" where
  "handle m h w = (case m w of (Inl e, w') \<Rightarrow> h e w' | (Inr x, w') \<Rightarrow> (Inr x, w'))"

text \<open>An exception of the final part replaces the outcome, as in Python.\<close>

definition ensure :: "('w, 'a) act \<Rightarrow> ('w, unit) act \<Rightarrow> ('w, 'a) act" where
  "ensure m c w = (case m w of (r, w') \<Rightarrow>
     (case c w' of (Inl e, w'') \<Rightarrow> (Inl e, w'') | (Inr _, w'') \<Rightarrow> (r, w'')))"

text \<open>\<open>lift\<close> raises the error of a pure computation.\<close>

definition lift :: "indexing_error + 'a \<Rightarrow> ('w, 'a) act" where
  "lift r w = (r, w)"

text \<open>\<open>inspect\<close> reads the world, \<open>change\<close> assigns to it.\<close>

definition inspect :: "('w \<Rightarrow> 'a) \<Rightarrow> ('w, 'a) act" where
  "inspect f w = (Inr (f w), w)"

definition change :: "('w \<Rightarrow> 'w) \<Rightarrow> ('w, unit) act" where
  "change f w = (Inr (), f w)"

fun each :: "('a \<Rightarrow> ('w, unit) act) \<Rightarrow> 'a list \<Rightarrow> ('w, unit) act" where
  "each f [] = ret ()"
| "each f (x # xs) = seq (f x) (\<lambda>_. each f xs)"

text \<open>\<open>map\<close> of a fallible function, in order: the first error is raised.\<close>

fun sequence_map :: "('a \<Rightarrow> indexing_error + 'b) \<Rightarrow> 'a list \<Rightarrow> indexing_error + 'b list" where
  "sequence_map f [] = Inr []"
| "sequence_map f (x # xs) =
     (case f x of
        Inl e \<Rightarrow> Inl e
      | Inr y \<Rightarrow> (case sequence_map f xs of Inl e \<Rightarrow> Inl e | Inr ys \<Rightarrow> Inr (y # ys)))"

lemma sequence_map_Inr:
  "sequence_map f xs = Inr ys \<longleftrightarrow> list_all2 (\<lambda>x y. f x = Inr y) xs ys"
proof (induction xs arbitrary: ys)
  case (Cons x xs)
  show ?case by (cases ys) (auto simp: Cons.IH [symmetric] split: sum.splits)
qed auto

section \<open>Rules\<close>

named_theorems act_simps

lemma ret_simps [act_simps]: "ret x w = (Inr x, w)" "throw e w = (Inl e, w)" "lift r w = (r, w)"
  by (simp_all add: ret_def throw_def lift_def)

lemma seq_Inr: "m w = (Inr x, w') \<Longrightarrow> seq m f w = f x w'"
  by (simp add: seq_def)

lemma seq_Inl: "m w = (Inl e, w') \<Longrightarrow> seq m f w = (Inl e, w')"
  by (simp add: seq_def)

lemma seq_assoc: "seq (seq m f) g = seq m (\<lambda>x. seq (f x) g)"
  by (rule ext) (simp add: seq_def split: prod.splits sum.splits)

lemma seq_ret [simp]: "seq (ret x) f = f x" "seq m ret = m"
  by (rule ext, simp add: seq_def ret_def split: prod.splits sum.splits)+

text \<open>
  A relation between the world before and after that is reflexive and transitive holds across an
  action when it holds across its parts.
\<close>

locale world_relation =
  fixes R :: "'w \<Rightarrow> 'w \<Rightarrow> bool"
  assumes reflexive: "R w w"
    and transitive: "R u v \<Longrightarrow> R v w \<Longrightarrow> R u w"
begin

definition across :: "('w, 'a) act \<Rightarrow> bool" where
  "across m \<longleftrightarrow> (\<forall>w. R w (snd (m w)))"

lemma acrossD: "across m \<Longrightarrow> m w = (r, w') \<Longrightarrow> R w w'"
  unfolding across_def by (metis snd_conv)

lemma across_pure: "across (ret x)" "across (throw e)" "across (lift r)"
  by (simp_all add: across_def act_simps reflexive)

lemma across_inspect: "across (inspect f)"
  by (simp add: across_def inspect_def reflexive)

lemma across_change: "(\<And>w. R w (f w)) \<Longrightarrow> across (change f)"
  by (simp add: across_def change_def)

lemma across_seq: "across m \<Longrightarrow> (\<And>x. across (f x)) \<Longrightarrow> across (seq m f)"
  unfolding across_def seq_def
  by (auto split: prod.splits sum.splits dest: transitive) (metis snd_conv transitive)+

lemma across_handle: "across m \<Longrightarrow> (\<And>e. across (h e)) \<Longrightarrow> across (handle m h)"
  unfolding across_def handle_def
  by (auto split: prod.splits sum.splits dest: transitive) (metis snd_conv transitive)+

lemma across_ensure: "across m \<Longrightarrow> across c \<Longrightarrow> across (ensure m c)"
  unfolding across_def ensure_def
  by (auto split: prod.splits sum.splits dest: transitive) (metis snd_conv transitive)+

lemma across_each: "(\<And>x. across (f x)) \<Longrightarrow> across (each f xs)"
  by (induction xs) (simp_all add: across_pure across_seq)

lemma across_if: "(b \<Longrightarrow> across m) \<Longrightarrow> (\<not> b \<Longrightarrow> across m') \<Longrightarrow> across (if b then m else m')"
  by simp

lemma across_option:
  "across m \<Longrightarrow> (\<And>x. across (f x)) \<Longrightarrow> across (case v of None \<Rightarrow> m | Some x \<Rightarrow> f x)"
  by (cases v) simp_all

lemmas across_intros = across_pure across_inspect across_change across_seq across_handle across_ensure across_each across_if across_option

end

text \<open>
  \<open>yields P m\<close>: when \<open>m\<close> ends normally its value and the world it leaves satisfy \<open>P\<close>.
\<close>

definition yields :: "('a \<Rightarrow> 'w \<Rightarrow> bool) \<Rightarrow> ('w, 'a) act \<Rightarrow> bool" where
  "yields P m \<longleftrightarrow> (\<forall>w x w'. m w = (Inr x, w') \<longrightarrow> P x w')"

lemma yieldsD: "yields P m \<Longrightarrow> m w = (Inr x, w') \<Longrightarrow> P x w'"
  unfolding yields_def by blast

lemma yields_seq: "(\<And>x. yields P (f x)) \<Longrightarrow> yields P (seq m f)"
  unfolding yields_def seq_def by (auto split: prod.splits sum.splits)

lemma yields_throw: "yields P (throw e)"
  by (simp add: yields_def act_simps)

lemma yields_handle: "yields P m \<Longrightarrow> (\<And>e. yields P (h e)) \<Longrightarrow> yields P (handle m h)"
  unfolding yields_def handle_def by (auto split: prod.splits sum.splits)

lemma yields_if: "(b \<Longrightarrow> yields P m) \<Longrightarrow> (\<not> b \<Longrightarrow> yields P m') \<Longrightarrow> yields P (if b then m else m')"
  by simp

lemma yields_ensure:
  assumes "yields (\<lambda>_. P) m" and "\<And>w r w'. P w \<Longrightarrow> c w = (r, w') \<Longrightarrow> P w'"
  shows "yields (\<lambda>_. P) (ensure m c)"
  unfolding yields_def ensure_def
proof (intro allI impI)
  fix w x w'
  assume run: "(case m w of (r, w') \<Rightarrow> (case c w' of (Inl e, w'') \<Rightarrow> (Inl e, w'') | (Inr _, w'') \<Rightarrow> (r, w''))) = (Inr x, w')"
  obtain r v where m: "m w = (r, v)" by fastforce
  obtain q u where c: "c v = (q, u)" by fastforce
  from run m c have "m w = (Inr x, v)" "w' = u" by (auto split: sum.splits)
  with yieldsD [OF assms(1)] assms(2) c show "P w'" by blast
qed

end
