(* ===== verification/Vectors.thy ===== *)
theory Vectors
  imports Embedding Actions
begin

text \<open>
  The vector store adapter: \<^verbatim>\<open>backend/app/vector/qdrant.py\<close>. What Qdrant answers to each attempt is
  data; payloads are maps to the values of decoded JSON (a boolean is an integer, as in Python;
  floats are \<open>P_Float\<close> and, unlike in Python, never equal to an integer; lists and objects are
  \<open>P_Container\<close>). A scrolled result is the list of its pages up to the one without
  a next offset.
\<close>

section \<open>Scopes\<close>

record vector_scope =
  sc_installation_id :: "uuid option"
  sc_repository_id :: uuid
  sc_index_version :: nat
  sc_access_mode :: repository_access_mode
  sc_github_repository_id :: "nat option"

fun access_mode_value :: "repository_access_mode \<Rightarrow> string" where
  "access_mode_value PUBLIC = ''public''"
| "access_mode_value GITHUB_INSTALLATION = ''github_installation''"

text \<open>\<open>__post_init__\<close> refuses inconsistent scopes.\<close>

definition make_scope ::
  "uuid option \<Rightarrow> uuid \<Rightarrow> nat \<Rightarrow> repository_access_mode \<Rightarrow> nat option \<Rightarrow> indexing_error + vector_scope" where
  "make_scope installation repo ver mode github =
     (if ver < 1 then Inl (InternalError ''invalid_index_version'')
      else if mode = PUBLIC \<and> (installation \<noteq> None \<or> github = None \<or> github = Some 0)
      then Inl (InternalError ''invalid_public_vector_scope'')
      else if mode \<noteq> PUBLIC \<and> installation = None
      then Inl (InternalError ''invalid_installation_vector_scope'')
      else Inr \<lparr>sc_installation_id = installation, sc_repository_id = repo, sc_index_version = ver,
             sc_access_mode = mode, sc_github_repository_id = github\<rparr>)"

text \<open>\<open>str(None)\<close> is the text None.\<close>

definition str_optional :: "('a \<Rightarrow> pystr) \<Rightarrow> 'a option \<Rightarrow> pystr" where
  "str_optional f v = (case v of None \<Rightarrow> py ''None'' | Some x \<Rightarrow> f x)"

definition source_scope_id :: "vector_scope \<Rightarrow> pystr" where
  "source_scope_id s =
     (if sc_access_mode s = PUBLIC then str_optional dec_digits (sc_github_repository_id s)
      else str_optional uuid_str (sc_installation_id s))"

section \<open>Records\<close>

datatype payload_value = P_Null | P_Str pystr | P_Int int | P_Float | P_Container

type_synonym payload = "string \<rightharpoonup> payload_value"

definition get :: "payload \<Rightarrow> string \<Rightarrow> payload_value" where
  "get p k = (case p k of None \<Rightarrow> P_Null | Some v \<Rightarrow> v)"

definition nullable :: "pystr option \<Rightarrow> payload_value" where
  "nullable v = (case v of None \<Rightarrow> P_Null | Some s \<Rightarrow> P_Str s)"

record vector_record =
  vr_point_id :: uuid
  vr_vector :: vector
  vr_payload :: payload

definition point_namespace :: uuid where
  "point_namespace = 0xcedab252919754f69603b2f936a85e78"

definition missing_chunk :: indexing_error where
  "missing_chunk = InternalError ''missing_chunk_metadata''"

definition deterministic_point_id :: "digests \<Rightarrow> vector_scope \<Rightarrow> content_chunk \<Rightarrow> uuid" where
  "deterministic_point_id D s c = uuid5 D point_namespace (join [31]
     [py (access_mode_value (sc_access_mode s)), source_scope_id s, uuid_str (sc_repository_id s),
      dec_digits (sc_index_version s), ck_file_path c, py (ck_content_hash c),
      py (chunk_type_value (ck_chunk_type c)), dec_digits (ck_ordinal c)])"

definition embedding_model_fingerprint :: "digests \<Rightarrow> embedding_settings \<Rightarrow> string \<Rightarrow> string" where
  "embedding_model_fingerprint D E policy = sha256_hex D (join [31]
     [py (es_model_identifier E), py (es_model_revision E), dec_digits (es_dimension E),
      py ''l2_normalized'', py policy])"

definition record_payload ::
  "digests \<Rightarrow> embedding_settings \<Rightarrow> string \<Rightarrow> vector_scope \<Rightarrow> string \<Rightarrow> content_chunk \<Rightarrow> payload" where
  "record_payload D E policy s fingerprint c = map_of
     [(''tenant_id'', P_Str (source_scope_id s)),
      (''installation_id'', nullable (map_option uuid_str (sc_installation_id s))),
      (''source_scope_type'', P_Str (py (access_mode_value (sc_access_mode s)))),
      (''source_scope_id'', P_Str (source_scope_id s)),
      (''github_repository_id'', (case sc_github_repository_id s of None \<Rightarrow> P_Null | Some g \<Rightarrow> P_Int (int g))),
      (''repository_id'', P_Str (uuid_str (sc_repository_id s))),
      (''index_version'', P_Int (int (sc_index_version s))),
      (''commit_sha'', P_Str (py (ck_commit_sha c))),
      (''file_path'', P_Str (ck_file_path c)),
      (''language'', P_Str (py (ck_language c))),
      (''chunk_type'', P_Str (py (chunk_type_value (ck_chunk_type c)))),
      (''symbol_name'', nullable (ck_symbol_name c)),
      (''qualified_symbol_name'', nullable (ck_qualified_name c)),
      (''parent_symbol'', nullable (ck_parent_qualified_name c)),
      (''start_line'', P_Int (int (ck_start_line c))),
      (''end_line'', P_Int (int (ck_end_line c))),
      (''content'', P_Str (ck_content c)),
      (''stable_chunk_hash'', P_Str (py (ck_content_hash c))),
      (''preprocessing_fingerprint'', P_Str (py fingerprint)),
      (''preprocessing_policy_fingerprint'', P_Str (py policy)),
      (''embedding_model_identifier'', P_Str (py (es_model_identifier E))),
      (''embedding_model_revision'', P_Str (py (es_model_revision E))),
      (''embedding_model_fingerprint'', P_Str (py (embedding_model_fingerprint D E policy)))]"

definition build_vector_record ::
  "digests \<Rightarrow> embedding_settings \<Rightarrow> string \<Rightarrow> vector_scope \<Rightarrow> prepared_embedding \<Rightarrow> vector
    \<Rightarrow> indexing_error + vector_record" where
  "build_vector_record D E policy s p v =
     (case pe_chunk p of
        None \<Rightarrow> Inl missing_chunk
      | Some c \<Rightarrow> Inr \<lparr>vr_point_id = deterministic_point_id D s c, vr_vector = v,
          vr_payload = record_payload D E policy s (pe_fingerprint p) c\<rparr>)"

section \<open>Filters\<close>

text \<open>\<open>Filter(must=[FieldCondition(key, MatchValue(value))])\<close>: all conditions hold.\<close>

type_synonym filter_conditions = "(string \<times> payload_value) list"

definition scope_filter :: "vector_scope \<Rightarrow> filter_conditions" where
  "scope_filter s =
     (if sc_access_mode s = PUBLIC
      then [(''source_scope_type'', P_Str (py (access_mode_value PUBLIC))),
            (''source_scope_id'', P_Str (source_scope_id s)),
            (''github_repository_id'',
              (case sc_github_repository_id s of None \<Rightarrow> P_Null | Some g \<Rightarrow> P_Int (int g)))]
      else [(''installation_id'', P_Str (str_optional uuid_str (sc_installation_id s)))])
     @ [(''repository_id'', P_Str (uuid_str (sc_repository_id s))),
        (''index_version'', P_Int (int (sc_index_version s)))]"

definition retrieval_filter :: "vector_scope \<Rightarrow> string \<Rightarrow> string \<Rightarrow> string \<Rightarrow> filter_conditions" where
  "retrieval_filter s commit_sha model policy =
     scope_filter s @ [(''commit_sha'', P_Str (py commit_sha)),
       (''embedding_model_fingerprint'', P_Str (py model)),
       (''preprocessing_policy_fingerprint'', P_Str (py policy))]"

definition payload_matches_scope :: "vector_scope \<Rightarrow> payload \<Rightarrow> bool" where
  "payload_matches_scope s p \<longleftrightarrow>
     (if sc_access_mode s = PUBLIC
      then get p ''installation_id'' = P_Null
        \<and> get p ''source_scope_type'' = P_Str (py (access_mode_value PUBLIC))
        \<and> get p ''source_scope_id'' = P_Str (source_scope_id s)
        \<and> get p ''github_repository_id''
            = (case sc_github_repository_id s of None \<Rightarrow> P_Null | Some g \<Rightarrow> P_Int (int g))
      else get p ''installation_id'' = P_Str (str_optional uuid_str (sc_installation_id s)))"

definition in_scope :: "vector_scope \<Rightarrow> payload \<Rightarrow> bool" where
  "in_scope s p \<longleftrightarrow> payload_matches_scope s p
     \<and> get p ''repository_id'' = P_Str (uuid_str (sc_repository_id s))
     \<and> get p ''index_version'' = P_Int (int (sc_index_version s))"

section \<open>Attempts\<close>

text \<open>What one call of the client meets: a result, a status Qdrant answers, or no answer.\<close>

datatype 'a service_attempt = Returned 'a | Unexpected_Status nat | No_Answer

fun run_attempts ::
  "string \<Rightarrow> (nat \<Rightarrow> 'a service_attempt) \<Rightarrow> nat \<Rightarrow> nat \<Rightarrow> indexing_error + 'a" where
  "run_attempts code answers attempt 0 = Inl (InternalError ''retry_exhausted'')"
| "run_attempts code answers attempt (Suc left) =
     (case answers attempt of
        Returned x \<Rightarrow> Inr x
      | Unexpected_Status status \<Rightarrow>
          if status = 401 \<or> status = 403
          then Inl (IndexingError ''qdrant_authentication_failed'' ''Qdrant rejected service authentication'' False)
          else if status \<notin> retryable_statuses \<or> left = 0
          then Inl (IndexingError code ''The vector store operation failed'' (status \<in> retryable_statuses))
          else run_attempts code answers (attempt + 1) left
      | No_Answer \<Rightarrow>
          if left = 0
          then Inl (IndexingError code ''The vector store is temporarily unavailable'' True)
          else run_attempts code answers (attempt + 1) left)"

record vector_settings =
  qs_dimension :: nat
  qs_batch_size :: nat
  qs_max_attempts :: nat
  qs_unit_norm :: "rat list \<Rightarrow> bool"
  qs_model_identifier :: string
  qs_model_revision :: string

definition run_service :: "vector_settings \<Rightarrow> string \<Rightarrow> (nat \<Rightarrow> 'a service_attempt) \<Rightarrow> indexing_error + 'a" where
  "run_service Q code answers = run_attempts code answers 1 (qs_max_attempts Q)"

section \<open>Collection\<close>

text \<open>\<open>ci_vectors\<close>: size and whether the distance is cosine; \<open>None\<close> for another kind of configuration.\<close>

record collection_info =
  ci_vectors :: "(nat \<times> bool) option"
  ci_metadata :: payload
  ci_payload_schema :: "string \<rightharpoonup> string"

definition payload_schema :: "(string \<times> string) list" where
  "payload_schema =
     [(''tenant_id'', ''keyword''), (''installation_id'', ''keyword''), (''source_scope_type'', ''keyword''),
      (''source_scope_id'', ''keyword''), (''github_repository_id'', ''integer''), (''repository_id'', ''keyword''),
      (''index_version'', ''integer''), (''commit_sha'', ''keyword''),
      (''embedding_model_fingerprint'', ''keyword'')]"

definition configuration_mismatch :: indexing_error where
  "configuration_mismatch = IndexingError ''qdrant_collection_mismatch''
     ''Qdrant collection configuration does not match the embedding model'' False"

definition expected_metadata :: "vector_settings \<Rightarrow> (string \<times> payload_value) list" where
  "expected_metadata Q =
     [(''embedding_model_identifier'', P_Str (py (qs_model_identifier Q))),
      (''embedding_model_revision'', P_Str (py (qs_model_revision Q))),
      (''embedding_dimension'', P_Int (int (qs_dimension Q))),
      (''normalization'', P_Str (py ''l2''))]"

text \<open>The loop over the payload schema; the result lists the indexes created.\<close>

fun ensure_indexes ::
  "vector_settings \<Rightarrow> collection_info \<Rightarrow> (string \<Rightarrow> nat \<Rightarrow> unit service_attempt) \<Rightarrow> (string \<times> string) list
    \<Rightarrow> indexing_error + string list" where
  "ensure_indexes Q info answers [] = Inr []"
| "ensure_indexes Q info answers ((field, type) # rest) =
     (case ci_payload_schema info field of
        Some t \<Rightarrow> if t \<noteq> type then Inl configuration_mismatch else ensure_indexes Q info answers rest
      | None \<Rightarrow>
          (case run_service Q ''qdrant_payload_index_failed'' (answers field) of
             Inl e \<Rightarrow> Inl e
           | Inr _ \<Rightarrow>
               (case ensure_indexes Q info answers rest of
                  Inl e \<Rightarrow> Inl e | Inr created \<Rightarrow> Inr (field # created))))"

definition ensure_collection ::
  "vector_settings \<Rightarrow> (nat \<Rightarrow> bool service_attempt) \<Rightarrow> (nat \<Rightarrow> unit service_attempt)
    \<Rightarrow> (nat \<Rightarrow> collection_info service_attempt) \<Rightarrow> (string \<Rightarrow> nat \<Rightarrow> unit service_attempt)
    \<Rightarrow> indexing_error + string list" where
  "ensure_collection Q exists create info index =
     (case run_service Q ''qdrant_unavailable'' exists of
        Inl e \<Rightarrow> Inl e
      | Inr found \<Rightarrow>
          (case (if found then Inr () else run_service Q ''qdrant_collection_creation_failed'' create) of
             Inl e \<Rightarrow> Inl e
           | Inr _ \<Rightarrow>
               (case run_service Q ''qdrant_unavailable'' info of
                  Inl e \<Rightarrow> Inl e
                | Inr i \<Rightarrow>
                    if ci_vectors i \<noteq> Some (qs_dimension Q, True)
                       \<or> list_ex (\<lambda>(k, v). get (ci_metadata i) k \<noteq> v) (expected_metadata Q)
                    then Inl configuration_mismatch
                    else ensure_indexes Q i index payload_schema)))"

section \<open>Writing\<close>

definition vector_scope_mismatch :: indexing_error where
  "vector_scope_mismatch = IndexingError ''vector_scope_mismatch''
     ''A vector record did not match its trusted repository scope'' False"

definition invalid_vector :: indexing_error where
  "invalid_vector = IndexingError ''invalid_vector'' ''An embedding failed vector validation'' False"

definition valid_vector :: "vector_settings \<Rightarrow> vector \<Rightarrow> bool" where
  "valid_vector Q v \<longleftrightarrow> length v = qs_dimension Q \<and> finite_vector v \<and> unit_vector (qs_unit_norm Q) v"

fun validate_records :: "vector_settings \<Rightarrow> vector_scope \<Rightarrow> vector_record list \<Rightarrow> indexing_error option" where
  "validate_records Q s [] = None"
| "validate_records Q s (r # rs) =
     (if \<not> in_scope s (vr_payload r) then Some vector_scope_mismatch
      else if \<not> valid_vector Q (vr_vector r) then Some invalid_vector
      else validate_records Q s rs)"

text \<open>The batches, with those the service has accepted before an error.\<close>

fun upsert_batches ::
  "vector_settings \<Rightarrow> (nat \<Rightarrow> nat \<Rightarrow> unit service_attempt) \<Rightarrow> nat \<Rightarrow> vector_record list list
    \<Rightarrow> indexing_error option \<times> vector_record list" where
  "upsert_batches Q answers b [] = (None, [])"
| "upsert_batches Q answers b (batch # rest) =
     (case run_service Q ''qdrant_upsert_failed'' (answers b) of
        Inl e \<Rightarrow> (Some e, [])
      | Inr _ \<Rightarrow> (case upsert_batches Q answers (b + 1) rest of (e, stored) \<Rightarrow> (e, batch @ stored)))"

definition upsert ::
  "vector_settings \<Rightarrow> (nat \<Rightarrow> nat \<Rightarrow> unit service_attempt) \<Rightarrow> vector_scope \<Rightarrow> vector_record list
    \<Rightarrow> indexing_error option \<times> vector_record list" where
  "upsert Q answers s records =
     (case validate_records Q s records of
        Some e \<Rightarrow> (Some e, [])
      | None \<Rightarrow> upsert_batches Q answers 0 (batches (qs_batch_size Q) records))"

definition delete_scope :: "vector_settings \<Rightarrow> (nat \<Rightarrow> unit service_attempt) \<Rightarrow> indexing_error + unit" where
  "delete_scope Q answers = run_service Q ''qdrant_cleanup_failed'' answers"

section \<open>Reading back\<close>

definition count_scope :: "vector_settings \<Rightarrow> (nat \<Rightarrow> nat service_attempt) \<Rightarrow> indexing_error + nat" where
  "count_scope Q answers = run_service Q ''qdrant_validation_failed'' answers"

definition vector_count_mismatch :: indexing_error where
  "vector_count_mismatch = IndexingError ''vector_count_mismatch''
     ''The inactive vector index failed count validation'' False"

definition vector_metadata_mismatch :: indexing_error where
  "vector_metadata_mismatch = IndexingError ''vector_metadata_mismatch''
     ''The inactive vector index failed metadata validation'' False"

text \<open>The scrolling loop checks the records of a page before it asks for the next one; an element of
  \<open>pages\<close> is what the attempts at one page meet.\<close>

fun validate_pages ::
  "vector_settings \<Rightarrow> (payload \<Rightarrow> bool) \<Rightarrow> nat \<Rightarrow> (nat \<Rightarrow> payload list service_attempt) list
    \<Rightarrow> indexing_error + nat" where
  "validate_pages Q ok seen [] = Inr seen"
| "validate_pages Q ok seen (page # rest) =
     (case run_service Q ''qdrant_validation_failed'' page of
        Inl e \<Rightarrow> Inl e
      | Inr records \<Rightarrow>
          if \<not> list_all ok records then Inl vector_metadata_mismatch
          else validate_pages Q ok (seen + length records) rest)"

definition validate_scope ::
  "vector_settings \<Rightarrow> (nat \<Rightarrow> nat service_attempt) \<Rightarrow> (nat \<Rightarrow> payload list service_attempt) list
    \<Rightarrow> vector_scope \<Rightarrow> nat \<Rightarrow> string \<Rightarrow> string \<Rightarrow> indexing_error + unit" where
  "validate_scope Q counted pages s expected commit_sha model =
     (case count_scope Q counted of
        Inl e \<Rightarrow> Inl e
      | Inr n \<Rightarrow>
          if n \<noteq> expected then Inl vector_count_mismatch
          else case validate_pages Q (\<lambda>p. in_scope s p \<and> get p ''commit_sha'' = P_Str (py commit_sha)
                 \<and> get p ''embedding_model_fingerprint'' = P_Str (py model)) 0 pages of
            Inl e \<Rightarrow> Inl e
          | Inr seen \<Rightarrow> if seen \<noteq> expected then Inl vector_count_mismatch else Inr ())"

section \<open>Reuse\<close>

definition reuse_invalid :: indexing_error where
  "reuse_invalid = IndexingError ''qdrant_reuse_invalid'' ''A reusable vector failed validation'' False"

definition wanted_key :: "prepared_embedding \<Rightarrow> content_chunk \<Rightarrow> payload_value list" where
  "wanted_key p c =
     [P_Str (ck_file_path c), P_Str (py (chunk_type_value (ck_chunk_type c))), P_Str (py (ck_content_hash c)),
      P_Int (int (ck_start_line c)), P_Int (int (ck_end_line c)), nullable (ck_qualified_name c),
      P_Str (py (pe_fingerprint p))]"

text \<open>The dictionary \<open>wanted\<close>; a later document with the same key replaces an earlier one.\<close>

fun wanted_items ::
  "(payload_value list \<rightharpoonup> pystr) \<Rightarrow> prepared_embedding list \<Rightarrow> indexing_error + (payload_value list \<rightharpoonup> pystr)" where
  "wanted_items w [] = Inr w"
| "wanted_items w (p # ps) =
     (case pe_chunk p of
        None \<Rightarrow> Inl missing_chunk
      | Some c \<Rightarrow> wanted_items (w(wanted_key p c \<mapsto> pe_item_id p)) ps)"

definition payload_key :: "payload \<Rightarrow> payload_value list" where
  "payload_key p = map (get p) [''file_path'', ''chunk_type'', ''stable_chunk_hash'', ''start_line'', ''end_line'',
     ''qualified_symbol_name'', ''preprocessing_fingerprint'']"

text \<open>A list or an object has no hash: \<open>wanted.get\<close> raises. A point of a page: its payload and its vector (\<open>None\<close> when it is not a list of numbers).\<close>

fun collect_page ::
  "vector_settings \<Rightarrow> (payload_value list \<rightharpoonup> pystr) \<Rightarrow> (pystr \<rightharpoonup> vector) \<Rightarrow> (payload \<times> vector option) list
    \<Rightarrow> indexing_error + (pystr \<rightharpoonup> vector)" where
  "collect_page Q wanted result [] = Inr result"
| "collect_page Q wanted result ((p, v) # rest) =
     (if P_Container \<in> set (payload_key p) then Inl (InternalError ''TypeError'')
      else case wanted (payload_key p) of
        None \<Rightarrow> collect_page Q wanted result rest
      | Some item \<Rightarrow>
          (case v of
             None \<Rightarrow> Inl reuse_invalid
           | Some x \<Rightarrow>
               if \<not> valid_vector Q x then Inl reuse_invalid
               else collect_page Q wanted (result(item \<mapsto> x)) rest))"

fun collect_pages ::
  "vector_settings \<Rightarrow> (payload_value list \<rightharpoonup> pystr) \<Rightarrow> (pystr \<rightharpoonup> vector)
    \<Rightarrow> (nat \<Rightarrow> (payload \<times> vector option) list service_attempt) list \<Rightarrow> indexing_error + (pystr \<rightharpoonup> vector)" where
  "collect_pages Q wanted result [] = Inr result"
| "collect_pages Q wanted result (page # rest) =
     (case run_service Q ''qdrant_reuse_failed'' page of
        Inl e \<Rightarrow> Inl e
      | Inr records \<Rightarrow>
          (case collect_page Q wanted result records of
             Inl e \<Rightarrow> Inl e | Inr result' \<Rightarrow> collect_pages Q wanted result' rest))"

definition reusable_vectors ::
  "vector_settings \<Rightarrow> (nat \<Rightarrow> (payload \<times> vector option) list service_attempt) list \<Rightarrow> prepared_embedding list
    \<Rightarrow> indexing_error + (pystr \<rightharpoonup> vector)" where
  "reusable_vectors Q pages prepared =
     (case wanted_items Map.empty prepared of
        Inl e \<Rightarrow> Inl e | Inr wanted \<Rightarrow> collect_pages Q wanted Map.empty pages)"

section \<open>Search\<close>

record retrieval_hit =
  rh_score :: rat
  rh_file_path :: pystr
  rh_language :: pystr
  rh_chunk_type :: pystr
  rh_symbol_name :: "pystr option"
  rh_qualified_symbol_name :: "pystr option"
  rh_start_line :: int
  rh_end_line :: int
  rh_content :: pystr
  rh_stable_chunk_hash :: pystr

definition malformed_search_result :: indexing_error where
  "malformed_search_result = IndexingError ''qdrant_malformed_search_result''
     ''The vector store returned malformed evidence'' False"

definition text_of :: "payload_value \<Rightarrow> pystr option" where
  "text_of v = (case v of P_Str s \<Rightarrow> Some s | _ \<Rightarrow> None)"

definition parse_retrieval_hit ::
  "vector_scope \<Rightarrow> string \<Rightarrow> string \<Rightarrow> string \<Rightarrow> component \<times> payload \<Rightarrow> indexing_error + retrieval_hit" where
  "parse_retrieval_hit s commit_sha model policy point =
     (let p = snd point in
      case (fst point, get p ''file_path'', get p ''language'', get p ''chunk_type'', get p ''content'',
            get p ''stable_chunk_hash'', get p ''start_line'', get p ''end_line'') of
        (Finite score, P_Str file, P_Str language, P_Str kind, P_Str content, P_Str hash, P_Int lo, P_Int hi) \<Rightarrow>
          if \<not> in_scope s p \<or> get p ''commit_sha'' \<noteq> P_Str (py commit_sha)
             \<or> get p ''embedding_model_fingerprint'' \<noteq> P_Str (py model)
             \<or> get p ''preprocessing_policy_fingerprint'' \<noteq> P_Str (py policy)
             \<or> lo < 1 \<or> hi < lo \<or> file = [] \<or> content = [] \<or> language = [] \<or> kind = []
             \<or> hd file = 47 \<or> [46, 46] \<in> set (split_on 47 file) \<or> length hash \<noteq> 64
             \<or> get p ''symbol_name'' \<noteq> nullable (text_of (get p ''symbol_name''))
             \<or> get p ''qualified_symbol_name'' \<noteq> nullable (text_of (get p ''qualified_symbol_name''))
          then Inl malformed_search_result
          else Inr \<lparr>rh_score = score, rh_file_path = file, rh_language = language, rh_chunk_type = kind,
                 rh_symbol_name = text_of (get p ''symbol_name''),
                 rh_qualified_symbol_name = text_of (get p ''qualified_symbol_name''),
                 rh_start_line = lo, rh_end_line = hi, rh_content = content, rh_stable_chunk_hash = hash\<rparr>
      | _ \<Rightarrow> Inl malformed_search_result)"

definition invalid_query_vector :: indexing_error where
  "invalid_query_vector = IndexingError ''invalid_query_vector'' ''The query embedding failed validation'' False"

definition search ::
  "vector_settings \<Rightarrow> (nat \<Rightarrow> (component \<times> payload) list service_attempt) \<Rightarrow> vector_scope \<Rightarrow> vector
    \<Rightarrow> string \<Rightarrow> string \<Rightarrow> string \<Rightarrow> indexing_error + retrieval_hit list" where
  "search Q answers s query commit_sha model policy =
     (if \<not> valid_vector Q query then Inl invalid_query_vector
      else case run_service Q ''qdrant_search_failed'' answers of
        Inl e \<Rightarrow> Inl e
      | Inr points \<Rightarrow> sequence_map (parse_retrieval_hit s commit_sha model policy) points)"

section \<open>Scopes are separate\<close>

text \<open>What Qdrant documents of a filter with \<open>must\<close> conditions on keyword and integer fields.\<close>

definition filter_matches :: "filter_conditions \<Rightarrow> payload \<Rightarrow> bool" where
  "filter_matches conds p \<longleftrightarrow> list_all (\<lambda>(k, v). get p k = v \<and> v \<noteq> P_Null) conds"

definition uuids_ok :: "vector_scope \<Rightarrow> bool" where
  "uuids_ok s \<longleftrightarrow> sc_repository_id s < 2 ^ 128
     \<and> (case sc_installation_id s of None \<Rightarrow> True | Some i \<Rightarrow> i < 2 ^ 128)"

lemma make_scopeD:
  assumes "make_scope installation repo ver mode github = Inr s"
  shows "s = \<lparr>sc_installation_id = installation, sc_repository_id = repo, sc_index_version = ver,
             sc_access_mode = mode, sc_github_repository_id = github\<rparr>"
    and "1 \<le> ver" and "mode = PUBLIC \<Longrightarrow> installation = None \<and> github \<noteq> None"
    and "mode = GITHUB_INSTALLATION \<Longrightarrow> installation \<noteq> None"
  using assms by (auto simp: make_scope_def split: if_splits)

lemma get_record_payload:
  "get (record_payload D E policy s fp c) ''installation_id'' = nullable (map_option uuid_str (sc_installation_id s))"
  "get (record_payload D E policy s fp c) ''source_scope_type'' = P_Str (py (access_mode_value (sc_access_mode s)))"
  "get (record_payload D E policy s fp c) ''source_scope_id'' = P_Str (source_scope_id s)"
  "get (record_payload D E policy s fp c) ''github_repository_id''
     = (case sc_github_repository_id s of None \<Rightarrow> P_Null | Some g \<Rightarrow> P_Int (int g))"
  "get (record_payload D E policy s fp c) ''repository_id'' = P_Str (uuid_str (sc_repository_id s))"
  "get (record_payload D E policy s fp c) ''index_version'' = P_Int (int (sc_index_version s))"
  "get (record_payload D E policy s fp c) ''commit_sha'' = P_Str (py (ck_commit_sha c))"
  "get (record_payload D E policy s fp c) ''embedding_model_fingerprint''
     = P_Str (py (embedding_model_fingerprint D E policy))"
  "payload_key (record_payload D E policy s fp c) =
     [P_Str (ck_file_path c), P_Str (py (chunk_type_value (ck_chunk_type c))), P_Str (py (ck_content_hash c)),
      P_Int (int (ck_start_line c)), P_Int (int (ck_end_line c)), nullable (ck_qualified_name c), P_Str (py fp)]"
  by (simp_all add: record_payload_def get_def payload_key_def)

lemma nullable_inj: "nullable v = nullable w \<longleftrightarrow> v = w"
  by (auto simp: nullable_def split: option.splits)

lemma P_Int_option_inj:
  "(case v of None \<Rightarrow> P_Null | Some g \<Rightarrow> P_Int (int g)) = (case w of None \<Rightarrow> P_Null | Some g \<Rightarrow> P_Int (int g))
    \<longleftrightarrow> v = w"
  by (cases v; cases w) simp_all

definition same_source :: "vector_scope \<Rightarrow> vector_scope \<Rightarrow> bool" where
  "same_source s s' \<longleftrightarrow> sc_repository_id s' = sc_repository_id s \<and> sc_index_version s' = sc_index_version s
     \<and> sc_access_mode s' = sc_access_mode s \<and> sc_installation_id s' = sc_installation_id s
     \<and> (if sc_access_mode s = PUBLIC then sc_github_repository_id s' = sc_github_repository_id s else True)"

lemma in_scope_payload:
  assumes "make_scope installation repo ver mode github = Inr s" and "make_scope installation' repo' ver' mode' github' = Inr s'"
    and "uuids_ok s" and "uuids_ok s'"
  shows "in_scope s (record_payload D E policy s' fp c) \<longleftrightarrow> same_source s s'"
proof -
  note s = make_scopeD [OF assms(1)] and s' = make_scopeD [OF assms(2)]
  have repo: "uuid_str repo' = uuid_str repo \<longleftrightarrow> repo' = repo"
    using assms(3,4) uuid_str_eq [of repo' repo] unfolding uuids_ok_def s(1) s'(1) by auto
  show ?thesis
  proof (cases mode)
    case PUBLIC
    show ?thesis
    proof (cases mode')
      case pub: PUBLIC
      have "source_scope_id s' = source_scope_id s" if "github' = github"
        using that PUBLIC pub by (simp add: source_scope_id_def s(1) s'(1))
      then show ?thesis using s(3) s'(3) PUBLIC pub repo
        by (auto simp: in_scope_def payload_matches_scope_def get_record_payload same_source_def s(1) s'(1)
            nullable_def P_Int_option_inj)
    next
      case GITHUB_INSTALLATION
      then show ?thesis using PUBLIC
        by (simp add: in_scope_def payload_matches_scope_def get_record_payload same_source_def s(1) s'(1) py_inj)
    qed
  next
    case GITHUB_INSTALLATION
    then obtain i where i: "installation = Some i" using s(4) by auto
    show ?thesis
    proof (cases mode')
      case PUBLIC
      then show ?thesis using GITHUB_INSTALLATION s'(3)
        by (simp add: in_scope_def payload_matches_scope_def get_record_payload same_source_def s(1) s'(1) nullable_def)
    next
      case priv: GITHUB_INSTALLATION
      then obtain i' where i': "installation' = Some i'" using s'(4) by auto
      have "uuid_str i' = uuid_str i \<longleftrightarrow> i' = i"
        using assms(3,4) uuid_str_eq [of i' i] unfolding uuids_ok_def s(1) s'(1) i i' by auto
      then show ?thesis using GITHUB_INSTALLATION priv repo i i'
        by (auto simp: in_scope_def payload_matches_scope_def get_record_payload same_source_def s(1) s'(1)
            nullable_def str_optional_def)
    qed
  qed
qed

lemma filter_in_scope:
  assumes "make_scope installation repo ver mode github = Inr s" and "make_scope installation' repo' ver' mode' github' = Inr s'"
  shows "filter_matches (scope_filter s) (record_payload D E policy s' fp c) \<longleftrightarrow> in_scope s (record_payload D E policy s' fp c)"
proof -
  note s = make_scopeD [OF assms(1)] and s' = make_scopeD [OF assms(2)]
  show ?thesis
  proof (cases mode)
    case PUBLIC
    then show ?thesis using s(3) s'(3,4)
      by (cases mode') (auto simp: filter_matches_def scope_filter_def in_scope_def payload_matches_scope_def
          get_record_payload s(1) s'(1) nullable_def py_inj)
  qed (auto simp: filter_matches_def scope_filter_def in_scope_def payload_matches_scope_def s(1))
qed

text \<open>
  C36: The filter of a scope selects exactly the points written under the same repository, index version and
  source (the installation, or the public GitHub repository): searching, counting and deleting in
  one scope never touch the points of another repository, version or owner.
\<close>

theorem scopes_isolated:
  assumes "make_scope installation repo ver mode github = Inr s" and "make_scope installation' repo' ver' mode' github' = Inr s'"
    and "uuids_ok s" and "uuids_ok s'"
    and "build_vector_record D E policy s' p v = Inr r"
  shows "filter_matches (scope_filter s) (vr_payload r) \<longleftrightarrow>
    repo' = repo \<and> ver' = ver \<and> mode' = mode \<and> installation' = installation
    \<and> (if mode = PUBLIC then github' = github else True)"
proof -
  obtain c where "vr_payload r = record_payload D E policy s' (pe_fingerprint p) c"
    using assms(5) by (auto simp: build_vector_record_def split: option.splits)
  then show ?thesis
    using filter_in_scope [OF assms(1,2)] in_scope_payload [OF assms(1-4)]
    by (simp add: same_source_def make_scopeD(1) [OF assms(1)] make_scopeD(1) [OF assms(2)])
qed

definition scope_of_witness :: vector_scope where
  "scope_of_witness = \<lparr>sc_installation_id = Some 5, sc_repository_id = 7, sc_index_version = 1,
     sc_access_mode = GITHUB_INSTALLATION, sc_github_repository_id = None\<rparr>"

definition sample_chunk :: content_chunk where
  "sample_chunk = \<lparr>ck_repository_id = 7, ck_index_version = 1, ck_ordinal = 0, ck_file_path = py ''a.py'',
     ck_language = ''python'', ck_chunk_type = CT_FUNCTION, ck_symbol_name = Some (py ''f''),
     ck_qualified_name = Some (py ''f''), ck_parent_qualified_name = None, ck_heading_hierarchy = [],
     ck_imports = [], ck_decorators = [], ck_signature = None, ck_docstring = None, ck_start_line = 1,
     ck_end_line = 2, ck_commit_sha = ''c'', ck_content_hash = ''h'', ck_content = py ''def f(): pass''\<rparr>"

definition sample_prepared :: prepared_embedding where
  "sample_prepared = \<lparr>pe_item_id = py ''0'', pe_text = document_text sample_embedding sample_chunk,
     pe_fingerprint = input_fingerprint sample_digests sample_embedding (document_text sample_embedding sample_chunk),
     pe_chunk = Some sample_chunk\<rparr>"

theorem scopes_isolated_witness:
  "\<not> filter_matches (scope_filter scope_of_witness)
     (record_payload sample_digests sample_embedding ''p'' (scope_of_witness\<lparr>sc_installation_id := Some 6\<rparr>) (pe_fingerprint sample_prepared) sample_chunk)"
proof -
  have s: "make_scope (Some 5) 7 1 GITHUB_INSTALLATION None = Inr scope_of_witness"
    and s': "make_scope (Some 6) 7 1 GITHUB_INSTALLATION None = Inr (scope_of_witness\<lparr>sc_installation_id := Some 6\<rparr>)"
    by (simp_all add: make_scope_def scope_of_witness_def)
  obtain r where r: "build_vector_record sample_digests sample_embedding ''p'' (scope_of_witness\<lparr>sc_installation_id := Some 6\<rparr>)
      sample_prepared [Finite 1] = Inr r"
    "vr_payload r = record_payload sample_digests sample_embedding ''p'' (scope_of_witness\<lparr>sc_installation_id := Some 6\<rparr>)
      (pe_fingerprint sample_prepared) sample_chunk"
    by (simp add: build_vector_record_def sample_prepared_def)
  show ?thesis
    using scopes_isolated [OF s s' _ _ r(1)] by (simp add: r(2) uuids_ok_def scope_of_witness_def)
qed

section \<open>Reuse of vectors\<close>

definition served :: "vector_settings \<Rightarrow> string \<Rightarrow> (nat \<Rightarrow> 'a list service_attempt) list \<Rightarrow> 'a \<Rightarrow> bool" where
  "served Q code pages x \<longleftrightarrow> (\<exists>page \<in> set pages. \<exists>records. run_service Q code page = Inr records \<and> x \<in> set records)"

lemma wanted_items_Inr:
  "wanted_items w ps = Inr wanted \<Longrightarrow> wanted k = Some i \<Longrightarrow>
    w k = Some i \<or> (\<exists>p \<in> set ps. \<exists>c. pe_chunk p = Some c \<and> wanted_key p c = k \<and> pe_item_id p = i)"
proof (induction w ps rule: wanted_items.induct)
  case (2 w p ps)
  then obtain c where c: "pe_chunk p = Some c" "wanted_items (w(wanted_key p c \<mapsto> pe_item_id p)) ps = Inr wanted"
    by (auto split: option.splits)
  from "2.IH" [OF c "2.prems"(2)] c(1) show ?case by (auto split: if_splits)
qed simp

lemma collect_page_Inr:
  "collect_page Q wanted res page = Inr r \<Longrightarrow> r i = Some v \<Longrightarrow>
    res i = Some v \<or> valid_vector Q v \<and> (\<exists>p. (p, Some v) \<in> set page \<and> wanted (payload_key p) = Some i)"
proof (induction Q wanted res page rule: collect_page.induct)
  case (2 Q wanted res p v' rest)
  have key: "P_Container \<notin> set (payload_key p)" using "2.prems"(1) by (auto split: if_splits)
  show ?case
  proof (cases "wanted (payload_key p)")
    case None
    with "2.prems"(1) key have "collect_page Q wanted res rest = Inr r" by simp
    from "2.IH"(1) [OF key None this "2.prems"(2)] show ?thesis by auto
  next
    case (Some item)
    with "2.prems"(1) key obtain x where x: "v' = Some x" "valid_vector Q x"
      "collect_page Q wanted (res(item \<mapsto> x)) rest = Inr r"
      by (auto split: option.splits if_splits)
    from "2.IH"(2) [OF key Some x(1) _ x(3) "2.prems"(2)] x Some show ?thesis by (auto split: if_splits)
  qed
qed simp

lemma collect_pages_Inr:
  "collect_pages Q wanted res pages = Inr r \<Longrightarrow> r i = Some v \<Longrightarrow>
    res i = Some v \<or> valid_vector Q v
      \<and> (\<exists>p. served Q ''qdrant_reuse_failed'' pages (p, Some v) \<and> wanted (payload_key p) = Some i)"
proof (induction Q wanted res pages rule: collect_pages.induct)
  case (2 Q wanted res page rest)
  then obtain records res' where page: "run_service Q ''qdrant_reuse_failed'' page = Inr records"
    "collect_page Q wanted res records = Inr res'" "collect_pages Q wanted res' rest = Inr r"
    by (auto split: sum.splits)
  from "2.IH" [OF page "2.prems"(2)] show ?case
  proof
    assume "res' i = Some v"
    from collect_page_Inr [OF page(2) this] page(1) show ?thesis unfolding served_def by (meson list.set_intros(1))
  qed (auto simp: served_def)
qed simp

definition hashed_input :: "digests \<Rightarrow> embedding_settings \<Rightarrow> content_chunk \<Rightarrow> pystr" where
  "hashed_input D E c = py (policy_fingerprint D E) @ [10] @ document_text E c"

text \<open>
  C37: A vector that is reused for a chunk was stored for a chunk with the same model input: the same
  content, path, lines, type, names, signature, decorators and headings. So incremental indexing
  gives no chunk the embedding of another text, as long as SHA-256 does not collide on these inputs.
\<close>

theorem reuse_sound:
  assumes "reusable_vectors Q pages prepared = Inr r" and "r i = Some v"
    and chunks: "\<And>p. p \<in> set prepared \<Longrightarrow> \<exists>c \<in> set chunks. prepare_chunk D E c = Inr p"
    and stored: "\<And>p w. served Q ''qdrant_reuse_failed'' pages (p, w) \<Longrightarrow> \<exists>c \<in> set old. \<exists>p0 w0. prepare_chunk D E c = Inr p0
        \<and> p = record_payload D E policy s (pe_fingerprint p0) c \<and> w = Some w0 \<and> vector_of c = w0"
    and "inj_on (sha256_hex D) (hashed_input D E ` (set chunks \<union> set old))"
  shows "valid_vector Q v \<and> (\<exists>c \<in> set chunks. \<exists>c0 \<in> set old. i = dec_digits (ck_ordinal c) \<and> vector_of c0 = v
    \<and> ck_content c0 = ck_content c \<and> ck_file_path c0 = ck_file_path c \<and> ck_start_line c0 = ck_start_line c
    \<and> ck_end_line c0 = ck_end_line c \<and> ck_chunk_type c0 = ck_chunk_type c
    \<and> ck_qualified_name c0 = ck_qualified_name c \<and> ck_signature c0 = ck_signature c
    \<and> ck_decorators c0 = ck_decorators c \<and> ck_heading_hierarchy c0 = ck_heading_hierarchy c)"
proof -
  obtain wanted where w: "wanted_items Map.empty prepared = Inr wanted"
    and pages: "collect_pages Q wanted Map.empty pages = Inr r"
    using assms(1) by (auto simp: reusable_vectors_def split: sum.splits)
  from collect_pages_Inr [OF pages assms(2)] obtain p where v: "valid_vector Q v"
    and p: "served Q ''qdrant_reuse_failed'' pages (p, Some v)" "wanted (payload_key p) = Some i" by auto
  from stored [OF p(1)] obtain c0 p0 where c0: "c0 \<in> set old" "prepare_chunk D E c0 = Inr p0"
    "p = record_payload D E policy s (pe_fingerprint p0) c0" "vector_of c0 = v" by auto
  from wanted_items_Inr [OF w p(2)] obtain doc c' where doc: "doc \<in> set prepared" "pe_chunk doc = Some c'"
    "wanted_key doc c' = payload_key p" "pe_item_id doc = i" by auto
  from chunks [OF doc(1)] obtain c where c: "c \<in> set chunks" "prepare_chunk D E c = Inr doc" by blast
  have "pe_fingerprint doc = pe_fingerprint p0"
    using doc(3) by (simp add: c0(3) get_record_payload wanted_key_def py_inj)
  then have "sha256_hex D (hashed_input D E c) = sha256_hex D (hashed_input D E c0)"
    by (simp add: prepare_chunkD(3) [OF c(2)] prepare_chunkD(3) [OF c0(2)] input_fingerprint_def hashed_input_def)
  with assms(5) c(1) c0(1) have "hashed_input D E c = hashed_input D E c0"
    by (auto dest: inj_onD)
  then have "embedded_part c = embedded_part c0"
    by (intro document_text_inj) (simp add: hashed_input_def)
  with c0(4) doc(4) show ?thesis
    by (intro conjI v bexI [OF _ c(1)] bexI [OF _ c0(1)])
      (simp_all add: embedded_part_def prepare_chunkD(1) [OF c(2)])
qed

definition sample_vectors :: vector_settings where
  "sample_vectors = \<lparr>qs_dimension = 1, qs_batch_size = 2, qs_max_attempts = 2, qs_unit_norm = (\<lambda>v. v = [1]),
     qs_model_identifier = ''m'', qs_model_revision = ''r''\<rparr>"


lemma sample_prepared: "prepare_chunk sample_digests sample_embedding sample_chunk = Inr sample_prepared"
proof -
  have "utf8_len (document_text sample_embedding sample_chunk) \<le> 4096"
    by (simp add: utf8_len_def document_text_def sample_embedding_def sample_chunk_def chunk_metadata_def
        json_string_def json_escape_def optional_def content_kind_def py_def dec_digits_small)
  moreover have "es_max_document_bytes sample_embedding = 4096" by (simp add: sample_embedding_def)
  moreover have "dec_digits (ck_ordinal sample_chunk) = py ''0''"
    by (simp add: sample_chunk_def dec_digits_small py_def)
  ultimately show ?thesis by (simp add: prepare_chunk_def sample_prepared_def Let_def)
qed

definition stored_chunk :: content_chunk where
  "stored_chunk = sample_chunk\<lparr>ck_ordinal := 3, ck_commit_sha := ''b''\<rparr>"

lemma stored_text: "document_text E stored_chunk = document_text E sample_chunk"
  by (simp add: document_text_def stored_chunk_def chunk_metadata_def)

lemma stored_prepared:
  "prepare_chunk sample_digests sample_embedding stored_chunk = Inr (sample_prepared\<lparr>pe_item_id := dec_digits 3, pe_chunk := Some stored_chunk\<rparr>)"
  using sample_prepared by (simp add: prepare_chunk_def stored_text sample_prepared_def Let_def split: if_splits)
    (simp add: stored_chunk_def)

definition stored_point :: "payload \<times> vector option" where
  "stored_point = (record_payload sample_digests sample_embedding ''p'' scope_of_witness (pe_fingerprint sample_prepared) stored_chunk,
     Some [Finite 1])"

lemma sample_service: "run_service sample_vectors k (\<lambda>_. Returned x) = Inr x"
  by (simp add: run_service_def sample_vectors_def numeral_2_eq_2)

lemma sample_reuses:
  "reusable_vectors sample_vectors [\<lambda>_. Returned [stored_point]] [sample_prepared] = Inr [py ''0'' \<mapsto> [Finite 1]]"
proof -
  obtain p where sp: "stored_point = (p, Some [Finite 1])" "payload_key p = wanted_key sample_prepared sample_chunk"
    by (simp add: stored_point_def get_record_payload wanted_key_def stored_chunk_def)
  have "pe_chunk sample_prepared = Some sample_chunk" "pe_item_id sample_prepared = py ''0''"
    by (simp_all add: sample_prepared_def)
  moreover have "valid_vector sample_vectors [Finite 1]"
    by (simp add: valid_vector_def sample_vectors_def finite_vector_def unit_vector_def)
  moreover have "P_Container \<notin> set (wanted_key sample_prepared sample_chunk)"
    by (simp add: wanted_key_def nullable_def split: option.split)
  ultimately show ?thesis unfolding sp(1) by (simp add: reusable_vectors_def sample_service sp(2))
qed

theorem reuse_sound_witness:
  "reusable_vectors sample_vectors [\<lambda>_. Returned [stored_point]] [sample_prepared] = Inr [py ''0'' \<mapsto> [Finite 1]]
   \<and> valid_vector sample_vectors [Finite 1]"
proof -
  have "served sample_vectors k [\<lambda>_. Returned [stored_point]] (p, w) \<Longrightarrow> (p, w) = stored_point" for k p w
    by (auto simp: served_def run_service_def sample_vectors_def numeral_2_eq_2)
  then have "\<exists>c \<in> set [stored_chunk]. \<exists>p0 w0. prepare_chunk sample_digests sample_embedding c = Inr p0
      \<and> p = record_payload sample_digests sample_embedding ''p'' scope_of_witness (pe_fingerprint p0) c \<and> w = Some w0
      \<and> (\<lambda>_. [Finite 1]) c = w0"
    if "served sample_vectors ''qdrant_reuse_failed'' [\<lambda>_. Returned [stored_point]] (p, w)" for p w
    using that stored_prepared unfolding stored_point_def by fastforce
  moreover have "\<exists>c \<in> set [sample_chunk]. prepare_chunk sample_digests sample_embedding c = Inr p" if "p \<in> set [sample_prepared]" for p
    using that sample_prepared by simp
  moreover have "inj_on (sha256_hex sample_digests) (hashed_input sample_digests sample_embedding ` (set [sample_chunk] \<union> set [stored_chunk]))"
    by (simp add: hashed_input_def stored_text)
  moreover have "[py ''0'' \<mapsto> [Finite 1]] (py ''0'') = Some [Finite 1]" by simp
  ultimately show ?thesis
    using reuse_sound [OF sample_reuses, of "py ''0''" "[Finite 1]" "[sample_chunk]" sample_digests sample_embedding
        "[stored_chunk]" "''p''" scope_of_witness "\<lambda>_. [Finite 1]"] sample_reuses by blast
qed

section \<open>What was stored validates\<close>

lemma in_scope_own: "in_scope s (record_payload D E policy s fp c) \<longleftrightarrow> (case sc_access_mode s of
    PUBLIC \<Rightarrow> sc_installation_id s = None | GITHUB_INSTALLATION \<Rightarrow> sc_installation_id s \<noteq> None)"
  by (cases "sc_access_mode s"; cases "sc_installation_id s")
    (auto simp: in_scope_def payload_matches_scope_def get_record_payload nullable_def str_optional_def)

lemma upsert_batches_all: "upsert_batches Q answers b bs = (None, stored) \<Longrightarrow> stored = concat bs"
  by (induction Q answers b bs arbitrary: stored rule: upsert_batches.induct) (auto split: sum.splits prod.splits)

lemma upsert_all: "upsert Q answers s records = (None, stored) \<Longrightarrow> stored = records"
  by (auto simp: upsert_def concat_batches split: option.splits dest: upsert_batches_all)

lemma validate_pages_Inr:
  assumes "map (run_service Q ''qdrant_validation_failed'') pages = map Inr pss"
  shows "validate_pages Q ok seen pages
    = (if list_all ok (concat pss) then Inr (seen + length (concat pss)) else Inl vector_metadata_mismatch)"
  using assms
proof (induction pages arbitrary: seen pss)
  case (Cons page pages)
  then obtain ps pss' where "pss = ps # pss'" "run_service Q ''qdrant_validation_failed'' page = Inr ps"
    "map (run_service Q ''qdrant_validation_failed'') pages = map Inr pss'" by (cases pss) auto
  with Cons.IH [of pss'] show ?case by (auto simp: add.assoc)
qed simp

lemma point_name_ordinal:
  assumes "join [31] (xs @ [dec_digits m]) = join [31] (ys @ [dec_digits n])" and "xs \<noteq> []" and "ys \<noteq> []"
  shows "m = n"
proof -
  have no: "31 \<notin> set (dec_digits k)" for k using dec_digits_range [of 31 k] by auto
  have tail: "takeWhile (\<lambda>c. c \<noteq> 31) (rev (join [31] (zs @ [dec_digits k]))) = rev (dec_digits k)" if "zs \<noteq> []" for zs k
  proof -
    have "rev (join [31] (zs @ [dec_digits k])) = rev (dec_digits k) @ 31 # rev (join [31] zs)"
      using that by (simp add: join_append)
    moreover have "takeWhile (\<lambda>c. c \<noteq> 31) (rev (dec_digits k) @ 31 # u) = rev (dec_digits k)" for u
      using no [of k] by (subst takeWhile_append2) auto
    ultimately show ?thesis by simp
  qed
  have "rev (dec_digits m) = rev (dec_digits n)"
    using tail [OF assms(2)] tail [OF assms(3)] by (metis assms(1))
  then show ?thesis by (simp add: dec_digits_inj)
qed

text \<open>\<open>point_name\<close> is the text of which \<open>deterministic_point_id\<close> takes the UUIDv5.\<close>

definition point_name :: "vector_scope \<Rightarrow> content_chunk \<Rightarrow> pystr" where
  "point_name s c = join [31] ([py (access_mode_value (sc_access_mode s)), source_scope_id s,
     uuid_str (sc_repository_id s), dec_digits (sc_index_version s), ck_file_path c, py (ck_content_hash c),
     py (chunk_type_value (ck_chunk_type c))] @ [dec_digits (ck_ordinal c)])"

lemma deterministic_point_id_name: "deterministic_point_id D s c = uuid5 D point_namespace (point_name s c)"
  by (simp add: deterministic_point_id_def point_name_def)

lemma point_ids_distinct:
  assumes "inj_on (uuid5 D point_namespace) (point_name s ` set cs)" and "distinct (map ck_ordinal cs)"
  shows "distinct (map (deterministic_point_id D s) cs)"
proof -
  have "inj_on (deterministic_point_id D s) (set cs)"
  proof (rule inj_onI)
    fix c c' assume c: "c \<in> set cs" "c' \<in> set cs" "deterministic_point_id D s c = deterministic_point_id D s c'"
    then have "point_name s c = point_name s c'"
      using assms(1) by (auto simp: deterministic_point_id_name dest: inj_onD)
    then have "ck_ordinal c = ck_ordinal c'" unfolding point_name_def by (rule point_name_ordinal) simp_all
    with assms(2) c(1,2) show "c = c'" by (auto simp: distinct_map dest: inj_onD)
  qed
  with assms(2) show ?thesis by (auto simp: distinct_map)
qed



end
