(* ===== verification/Analyzer.thy ===== *)
theory Analyzer
  imports DocChunking Discovery CallGraph Actions
begin

text \<open>
  Static processing of a checkout: \<^verbatim>\<open>backend/app/indexing/analyzer.py\<close>. The analyzer reads the discovered
  files again, parses and chunks them, builds the call graph and returns the processing result; a
  child process runs it and reports over a pipe to the worker, which waits until a deadline. What the
  operating system answers for a path is data; \<^verbatim>\<open>PythonStaticParser.parse\<close> is the parameter \<open>parse\<close>
  (\<open>None\<close> when it raises).
\<close>

section \<open>Limits and files\<close>

record parser_limits =
  pl_max_input_bytes :: nat
  pl_max_symbol_bytes :: nat
  pl_max_chunk_bytes :: nat
  pl_max_chunks_per_file :: nat
  pl_max_total_chunks :: nat
  pl_max_total_chunk_bytes :: nat
  pl_max_document_section_bytes :: nat
  pl_max_warnings_per_file :: nat
  pl_max_total_call_sites :: nat

definition chunker_limits_of :: "parser_limits \<Rightarrow> chunker_limits" where
  "chunker_limits_of L =
     \<lparr>max_symbol_bytes = pl_max_symbol_bytes L, max_chunk_bytes = pl_max_chunk_bytes L,
      max_section_bytes = pl_max_document_section_bytes L,
      max_chunks_per_file = pl_max_chunks_per_file L, max_warnings = pl_max_warnings_per_file L\<rparr>"

text \<open>
  \<open>Unresolved\<close>: a symbolic link, or a path that does not resolve. \<open>Resolved inside regular size bytes\<close>:
  what \<open>resolve\<close>, \<open>stat\<close> and \<open>open\<close> answer (\<open>None\<close> when reading fails).
\<close>

datatype source_answer = Unresolved | Resolved bool bool nat "nat list option"

datatype read_result = Read_Error indexing_error | Skipped string | Source pystr

definition unsafe_path :: indexing_error where
  "unsafe_path = IndexingError ''unsafe_repository_path'' ''Repository contains an unsafe path'' False"

definition internal_parser_failure :: indexing_error where
  "internal_parser_failure = IndexingError ''internal_parser_failure''
     ''Static repository processing failed safely'' False"

section \<open>Strict UTF-8\<close>

definition continuation :: "nat \<Rightarrow> bool" where
  "continuation b \<longleftrightarrow> 128 \<le> b \<and> b < 192"

text \<open>\<open>bytes.decode("utf-8")\<close>: no overlong forms, no surrogates, nothing beyond U+10FFFF.\<close>

fun utf8_decode :: "nat list \<Rightarrow> pystr option" where
  "utf8_decode [] = Some []"
| "utf8_decode (a # r) =
     (if a < 128 then map_option (\<lambda>s. a # s) (utf8_decode r)
      else case r of
        [] \<Rightarrow> None
      | b # r2 \<Rightarrow>
          if \<not> continuation b then None
          else if 194 \<le> a \<and> a < 224
          then map_option (\<lambda>s. ((a - 192) * 64 + (b - 128)) # s) (utf8_decode r2)
          else case r2 of
            [] \<Rightarrow> None
          | c # r3 \<Rightarrow>
              if \<not> continuation c then None
              else if 224 \<le> a \<and> a < 240
              then (let u = (a - 224) * 4096 + (b - 128) * 64 + (c - 128) in
                if u < 2048 \<or> 55296 \<le> u \<and> u < 57344 then None
                else map_option (\<lambda>s. u # s) (utf8_decode r3))
              else case r3 of
                [] \<Rightarrow> None
              | d # r4 \<Rightarrow>
                  if \<not> continuation d \<or> a < 240 \<or> 245 \<le> a then None
                  else (let u = (a - 240) * 262144 + (b - 128) * 4096 + (c - 128) * 64 + (d - 128) in
                    if u < 65536 \<or> 1114111 < u then None
                    else map_option (\<lambda>s. u # s) (utf8_decode r4)))"

text \<open>\<open>decode("utf-8-sig")\<close> drops one byte order mark.\<close>

definition decode_utf8_sig :: "nat list \<Rightarrow> pystr option" where
  "decode_utf8_sig raw = utf8_decode (if take 3 raw = [239, 187, 191] then drop 3 raw else raw)"

definition read_source ::
  "parser_limits \<Rightarrow> (pystr list \<Rightarrow> source_answer) \<Rightarrow> pystr \<Rightarrow> nat \<Rightarrow> read_result" where
  "read_source L fs path expected_size =
     (if path_is_absolute path \<or> path_parts path = [] \<or> [46, 46] \<in> set (path_parts path)
      then Read_Error unsafe_path
      else case fs (path_parts path) of
        Unresolved \<Rightarrow> Read_Error unsafe_path
      | Resolved inside regular nbytes content \<Rightarrow>
          if \<not> inside \<or> \<not> regular then Read_Error unsafe_path
          else if nbytes \<noteq> expected_size
          then Read_Error (IndexingError ''repository_changed_during_processing''
                 ''Repository contents changed during static processing'' False)
          else if pl_max_input_bytes L < nbytes then Skipped ''parser_input_too_large''
          else case content of
            None \<Rightarrow> Read_Error (IndexingError ''parser_filesystem_error''
                      ''Repository files could not be read for static processing'' False)
          | Some bytes \<Rightarrow>
              (let raw = take (pl_max_input_bytes L + 1) bytes in
               if pl_max_input_bytes L < length raw then Skipped ''parser_input_too_large''
               else case decode_utf8_sig raw of
                 None \<Rightarrow> Skipped ''unsupported_encoding''
               | Some text \<Rightarrow> Source text))"

section \<open>Scanning\<close>

record scan_result =
  sn_parsed_files :: "parsed_file list"
  sn_documentation :: "(pystr \<times> pystr) list"
  sn_parsed_count :: nat
  sn_partial_count :: nat
  sn_skipped_count :: nat
  sn_warning_counts :: counter

definition python_suffixes :: "pystr set" where
  "python_suffixes = {py ''.py'', py ''.pyi''}"

definition skip_file :: "string \<Rightarrow> scan_result \<Rightarrow> scan_result" where
  "skip_file warning sn =
     sn\<lparr>sn_warning_counts := bump warning 1 (sn_warning_counts sn), sn_skipped_count := sn_skipped_count sn + 1\<rparr>"

definition add_parsed :: "parsed_file \<Rightarrow> scan_result \<Rightarrow> scan_result" where
  "add_parsed parsed sn =
     (let sn1 = sn\<lparr>sn_warning_counts := bump_all (pf_warnings parsed) (sn_warning_counts sn)\<rparr> in
      if pf_parse_status parsed = PS_COMPLETE
      then sn1\<lparr>sn_parsed_count := sn_parsed_count sn1 + 1, sn_parsed_files := sn_parsed_files sn1 @ [parsed]\<rparr>
      else if pf_parse_status parsed = PS_PARTIAL
      then sn1\<lparr>sn_partial_count := sn_partial_count sn1 + 1, sn_parsed_files := sn_parsed_files sn1 @ [parsed]\<rparr>
      else sn1\<lparr>sn_skipped_count := sn_skipped_count sn1 + 1\<rparr>)"

definition scan_file ::
  "parser_limits \<Rightarrow> (pystr list \<Rightarrow> source_answer) \<Rightarrow> (pystr \<Rightarrow> pystr \<Rightarrow> parsed_file option) \<Rightarrow> discovered_file
    \<Rightarrow> scan_result \<Rightarrow> indexing_error + scan_result" where
  "scan_file L fs parse f sn =
     (let suffix = lower (path_suffix (df_relative_path f)) in
      case read_source L fs (df_relative_path f) (df_size_bytes f) of
        Read_Error e \<Rightarrow> Inl e
      | Skipped code \<Rightarrow> Inr (skip_file code sn)
      | Source text \<Rightarrow>
          if suffix \<in> python_suffixes
          then (case parse (df_relative_path f) text of
                  None \<Rightarrow> Inr (skip_file ''internal_parser_failure'' sn)
                | Some parsed \<Rightarrow> Inr (add_parsed parsed sn))
          else if suffix \<in> markdown_suffixes \<union> documentation_suffixes
          then Inr (sn\<lparr>sn_documentation := sn_documentation sn @ [(df_relative_path f, text)],
                 sn_parsed_count := sn_parsed_count sn + 1\<rparr>)
          else Inr (skip_file ''unsupported_file'' sn))"

fun scan_files ::
  "parser_limits \<Rightarrow> (pystr list \<Rightarrow> source_answer) \<Rightarrow> (pystr \<Rightarrow> pystr \<Rightarrow> parsed_file option) \<Rightarrow> discovered_file list
    \<Rightarrow> scan_result \<Rightarrow> indexing_error + scan_result" where
  "scan_files L fs parse [] sn = Inr sn"
| "scan_files L fs parse (f # rest) sn =
     (case scan_file L fs parse f sn of Inl e \<Rightarrow> Inl e | Inr sn' \<Rightarrow> scan_files L fs parse rest sn')"

definition empty_scan :: scan_result where
  "empty_scan = \<lparr>sn_parsed_files = [], sn_documentation = [], sn_parsed_count = 0, sn_partial_count = 0,
     sn_skipped_count = 0, sn_warning_counts = []\<rparr>"

section \<open>Chunks\<close>

definition symbol_record_of :: "parsed_symbol \<Rightarrow> symbol_record" where
  "symbol_record_of s =
     \<lparr>sr_file_path = sym_file_path s, sr_language = sym_language s, sr_symbol_type = sym_symbol_type s,
      sr_symbol_name = sym_name s, sr_qualified_name = sym_qualified_name s, sr_start_line = sym_start_line s,
      sr_end_line = sym_end_line s, sr_content_hash = sym_content_hash s, sr_commit_sha = sym_commit_sha s\<rparr>"

definition file_symbols :: "parser_limits \<Rightarrow> parsed_file \<Rightarrow> symbol_record list" where
  "file_symbols L parsed = map symbol_record_of
     (filter (\<lambda>s. utf8_len (sym_source_text s) \<le> pl_max_symbol_bytes L) (pf_symbols parsed))"

definition chunk_count_exceeded :: indexing_error where
  "chunk_count_exceeded = IndexingError ''chunk_count_exceeded''
     ''Repository exceeds the configured chunk-count limit'' False"

text \<open>Either loop of \<open>_build_chunks\<close> on the per-file results: the chunks and warnings so far, then the rest.\<close>

fun gather_chunks ::
  "nat \<Rightarrow> file_chunk_result list \<Rightarrow> content_chunk list \<Rightarrow> counter \<Rightarrow> indexing_error + (content_chunk list \<times> counter)" where
  "gather_chunks limit [] chunks warnings = Inr (chunks, warnings)"
| "gather_chunks limit (r # rs) chunks warnings =
     (let chunks' = chunks @ fcr_chunks r; warnings' = bump_all (fcr_warnings r) warnings in
      if limit < length chunks' then Inl chunk_count_exceeded
      else gather_chunks limit rs chunks' warnings')"

definition build_chunks ::
  "digests \<Rightarrow> parser_limits \<Rightarrow> scan_result \<Rightarrow> uuid \<Rightarrow> nat \<Rightarrow> string
    \<Rightarrow> indexing_error + (symbol_record list \<times> content_chunk list \<times> counter)" where
  "build_chunks D L sn repo ver commit_sha =
     (case gather_chunks (pl_max_total_chunks L)
        (map (\<lambda>parsed. python_chunk (sha256_hex D) (chunker_limits_of L) parsed repo ver) (sn_parsed_files sn)
         @ map (\<lambda>(path, text). documentation_chunk (sha256_hex D) (chunker_limits_of L) path text repo ver commit_sha)
             (sn_documentation sn))
        [] (sn_warning_counts sn) of
        Inl e \<Rightarrow> Inl e
      | Inr (chunks, warnings) \<Rightarrow> Inr (concat (map (file_symbols L) (sn_parsed_files sn)), chunks, warnings))"

section \<open>The analysis\<close>

definition symbol_order where
  "symbol_order s = (sr_file_path s, sr_start_line s, sr_end_line s, sr_qualified_name s, sr_content_hash s)"

definition chunk_order where
  "chunk_order c = (ck_file_path c, ck_start_line c, ck_end_line c, ck_chunk_type c,
     (case ck_qualified_name c of None \<Rightarrow> [] | Some q \<Rightarrow> q), ck_content_hash c)"

definition fingerprint_of :: "content_chunk \<Rightarrow> chunk_fingerprint" where
  "fingerprint_of c =
     \<lparr>cf_ordinal = ck_ordinal c, cf_file_path = ck_file_path c, cf_chunk_type = ck_chunk_type c,
      cf_qualified_name = ck_qualified_name c, cf_start_line = ck_start_line c, cf_end_line = ck_end_line c,
      cf_content_hash = ck_content_hash c\<rparr>"

definition total_chunk_bytes :: "content_chunk list \<Rightarrow> nat" where
  "total_chunk_bytes cs = sum_list (map (\<lambda>c. utf8_len (ck_content c)) cs)"

definition processing_of ::
  "uuid \<Rightarrow> nat \<Rightarrow> string \<Rightarrow> scan_result \<Rightarrow> symbol_record list \<Rightarrow> content_chunk list \<Rightarrow> counter \<Rightarrow> call_graph
    \<Rightarrow> processing_result" where
  "processing_of repo ver commit_sha sn symbols chunks warnings g =
     \<lparr>pr_repository_id = repo, pr_index_version = ver, pr_commit_sha = commit_sha,
      pr_parsed_file_count = sn_parsed_count sn, pr_partial_file_count = sn_partial_count sn,
      pr_skipped_file_count = sn_skipped_count sn, pr_symbol_count = length symbols,
      pr_chunk_count = length chunks, pr_warning_counts = sorted_items warnings, pr_symbols = symbols,
      pr_chunk_fingerprints = map fingerprint_of chunks, pr_chunks = chunks,
      pr_call_site_count = cg_call_site_count g, pr_exact_edge_count = cg_exact_edge_count g,
      pr_ambiguous_edge_count = cg_ambiguous_edge_count g,
      pr_unresolved_call_count = cg_unresolved_call_count g,
      pr_graph_warning_count = cg_warning_count g, pr_graph_fingerprint = cg_fingerprint g,
      pr_call_edges = cg_edges g\<rparr>"

text \<open>The stages \<open>analyze\<close> announces, and what it returns or raises.\<close>

datatype stage_message = Chunking | Graphing

definition analyze ::
  "digests \<Rightarrow> parser_limits \<Rightarrow> bool \<Rightarrow> (pystr list \<Rightarrow> source_answer) \<Rightarrow> (pystr \<Rightarrow> pystr \<Rightarrow> parsed_file option)
    \<Rightarrow> discovery_result \<Rightarrow> uuid \<Rightarrow> nat \<Rightarrow> string \<Rightarrow> stage_message list \<times> (indexing_error + processing_result)" where
  "analyze D L root_is_dir fs parse discovery repo ver commit_sha =
     (if \<not> root_is_dir then ([], Inl unsafe_path)
      else case scan_files L fs parse (dr_files discovery) empty_scan of
        Inl e \<Rightarrow> ([], Inl e)
      | Inr sn \<Rightarrow>
          (case build_chunks D L sn repo ver commit_sha of
             Inl e \<Rightarrow> ([Chunking], Inl e)
           | Inr (symbols0, chunks0, warnings) \<Rightarrow>
               (let symbols = sort_key symbol_order symbols0;
                    chunks = with_ordinals (sort_key chunk_order chunks0) in
                if pl_max_total_chunk_bytes L < total_chunk_bytes chunks
                then ([Chunking], Inl (IndexingError ''chunk_bytes_exceeded''
                       ''Repository exceeds the configured chunk-content limit'' False))
                else ([Chunking, Graphing],
                  case build_call_graph D (pl_max_total_call_sites L) repo ver commit_sha (sn_parsed_files sn) symbols of
                    Inl e \<Rightarrow> Inl e
                  | Inr g \<Rightarrow>
                      (let warnings' = (if cg_warning_count g = 0 then warnings
                             else bump ''call_graph_resolution_warning'' (cg_warning_count g) warnings)
                       in Inr (processing_of repo ver commit_sha sn symbols chunks warnings' g))))))"

section \<open>The child process\<close>

datatype child_message =
  Stage stage_message | Result processing_result | Failed string string bool

definition failure_message :: "indexing_error \<Rightarrow> child_message" where
  "failure_message e =
     (case e of
        IndexingError code msg retryable \<Rightarrow> Failed code msg retryable
      | InternalError _ \<Rightarrow> Failed ''internal_parser_failure'' ''Static repository processing failed safely'' False)"

definition analyzer_process :: "stage_message list \<times> (indexing_error + processing_result) \<Rightarrow> child_message list" where
  "analyzer_process outcome =
     map Stage (fst outcome) @ [case snd outcome of Inl e \<Rightarrow> failure_message e | Inr p \<Rightarrow> Result p]"

text \<open>
  What one round of the waiting loop finds: a message, the end of the pipe, a dead process, or
  nothing yet. The loop ends at the deadline, after the rounds of the list.
\<close>

datatype tick = Message child_message | Pipe_Closed | Process_Dead | Nothing_Yet

fun await_result ::
  "(stage_message \<Rightarrow> ('w, unit) act) \<Rightarrow> uuid \<Rightarrow> nat \<Rightarrow> string \<Rightarrow> tick list \<Rightarrow> ('w, processing_result) act" where
  "await_result on_stage repo ver commit_sha [] =
     throw (IndexingError ''parser_timeout'' ''Static repository processing exceeded its time limit'' False)"
| "await_result on_stage repo ver commit_sha (t # ts) =
     (case t of
        Message (Stage m) \<Rightarrow> seq (on_stage m) (\<lambda>_. await_result on_stage repo ver commit_sha ts)
      | Message (Result p) \<Rightarrow>
          if pr_repository_id p = repo \<and> pr_index_version p = ver \<and> pr_commit_sha p = commit_sha
          then ret p else throw internal_parser_failure
      | Message (Failed code msg retryable) \<Rightarrow> throw (IndexingError code msg retryable)
      | Pipe_Closed \<Rightarrow> throw internal_parser_failure
      | Process_Dead \<Rightarrow> throw internal_parser_failure
      | Nothing_Yet \<Rightarrow> await_result on_stage repo ver commit_sha ts)"

section \<open>What the analysis returns\<close>

definition scanned :: "scan_result \<Rightarrow> nat" where
  "scanned sn = sn_parsed_count sn + sn_partial_count sn + sn_skipped_count sn"

lemma scan_file_count: "scan_file L fs parse f sn = Inr sn' \<Longrightarrow> scanned sn' = scanned sn + 1"
  by (auto simp: scan_file_def add_parsed_def skip_file_def scanned_def Let_def
      split: read_result.splits if_splits option.splits)

lemma scan_files_count: "scan_files L fs parse files sn = Inr sn' \<Longrightarrow> scanned sn' = scanned sn + length files"
  by (induction files arbitrary: sn) (auto split: sum.splits dest: scan_file_count)

lemma gather_chunks_Inr:
  "gather_chunks limit rs cs ws = Inr (chunks, warnings) \<Longrightarrow> length cs \<le> limit \<Longrightarrow>
    chunks = cs @ concat (map fcr_chunks rs) \<and> length chunks \<le> limit"
proof (induction rs arbitrary: cs ws)
  case (Cons r rs)
  have "\<not> limit < length (cs @ fcr_chunks r)"
    using Cons.prems(1) by (simp add: Let_def split: if_splits)
  then show ?case
    using Cons.prems(1) Cons.IH [of "cs @ fcr_chunks r" "bump_all (fcr_warnings r) ws"]
    by (auto simp: Let_def not_less)
qed simp

lemma analyzeD:
  assumes "analyze D L d fs parse discovery repo ver sha = (stages, Inr p)"
  obtains sn symbols0 chunks0 warnings warnings' g where
    "scan_files L fs parse (dr_files discovery) empty_scan = Inr sn"
    and "build_chunks D L sn repo ver sha = Inr (symbols0, chunks0, warnings)"
    and "total_chunk_bytes (with_ordinals (sort_key chunk_order chunks0)) \<le> pl_max_total_chunk_bytes L"
    and "build_call_graph D (pl_max_total_call_sites L) repo ver sha (sn_parsed_files sn) (sort_key symbol_order symbols0) = Inr g"
    and "p = processing_of repo ver sha sn (sort_key symbol_order symbols0)
      (with_ordinals (sort_key chunk_order chunks0)) warnings' g"
    and "stages = [Chunking, Graphing]"
  using assms by (auto simp: analyze_def Let_def not_less split: if_splits sum.splits prod.splits)



definition sample_parser_limits :: parser_limits where
  "sample_parser_limits =
     \<lparr>pl_max_input_bytes = 1000, pl_max_symbol_bytes = 100, pl_max_chunk_bytes = 100,
      pl_max_chunks_per_file = 10, pl_max_total_chunks = 20, pl_max_total_chunk_bytes = 1000,
      pl_max_document_section_bytes = 100, pl_max_warnings_per_file = 10, pl_max_total_call_sites = 100\<rparr>"

definition sample_discovery :: discovery_result where
  "sample_discovery = \<lparr>dr_files = [\<lparr>df_relative_path = py ''a.txt'', df_size_bytes = 2\<rparr>,
     \<lparr>df_relative_path = py ''b.py'', df_size_bytes = 3\<rparr>], dr_inspected_file_count = 2, dr_total_bytes = 5,
     dr_skipped = []\<rparr>"

definition sample_tree :: "pystr list \<Rightarrow> source_answer" where
  "sample_tree path = Resolved True True (if path = [py ''a.txt''] then 2 else 3)
     (Some (if path = [py ''a.txt''] then [104, 105] else [88, 61, 255]))"

lemmas analyzer_eval =
  sample_discovery_def sample_tree_def empty_scan_def sample_parser_limits_def
  scan_file_def read_source_def decode_utf8_sig_def skip_file_def python_suffixes_def continuation_def
  path_is_absolute_def path_parts_def path_root_def

definition sample_scan :: scan_result where
  "sample_scan =
     \<lparr>sn_parsed_files = [], sn_documentation = [(py ''a.txt'', [104, 105])], sn_parsed_count = 1,
      sn_partial_count = 0, sn_skipped_count = 1, sn_warning_counts = [(''unsupported_encoding'', 1)]\<rparr>"

lemma sample_scanned:
  "scan_files sample_parser_limits sample_tree (\<lambda>_ _. None) (dr_files sample_discovery) empty_scan = Inr sample_scan"
  by (simp add: analyzer_eval sample_scan_def doc_chunk_eval)

lemma sample_built:
  "\<exists>c. build_chunks sample_digests sample_parser_limits sample_scan 7 1 ''abc''
    = Inr ([], [c], [(''unsupported_encoding'', 1)]) \<and> utf8_len (ck_content c) < 1000"
  by (simp add: build_chunks_def sample_scan_def chunker_limits_of_def sample_parser_limits_def bump_all_def doc_chunk_eval)

lemma sample_selected:
  "pl_max_total_chunk_bytes sample_parser_limits = 1000" "sn_parsed_files sample_scan = []"
  by (simp_all add: sample_parser_limits_def sample_scan_def)

lemma sample_analyzed:
  "\<exists>p. analyze sample_digests sample_parser_limits True sample_tree (\<lambda>_ _. None) sample_discovery 7 1 ''abc''
    = ([Chunking, Graphing], Inr p) \<and> pr_chunk_count p = 1"
proof -
  obtain c where "build_chunks sample_digests sample_parser_limits sample_scan 7 1 ''abc''
      = Inr ([], [c], [(''unsupported_encoding'', 1)])" "utf8_len (ck_content c) < 1000"
    using sample_built by blast
  then show ?thesis
    by (simp add: analyze_def sample_scanned sample_selected build_call_graph_def processing_of_def
        with_ordinals_def total_chunk_bytes_def)
qed


end
