(* ===== verification/Cloning.thy ===== *)
theory Cloning
  imports Models
begin

text \<open>
  Cloning a checkout: \<^verbatim>\<open>backend/app/indexing/clone.py\<close>. The validated command line, the environment of
  git, and the outcome of \<open>clone\<close>, whose answers from the operating system and git are data.
\<close>

section \<open>Command line\<close>

record clone_request =
  cr_owner :: pystr
  cr_name :: pystr
  cr_default_branch :: pystr
  cr_installation_token :: "pystr option"

definition alnum :: "nat \<Rightarrow> bool" where
  "alnum c \<longleftrightarrow> 48 \<le> c \<and> c \<le> 57 \<or> 65 \<le> c \<and> c \<le> 90 \<or> 97 \<le> c \<and> c \<le> 122"

text \<open>\<open>[A-Za-z0-9][A-Za-z0-9._-]{0,254}\<close>, with \<open>extra\<close> for the further characters of the tail.\<close>

definition name_pattern :: "nat set \<Rightarrow> pystr \<Rightarrow> bool" where
  "name_pattern extra s \<longleftrightarrow>
     (case s of [] \<Rightarrow> False
      | c # r \<Rightarrow> alnum c \<and> length r \<le> 254 \<and> list_all (\<lambda>d. alnum d \<or> d \<in> extra) r)"

definition identity_pattern :: "pystr \<Rightarrow> bool" where
  "identity_pattern = name_pattern {46, 95, 45}"

definition branch_pattern :: "pystr \<Rightarrow> bool" where
  "branch_pattern = name_pattern {46, 95, 47, 45}"

fun contains :: "pystr \<Rightarrow> pystr \<Rightarrow> bool" where
  "contains [] p = (p = [])"
| "contains (c # s) p = (starts_with (c # s) p \<or> contains s p)"

definition validate_identity :: "pystr \<Rightarrow> string \<Rightarrow> indexing_error + pystr" where
  "validate_identity v field =
     (if \<not> identity_pattern v \<or> v = py ''.'' \<or> v = py ''..''
      then Inl (IndexingError ''invalid_repository_identity'' (''GitHub '' @ field @ '' is invalid'') False)
      else Inr v)"

definition invalid_fragments :: "pystr list" where
  "invalid_fragments = [[46, 46], [47, 47], [64, 123], [92]]"

definition validate_branch :: "pystr \<Rightarrow> indexing_error + pystr" where
  "validate_branch v =
     (if \<not> branch_pattern v \<or> list_ex (contains v) invalid_fragments
         \<or> list_ex (ends_with v) [py ''/'', py ''.'', py ''.lock'']
      then Inl (IndexingError ''invalid_default_branch'' ''GitHub default branch is invalid'' False)
      else Inr v)"

definition clone_options :: "pystr list" where
  "clone_options = map py
     [''-c'', ''core.hooksPath=/dev/null'', ''-c'', ''init.templateDir='', ''-c'', ''protocol.file.allow=never'',
      ''-c'', ''protocol.ext.allow=never'', ''-c'', ''submodule.recurse=false'', ''-c'', ''filter.lfs.required=false'',
      ''-c'', ''filter.lfs.smudge='', ''-c'', ''filter.lfs.process='', ''clone'', ''--depth=1'', ''--single-branch'',
      ''--no-tags'', ''--no-recurse-submodules'', ''--branch'']"

definition command_for :: "pystr \<Rightarrow> clone_request \<Rightarrow> pystr \<Rightarrow> indexing_error + pystr list" where
  "command_for git request checkout =
     (case validate_identity (cr_owner request) ''owner'' of
        Inl e \<Rightarrow> Inl e
      | Inr owner \<Rightarrow>
          (case validate_identity (cr_name request) ''repository name'' of
             Inl e \<Rightarrow> Inl e
           | Inr name \<Rightarrow>
               (case validate_branch (cr_default_branch request) of
                  Inl e \<Rightarrow> Inl e
                | Inr branch \<Rightarrow>
                    Inr (git # clone_options @ [branch, py ''--'',
                      py ''https://github.com/'' @ owner @ [47] @ name @ py ''.git'', checkout]))))"

definition environment :: "pystr \<Rightarrow> pystr \<Rightarrow> pystr option \<Rightarrow> (string \<rightharpoonup> pystr)" where
  "environment askpass_parent askpass token =
     (let e = map_of
        [(''HOME'', askpass_parent), (''PATH'', py ''/usr/bin:/bin''), (''LANG'', py ''C.UTF-8''),
         (''GIT_ASKPASS'', askpass), (''GIT_TERMINAL_PROMPT'', py ''0''), (''GIT_CONFIG_NOSYSTEM'', py ''1''),
         (''GIT_CONFIG_GLOBAL'', py ''/dev/null''), (''GIT_LFS_SKIP_SMUDGE'', py ''1'')] in
      case token of
        None \<Rightarrow> e(''GIT_ASKPASS'' \<mapsto> py ''/bin/false'')
      | Some t \<Rightarrow> e(''REPOLU_GIT_TOKEN'' \<mapsto> t))"

section \<open>Outcome\<close>

text \<open>What reading the revision meets, and what removing the workspace meets.\<close>

datatype revision = Not_Started | Timed_Out | Exited int "nat list"

datatype removal = Removed | Already_Gone | Refused | Still_There

text \<open>
  \<open>ca_workspace\<close>, \<open>ca_askpass\<close>, \<open>ca_started\<close>: the workspace, the askpass script and the process could be
  made; \<open>ca_exit\<close>: the return code, \<open>None\<close> at the timeout; \<open>ca_size\<close>: \<open>None\<close> when a file cannot be inspected.
\<close>

record clone_answers =
  ca_workspace :: bool
  ca_askpass :: bool
  ca_started :: bool
  ca_exit :: "int option"
  ca_inside :: bool
  ca_size :: "nat option"
  ca_revision :: revision
  ca_removal :: removal

definition os_error :: indexing_error where
  "os_error = InternalError ''OSError''"

definition cleanup_failed :: indexing_error where
  "cleanup_failed = IndexingError ''clone_cleanup_failed'' ''Repository clone cleanup failed'' True"

definition remove_workspace :: "removal \<Rightarrow> indexing_error + unit" where
  "remove_workspace answer =
     (case answer of
        Removed \<Rightarrow> Inr () | Already_Gone \<Rightarrow> Inr () | Refused \<Rightarrow> Inl cleanup_failed
      | Still_There \<Rightarrow> Inl cleanup_failed)"

definition read_commit :: "revision \<Rightarrow> indexing_error + string" where
  "read_commit answer =
     (case answer of
        Not_Started \<Rightarrow> Inl os_error
      | Timed_Out \<Rightarrow> Inl (IndexingError ''clone_revision_timeout''
                      ''Cloned repository revision inspection timed out'' True)
      | Exited status stdout \<Rightarrow>
          (let sha = strip (filter (\<lambda>b. b < 128) stdout) in
           if status \<noteq> 0 \<or> \<not> (40 \<le> length sha \<and> length sha \<le> 64
                \<and> list_all (\<lambda>c. 48 \<le> c \<and> c \<le> 57 \<or> 97 \<le> c \<and> c \<le> 102) sha)
           then Inl (IndexingError ''clone_revision_invalid'' ''Cloned repository revision is invalid'' False)
           else Inr (map char_of sha)))"

text \<open>The body of the \<open>try\<close>.\<close>

definition clone_body :: "pystr \<Rightarrow> nat \<Rightarrow> pystr \<Rightarrow> clone_answers \<Rightarrow> clone_request \<Rightarrow> indexing_error + string" where
  "clone_body git max_bytes checkout a request =
     (if \<not> ca_askpass a then Inl os_error
      else case command_for git request checkout of
        Inl e \<Rightarrow> Inl e
      | Inr command \<Rightarrow>
          if \<not> ca_started a then Inl os_error
          else case ca_exit a of
            None \<Rightarrow> Inl (IndexingError ''clone_timeout'' ''Repository clone timed out'' True)
          | Some status \<Rightarrow>
              if status \<noteq> 0 then Inl (IndexingError ''clone_failed'' ''Repository clone failed'' True)
              else if \<not> ca_inside a
              then Inl (IndexingError ''unsafe_clone_path'' ''Repository clone path is unsafe'' False)
              else case ca_size a of
                None \<Rightarrow> Inl (IndexingError ''clone_filesystem_error''
                          ''Repository clone could not be inspected'' False)
              | Some n \<Rightarrow>
                  if max_bytes < n
                  then Inl (IndexingError ''repository_too_large''
                         ''Repository exceeds the configured size limit'' False)
                  else read_commit (ca_revision a))"

text \<open>The result, and whether a workspace is left on the disk.\<close>

definition clone :: "pystr \<Rightarrow> nat \<Rightarrow> pystr \<Rightarrow> clone_answers \<Rightarrow> clone_request \<Rightarrow> (indexing_error + string) \<times> bool" where
  "clone git max_bytes checkout a request =
     (if \<not> ca_workspace a then (Inl os_error, False)
      else case clone_body git max_bytes checkout a request of
        Inr sha \<Rightarrow> (Inr sha, True)
      | Inl e \<Rightarrow>
          (case remove_workspace (ca_removal a) of
             Inl e' \<Rightarrow> (Inl e', True)
           | Inr _ \<Rightarrow> (Inl e, False)))"

section \<open>Properties\<close>

lemma contains_append: "contains (s @ p @ t) p"
proof (induction s)
  case Nil
  have "starts_with (p @ t) p" by (simp add: starts_with_def)
  then show ?case by (cases "p @ t") (auto simp: starts_with_def simp del: append_is_Nil_conv append_eq_Cons_conv)
qed simp

lemma join_part: "w \<in> set ws \<Longrightarrow> \<exists>a b. join sep ws = a @ w @ b"
proof (induction ws)
  case (Cons v ws)
  show ?case
  proof (cases "w = v")
    case True
    then show ?thesis by (cases ws) (auto simp: join_Cons intro: exI [of _ "[]"])
  next
    case False
    with Cons obtain a b where "join sep ws = a @ w @ b" "ws \<noteq> []" by (cases ws) auto
    then have "join sep (v # ws) = (v @ sep @ a) @ w @ b" by (simp add: join_Cons)
    then show ?thesis by blast
  qed
qed simp

lemma split_on_part: "w \<in> set (split_on sep s) \<Longrightarrow> \<exists>a b. s = a @ w @ b"
  using join_part [of w "split_on sep s" "[sep]"] by (simp add: join_split_on)

lemma command_for_token:
  "command_for git (request\<lparr>cr_installation_token := token\<rparr>) checkout = command_for git request checkout"
proof -
  let ?r = "request\<lparr>cr_installation_token := token\<rparr>"
  have same: "cr_owner ?r = cr_owner request" "cr_name ?r = cr_name request"
    "cr_default_branch ?r = cr_default_branch request" by simp_all
  show ?thesis unfolding command_for_def same ..
qed

lemma split_on_contains: "w \<in> set (split_on sep s) \<Longrightarrow> contains s w"
  using split_on_part contains_append by blast

lemma name_patternD:
  "name_pattern extra s \<Longrightarrow> length s \<le> 255 \<and> (\<forall>c \<in> set s. alnum c \<or> c \<in> extra) \<and> s \<noteq> [] \<and> alnum (hd s)"
  by (auto simp: name_pattern_def list_all_iff split: list.splits)

text \<open>A failed clone leaves a workspace only when removing it failed, and then says so.\<close>

lemma clone_removes_workspace:
  assumes "clone git max_bytes checkout a request = (Inl e, True)"
  shows "e = cleanup_failed \<and> ca_removal a \<in> {Refused, Still_There}"
  using assms
  by (auto simp: clone_def remove_workspace_def split: if_splits sum.splits removal.splits)


definition sample_request :: clone_request where
  "sample_request = \<lparr>cr_owner = py ''o'', cr_name = py ''a.b'', cr_default_branch = py ''rel/1'', cr_installation_token = None\<rparr>"


end
