(* ===== verification/Worker.thy ===== *)
theory Worker
  imports Pipeline Freshness Vectors Analyzer Cloning
begin

text \<open>
  The indexing worker: \<^verbatim>\<open>backend/app/indexing/worker.py\<close>. A delivery is processed by an action on a
  world: the running system of \<^theory_text>\<open>System\<close>, the state of the run, and a log of what the worker did to the
  disk, the vector store and the queue. Before every call of the job store and of the vector store
  the other processes take any number of steps. GitHub, git, the checkout, the analyzer process, the
  embedding service and Qdrant are data.
\<close>

section \<open>World\<close>

text \<open>
  A turn: what the others do before a call (this worker's heartbeat task is one of them), the clock
  and the random number the call reads, and whether its transaction is executed and its reply
  arrives.
\<close>

datatype connection = Up | Down | Reply_Lost

record turn =
  tn_peers :: "system \<Rightarrow> system"
  tn_now :: time
  tn_random :: nat
  tn_connection :: connection

datatype event =
    Checkout_Made | Checkout_Removed | Removal_Failed | Scope_Deleted vector_scope
  | Points_Stored vector_scope "vector_record list" | Acknowledged uuid

record world =
  wd_sys :: system
  wd_calls :: nat
  wd_context :: "job_context option"
  wd_prepared :: bool
  wd_checkout :: "string option"
  wd_log :: "event list"

record worker_settings =
  wk_id :: string
  wk_digests :: digests
  wk_collate :: "pystr \<Rightarrow> pystr"
  wk_store :: store_settings
  wk_vectors :: vector_settings
  wk_embedding :: embedding_settings
  wk_discovery :: discovery_limits
  wk_max_changed_files :: nat
  wk_max_changed_bytes :: nat
  wk_git :: pystr
  wk_clone_max_bytes :: nat

text \<open>
  What the outside answers during a delivery. \<open>None\<close> of a GitHub answer is a \<open>GitHubAPIError\<close>. Answers to
  calls that may happen several times are indexed by the length of the log.
\<close>

record surroundings =
  io_turn :: "nat \<Rightarrow> turn"
  io_public :: public_lookup
  io_token :: "pystr option"
  io_clone :: clone_answers
  io_checkout :: pystr
  io_removal :: "nat \<Rightarrow> removal"
  io_comparison :: "commit_comparison option"
  io_root :: "pystr list"
  io_root_is_dir :: bool
  io_tree :: "fs_entry list option"
  io_ticks :: "tick list"
  io_reusable :: "(nat \<Rightarrow> (payload \<times> vector option) list service_attempt) list"
  io_embedding :: "nat \<Rightarrow> nat \<Rightarrow> http_attempt"
  io_collection_exists :: "nat \<Rightarrow> bool service_attempt"
  io_create :: "nat \<Rightarrow> unit service_attempt"
  io_collection :: "nat \<Rightarrow> collection_info service_attempt"
  io_index :: "string \<Rightarrow> nat \<Rightarrow> unit service_attempt"
  io_delete :: "nat \<Rightarrow> nat \<Rightarrow> unit service_attempt"
  io_upsert :: "nat \<Rightarrow> nat \<Rightarrow> unit service_attempt"
  io_count :: "nat \<Rightarrow> nat service_attempt"
  io_pages :: "(nat \<Rightarrow> payload list service_attempt) list"
  io_queue_up :: bool
  io_heartbeat :: "indexing_error option"

definition log_event :: "event \<Rightarrow> world \<Rightarrow> world" where
  "log_event e w = w\<lparr>wd_log := wd_log w @ [e]\<rparr>"

section \<open>Calls\<close>

definition store_unavailable :: indexing_error where
  "store_unavailable = InternalError ''DBAPIError''"

definition peers_act :: "surroundings \<Rightarrow> world \<Rightarrow> world" where
  "peers_act io w = w\<lparr>wd_sys := tn_peers (io_turn io (wd_calls w)) (wd_sys w), wd_calls := wd_calls w + 1\<rparr>"

text \<open>A call of the job store is one transaction; an error of it rolls back.\<close>

definition store_call :: "surroundings \<Rightarrow> (time \<Rightarrow> nat \<Rightarrow> db \<Rightarrow> indexing_error + ('a \<times> db)) \<Rightarrow> (world, 'a) act" where
  "store_call io f w =
     (let t = io_turn io (wd_calls w); w1 = peers_act io w in
      if tn_connection t = Down then (Inl store_unavailable, w1)
      else case f (tn_now t) (tn_random t) (sys_db (wd_sys w1)) of
        Inl e \<Rightarrow> (Inl e, w1)
      | Inr (x, db') \<Rightarrow>
          (if tn_connection t = Up then Inr x else Inl store_unavailable,
           w1\<lparr>wd_sys := (wd_sys w1)\<lparr>sys_db := db'\<rparr>\<rparr>))"

definition store_update :: "surroundings \<Rightarrow> (time \<Rightarrow> db \<Rightarrow> db) \<Rightarrow> (world, unit) act" where
  "store_update io f = store_call io (\<lambda>now _ db. Inr ((), f now db))"

definition store_query :: "surroundings \<Rightarrow> (db \<Rightarrow> 'a) \<Rightarrow> (world, 'a) act" where
  "store_query io f = store_call io (\<lambda>_ _ db. Inr (f db, db))"

definition store_attempt :: "surroundings \<Rightarrow> (time \<Rightarrow> db \<Rightarrow> indexing_error + db) \<Rightarrow> (world, unit) act" where
  "store_attempt io f =
     store_call io (\<lambda>now _ db. case f now db of Inl e \<Rightarrow> Inl e | Inr db' \<Rightarrow> Inr ((), db'))"

definition stage_update ::
  "worker_settings \<Rightarrow> surroundings \<Rightarrow> claimed_job \<Rightarrow> repository_indexing_status \<Rightarrow> string \<Rightarrow> nat \<Rightarrow> string
    \<Rightarrow> (world, unit) act" where
  "stage_update W io c status name progress commit_sha =
     store_update io (\<lambda>now. stage now c (wk_id W) status name progress (Some commit_sha))"

text \<open>\<open>_scope\<close>.\<close>

definition scope_of :: "job_context \<Rightarrow> nat \<Rightarrow> indexing_error + vector_scope" where
  "scope_of ctx ver = make_scope (ctx_installation_id ctx) (ctx_repository_id ctx) ver (ctx_access_mode ctx)
     (if ctx_access_mode ctx = PUBLIC then Some (ctx_github_repository_id ctx) else None)"

text \<open>The deletion happens when Qdrant accepts it; the others may act before.\<close>

definition delete_points :: "worker_settings \<Rightarrow> surroundings \<Rightarrow> vector_scope \<Rightarrow> (world, unit) act" where
  "delete_points W io scope w =
     (let w1 = peers_act io w in
      case delete_scope (wk_vectors W) (io_delete io (length (wd_log w))) of
        Inl e \<Rightarrow> (Inl e, w1) | Inr _ \<Rightarrow> (Inr (), log_event (Scope_Deleted scope) w1))"

definition store_points ::
  "worker_settings \<Rightarrow> surroundings \<Rightarrow> vector_scope \<Rightarrow> vector_record list \<Rightarrow> (world, unit) act" where
  "store_points W io scope records w =
     (let w1 = peers_act io w in
      case upsert (wk_vectors W) (io_upsert io) scope records of
        (e, stored) \<Rightarrow>
          (case e of None \<Rightarrow> Inr () | Some e \<Rightarrow> Inl e, log_event (Points_Stored scope stored) w1))"

section \<open>Cleanup\<close>

definition cleanup_inactive :: "worker_settings \<Rightarrow> surroundings \<Rightarrow> job_context \<Rightarrow> (world, bool) act" where
  "cleanup_inactive W io ctx =
     (let repo = ctx_repository_id ctx; ver = ctx_index_version ctx in
      seq (store_query io (can_cleanup_inactive repo ver)) (\<lambda>eligible.
        if \<not> eligible then ret False
        else seq
          (handle (seq (lift (scope_of ctx ver)) (\<lambda>scope. seq (delete_points W io scope) (\<lambda>_. ret True)))
             (\<lambda>_. ret False))
          (\<lambda>cleaned. seq (store_update io (\<lambda>now. record_failed_build_cleanup now repo ver cleaned))
             (\<lambda>_. ret cleaned))))"

definition cleanup_superseded :: "worker_settings \<Rightarrow> surroundings \<Rightarrow> job_context \<Rightarrow> nat \<Rightarrow> (world, unit) act" where
  "cleanup_superseded W io ctx ver =
     handle
       (seq (lift (scope_of ctx ver)) (\<lambda>scope.
          seq (delete_points W io scope) (\<lambda>_.
            store_attempt io (\<lambda>now. complete_superseded_cleanup now (ctx_repository_id ctx) ver))))
       (\<lambda>_. ret ())"

definition remove_checkout :: "surroundings \<Rightarrow> (world, unit) act" where
  "remove_checkout io w =
     (case remove_workspace (io_removal io (length (wd_log w))) of
        Inl e \<Rightarrow> (Inl e, log_event Removal_Failed w) | Inr _ \<Rightarrow> (Inr (), log_event Checkout_Removed w))"

text \<open>\<open>self._cloner.cleanup(cloned); cloned = None\<close>.\<close>

definition drop_checkout :: "surroundings \<Rightarrow> (world, unit) act" where
  "drop_checkout io = seq (remove_checkout io) (\<lambda>_. change (\<lambda>w. w\<lparr>wd_checkout := None\<rparr>))"

section \<open>Authorization and clone\<close>

definition installation_missing :: indexing_error where
  "installation_missing = IndexingError ''github_installation_missing''
     ''GitHub repository authorization is unavailable'' False"

definition clone_token :: "worker_settings \<Rightarrow> surroundings \<Rightarrow> job_context \<Rightarrow> (world, pystr option) act" where
  "clone_token W io ctx =
     (let revoke = store_update io (\<lambda>now. revoke_public_access now (ctx_repository_id ctx));
          gone = seq revoke (\<lambda>_. throw (IndexingError ''public_repository_unavailable''
                   ''The public repository is no longer available'' False)) in
      if ctx_access_mode ctx = PUBLIC
      then (case io_public io of
              PL_Not_Found \<Rightarrow> gone
            | PL_Private \<Rightarrow> gone
            | PL_Error \<Rightarrow> throw (IndexingError ''github_metadata_unavailable''
                            ''GitHub repository metadata is temporarily unavailable'' True)
            | PL_Found m \<Rightarrow>
                if gr_id (pm_repository m) \<noteq> ctx_github_repository_id ctx \<or> gr_private (pm_repository m)
                   \<or> gr_default_branch (pm_repository m) \<noteq> ctx_default_branch ctx
                then seq revoke (\<lambda>_. throw (IndexingError ''public_repository_identity_changed''
                       ''The public repository identity changed'' False))
                else ret None)
      else if ctx_github_installation_id ctx = None then throw installation_missing
      else case io_token io of
        None \<Rightarrow> throw (IndexingError ''github_token_unavailable''
                  ''GitHub repository access is temporarily unavailable'' True)
      | Some token \<Rightarrow> ret (Some token))"

definition require_installation_token :: "pystr option \<Rightarrow> (world, pystr) act" where
  "require_installation_token token = (case token of None \<Rightarrow> throw installation_missing | Some t \<Rightarrow> ret t)"

definition clone_checkout ::
  "worker_settings \<Rightarrow> surroundings \<Rightarrow> job_context \<Rightarrow> pystr option \<Rightarrow> (world, string) act" where
  "clone_checkout W io ctx token =
     seq (lift (fst (clone (wk_git W) (wk_clone_max_bytes W) (io_checkout io) (io_clone io)
            \<lparr>cr_owner = py (ctx_owner ctx), cr_name = py (ctx_name ctx),
             cr_default_branch = py (ctx_default_branch ctx), cr_installation_token = token\<rparr>)))
       (\<lambda>commit_sha. seq (change (\<lambda>w. log_event Checkout_Made (w\<lparr>wd_checkout := Some commit_sha\<rparr>)))
          (\<lambda>_. ret commit_sha))"

definition compare_commits :: "surroundings \<Rightarrow> job_context \<Rightarrow> pystr option \<Rightarrow> (world, commit_comparison option) act" where
  "compare_commits io ctx token =
     (if ctx_active_commit_sha ctx = None then ret None
      else if ctx_access_mode ctx = PUBLIC then ret (io_comparison io)
      else seq (require_installation_token token) (\<lambda>_. ret (io_comparison io)))"

section \<open>Analysis\<close>

definition on_stage :: "worker_settings \<Rightarrow> surroundings \<Rightarrow> claimed_job \<Rightarrow> string \<Rightarrow> stage_message \<Rightarrow> (world, unit) act" where
  "on_stage W io c commit_sha m =
     (case m of
        Chunking \<Rightarrow> stage_update W io c PARSING ''chunking'' 85 commit_sha
      | Graphing \<Rightarrow> stage_update W io c BUILDING_GRAPH ''building_graph'' 87 commit_sha)"

definition analyze_checkout ::
  "worker_settings \<Rightarrow> surroundings \<Rightarrow> claimed_job \<Rightarrow> job_context \<Rightarrow> string
    \<Rightarrow> (world, discovery_result \<times> processing_result) act" where
  "analyze_checkout W io c ctx commit_sha =
     seq (stage_update W io c DISCOVERING ''discovering'' 55 commit_sha) (\<lambda>_.
     seq (lift (discover (wk_discovery W) (io_root io) (io_root_is_dir io) (io_tree io))) (\<lambda>discovery.
     seq (stage_update W io c PARSING ''parsing'' 65 commit_sha) (\<lambda>_.
     seq (await_result (on_stage W io c commit_sha) (ctx_repository_id ctx) (ctx_index_version ctx) commit_sha (io_ticks io))
       (\<lambda>processing. ret (discovery, processing)))))"

text \<open>The bytes of the changed files, and the plan when they are too many.\<close>

definition changed_bytes :: "discovery_result \<Rightarrow> freshness_plan \<Rightarrow> nat" where
  "changed_bytes discovery plan = sum_list (map df_size_bytes
     (filter (\<lambda>f. df_relative_path f \<in> target_paths (plan_changes plan)) (dr_files discovery)))"

definition limit_changed_bytes :: "nat \<Rightarrow> discovery_result \<Rightarrow> freshness_plan \<Rightarrow> freshness_plan" where
  "limit_changed_bytes max_bytes discovery plan =
     (if actual_mode plan = INCREMENTAL \<and> max_bytes < changed_bytes discovery plan
      then full_plan ''changed_bytes_limit'' (plan_changes plan) else plan)"

definition record_plan ::
  "worker_settings \<Rightarrow> surroundings \<Rightarrow> claimed_job \<Rightarrow> indexing_mode \<Rightarrow> string option \<Rightarrow> changed_file_set
    \<Rightarrow> (world, unit) act" where
  "record_plan W io c mode reason changes =
     store_update io (\<lambda>_. record_freshness_plan c (wk_id W) mode reason (change_counts changes)
       (card (target_paths changes \<union> removed_paths changes)))"

section \<open>Embedding and storing\<close>

text \<open>\<open>len\<close> of a dictionary whose keys are among the item ids of the documents.\<close>

definition entries :: "(pystr \<rightharpoonup> vector) \<Rightarrow> prepared_embedding list \<Rightarrow> nat" where
  "entries m documents = length (filter (\<lambda>i. m i \<noteq> None) (remdups (map pe_item_id documents)))"

definition reusable_documents :: "freshness_plan \<Rightarrow> prepared_embedding list \<Rightarrow> prepared_embedding list" where
  "reusable_documents plan prepared = filter (\<lambda>p. case pe_chunk p of None \<Rightarrow> False
     | Some ch \<Rightarrow> ck_file_path ch \<notin> target_paths (plan_changes plan)) prepared"

definition vector_for :: "(pystr \<rightharpoonup> vector) \<Rightarrow> (pystr \<rightharpoonup> vector) \<Rightarrow> prepared_embedding \<Rightarrow> vector" where
  "vector_for reused embeddings p =
     (case reused (pe_item_id p) of Some v \<Rightarrow> v
      | None \<Rightarrow> (case embeddings (pe_item_id p) of Some v \<Rightarrow> v | None \<Rightarrow> []))"

definition reuse_vectors ::
  "worker_settings \<Rightarrow> surroundings \<Rightarrow> claimed_job \<Rightarrow> job_context \<Rightarrow> freshness_plan \<Rightarrow> prepared_embedding list
    \<Rightarrow> (world, pystr \<rightharpoonup> vector) act" where
  "reuse_vectors W io c ctx plan prepared =
     (if actual_mode plan = INCREMENTAL \<and> 0 < ctx_active_index_version ctx
      then (let reusable = reusable_documents plan prepared in
        seq (lift (scope_of ctx (ctx_active_index_version ctx))) (\<lambda>_.
        seq (lift (reusable_vectors (wk_vectors W) (io_reusable io) reusable)) (\<lambda>reused.
        if entries reused reusable \<noteq> length reusable
        then seq (record_plan W io c FULL (Some ''previous_artifact_missing'') (plan_changes plan))
               (\<lambda>_. ret Map.empty)
        else ret reused)))
      else ret Map.empty)"

definition embed_and_store ::
  "worker_settings \<Rightarrow> surroundings \<Rightarrow> claimed_job \<Rightarrow> job_context \<Rightarrow> string \<Rightarrow> processing_result \<Rightarrow> freshness_plan
    \<Rightarrow> (world, nat) act" where
  "embed_and_store W io c ctx commit_sha processing plan =
     (let D = wk_digests W; E = wk_embedding W; policy = policy_fingerprint D E;
          repo = ctx_repository_id ctx; ver = ctx_index_version ctx in
      seq (stage_update W io c EMBEDDING ''embedding'' 88 commit_sha) (\<lambda>_.
      seq (lift (sequence_map (prepare_chunk D E) (pr_chunks processing))) (\<lambda>prepared.
      seq (reuse_vectors W io c ctx plan prepared) (\<lambda>reused.
      (let to_embed = filter (\<lambda>p. reused (pe_item_id p) = None) prepared in
      seq (lift (embed_documents E (io_embedding io) to_embed)) (\<lambda>embeddings.
      if entries embeddings to_embed \<noteq> length to_embed
      then throw (invalid_response ''embedding_result_count_mismatch'')
      else
      seq (stage_update W io c FINALIZING ''storing_vectors'' 92 commit_sha) (\<lambda>_.
      seq (lift (scope_of ctx ver)) (\<lambda>scope.
      seq (store_query io (can_cleanup_inactive repo ver)) (\<lambda>eligible.
      if \<not> eligible then throw activation_race
      else
      seq (lift (ensure_collection (wk_vectors W) (io_collection_exists io) (io_create io) (io_collection io) (io_index io))) (\<lambda>_.
      seq (delete_points W io scope) (\<lambda>_.
      seq (lift (sequence_map (\<lambda>p. build_vector_record D E policy scope p (vector_for reused embeddings p)) prepared)) (\<lambda>records.
      seq (store_points W io scope records) (\<lambda>_.
      seq (store_attempt io (\<lambda>_. record_vector_counts c (wk_id W) (length prepared) (length records)
             (entries reused prepared) (Some (length to_embed)))) (\<lambda>_.
      ret (length records)))))))))))))))"

section \<open>Validation and activation\<close>

definition reauthorize :: "worker_settings \<Rightarrow> surroundings \<Rightarrow> claimed_job \<Rightarrow> (world, job_context option) act" where
  "reauthorize W io c = store_call io (\<lambda>now _ db. Inr (authorized_context (wk_store W) now c db))"

definition stale_update :: "worker_settings \<Rightarrow> surroundings \<Rightarrow> claimed_job \<Rightarrow> string \<Rightarrow> bool \<Rightarrow> (world, unit) act" where
  "stale_update W io c why superseded = store_update io (\<lambda>now. mark_stale now c (wk_id W) why superseded)"

definition cancel_update :: "worker_settings \<Rightarrow> surroundings \<Rightarrow> claimed_job \<Rightarrow> (world, unit) act" where
  "cancel_update W io c = store_update io (\<lambda>now. cancel_revoked now c (wk_id W))"

definition activate_call :: "worker_settings \<Rightarrow> surroundings \<Rightarrow> claimed_job \<Rightarrow> string \<Rightarrow> (world, nat) act" where
  "activate_call W io c commit_sha = store_call io (\<lambda>now _ db. activate now c (wk_id W) commit_sha db)"

definition validate_and_activate ::
  "worker_settings \<Rightarrow> surroundings \<Rightarrow> claimed_job \<Rightarrow> job_context \<Rightarrow> string \<Rightarrow> nat \<Rightarrow> (world, bool) act" where
  "validate_and_activate W io c ctx commit_sha vector_count =
     (let D = wk_digests W; E = wk_embedding W in
      seq (stage_update W io c FINALIZING ''validating_index'' 96 commit_sha) (\<lambda>_.
      seq (lift (scope_of ctx (ctx_index_version ctx))) (\<lambda>scope.
      seq (lift (validate_scope (wk_vectors W) (io_count io) (io_pages io) scope vector_count commit_sha
             (embedding_model_fingerprint D E (policy_fingerprint D E)))) (\<lambda>_.
      seq (store_attempt io (\<lambda>_. validate_graph D (wk_collate W) c (wk_id W))) (\<lambda>_.
      seq (store_attempt io (\<lambda>_. mark_build_ready c (wk_id W))) (\<lambda>_.
      seq (store_query io (is_current c (wk_id W))) (\<lambda>current.
      if \<not> current
      then seq (cleanup_inactive W io ctx) (\<lambda>_.
           seq (stale_update W io c ''refresh_superseded_before_activation'' True) (\<lambda>_. ret False))
      else
      seq (reauthorize W io c) (\<lambda>reauthorized.
      case reauthorized of
        None \<Rightarrow> seq (cleanup_inactive W io ctx) (\<lambda>_. seq (cancel_update W io c) (\<lambda>_. ret False))
      | Some again \<Rightarrow>
          if again \<noteq> ctx then throw activation_race
          else
          seq (stage_update W io c FINALIZING ''activating_index'' 99 commit_sha) (\<lambda>_.
          seq (activate_call W io c commit_sha) (\<lambda>previous.
          if 0 < previous then seq (cleanup_superseded W io ctx previous) (\<lambda>_. ret True)
          else ret True))))))))))"

section \<open>A delivery\<close>

text \<open>The part of \<open>_process_authorized\<close> after the early return.\<close>

definition build_index ::
  "worker_settings \<Rightarrow> surroundings \<Rightarrow> claimed_job \<Rightarrow> job_context \<Rightarrow> pystr option \<Rightarrow> string \<Rightarrow> (world, unit) act" where
  "build_index W io c ctx token commit_sha =
     seq (compare_commits io ctx token) (\<lambda>comparison.
     seq (analyze_checkout W io c ctx commit_sha) (\<lambda>(discovery, processing).
     (let plan = limit_changed_bytes (wk_max_changed_bytes W) discovery
            (plan_refresh comparison (0 < ctx_active_index_version ctx) (ctx_requested_mode ctx) (wk_max_changed_files W)) in
     seq (record_plan W io c (actual_mode plan) (fallback_reason plan) (plan_changes plan)) (\<lambda>_.
     seq (store_attempt io (\<lambda>_. prepare_build (wk_digests W) (wk_store W) c (wk_id W) commit_sha discovery processing
            (policy_fingerprint (wk_digests W) (wk_embedding W)))) (\<lambda>_.
     seq (change (\<lambda>w. w\<lparr>wd_prepared := True\<rparr>)) (\<lambda>_.
     seq (embed_and_store W io c ctx commit_sha processing plan) (\<lambda>vector_count.
     seq (drop_checkout io) (\<lambda>_.
     seq (validate_and_activate W io c ctx commit_sha vector_count) (\<lambda>_. ret ())))))))))"

definition process_authorized ::
  "worker_settings \<Rightarrow> surroundings \<Rightarrow> claimed_job \<Rightarrow> job_context \<Rightarrow> (world, unit) act" where
  "process_authorized W io c ctx =
     seq (clone_token W io ctx) (\<lambda>token.
     ensure
       (seq (clone_checkout W io ctx token) (\<lambda>commit_sha.
        if ctx_active_commit_sha ctx = Some commit_sha \<and> ctx_indexed_branch ctx = Some (ctx_default_branch ctx)
           \<and> ctx_requested_mode ctx = INCREMENTAL
        then seq (drop_checkout io) (\<lambda>_. stale_update W io c ''target_already_active'' False)
        else build_index W io c ctx token commit_sha))
       (seq (inspect wd_checkout) (\<lambda>cloned.
        case cloned of None \<Rightarrow> ret () | Some _ \<Rightarrow> remove_checkout io)))"

definition fail_update :: "worker_settings \<Rightarrow> surroundings \<Rightarrow> claimed_job \<Rightarrow> string \<Rightarrow> string \<Rightarrow> bool \<Rightarrow> (world, bool) act" where
  "fail_update W io c why safe_message retryable =
     store_call io (\<lambda>now rnd db. Inr (fail (wk_store W) now rnd c (wk_id W) why safe_message retryable db))"

text \<open>\<open>_cleanup_inactive\<close> of the handlers: only when a context was read and a build prepared.\<close>

definition cleanup_prepared :: "worker_settings \<Rightarrow> surroundings \<Rightarrow> (world, bool) act" where
  "cleanup_prepared W io =
     seq (inspect (\<lambda>w. (wd_context w, wd_prepared w))) (\<lambda>(context, prepared).
       case context of
         None \<Rightarrow> ret True
       | Some ctx \<Rightarrow> if prepared then cleanup_inactive W io ctx else ret True)"

definition on_error :: "worker_settings \<Rightarrow> surroundings \<Rightarrow> claimed_job \<Rightarrow> indexing_error \<Rightarrow> (world, unit) act" where
  "on_error W io c e =
     seq (cleanup_prepared W io) (\<lambda>complete.
     seq (case e of
            IndexingError why safe_message retryable \<Rightarrow>
              fail_update W io c why safe_message (retryable \<or> \<not> complete)
          | InternalError _ \<Rightarrow>
              fail_update W io c ''worker_internal_error''
                ''The indexing worker encountered an internal error'' True)
       (\<lambda>_. ret ()))"

definition attempt_job :: "worker_settings \<Rightarrow> surroundings \<Rightarrow> claimed_job \<Rightarrow> (world, unit) act" where
  "attempt_job W io c =
     seq (reauthorize W io c) (\<lambda>context.
     seq (change (\<lambda>w. w\<lparr>wd_context := context\<rparr>)) (\<lambda>_.
     case context of
       None \<Rightarrow> cancel_update W io c
     | Some ctx \<Rightarrow>
         seq (store_query io (is_current c (wk_id W))) (\<lambda>current.
         if \<not> current then stale_update W io c ''refresh_superseded'' True
         else process_authorized W io c ctx)))"

text \<open>\<open>await heartbeat\<close> raises what ended the heartbeat task.\<close>

definition await_heartbeat :: "surroundings \<Rightarrow> (world, unit) act" where
  "await_heartbeat io = (case io_heartbeat io of None \<Rightarrow> ret () | Some e \<Rightarrow> throw e)"

definition run_claimed :: "worker_settings \<Rightarrow> surroundings \<Rightarrow> claimed_job \<Rightarrow> (world, unit) act" where
  "run_claimed W io c =
     seq (change (\<lambda>w. w\<lparr>wd_context := None, wd_prepared := False, wd_checkout := None\<rparr>)) (\<lambda>_.
     ensure (handle (attempt_job W io c) (on_error W io c)) (await_heartbeat io))"

definition queue_unavailable :: indexing_error where
  "queue_unavailable = InternalError ''QueueUnavailableError''"

definition acknowledge :: "surroundings \<Rightarrow> uuid \<Rightarrow> (world, unit) act" where
  "acknowledge io job w =
     (if io_queue_up io then (Inr (), log_event (Acknowledged job) w) else (Inl queue_unavailable, w))"

text \<open>
  The claim: the system notes which worker holds it. It is given up when the delivery is done, or
  when the reply was lost.
\<close>

definition claim_call :: "worker_settings \<Rightarrow> surroundings \<Rightarrow> uuid \<Rightarrow> (world, claimed_job option) act" where
  "claim_call W io job w =
     (let t = io_turn io (wd_calls w); w1 = peers_act io w; s = wd_sys w1 in
      if tn_connection t = Down then (Inl store_unavailable, w1)
      else case claim (tn_now t) job (wk_id W) (sys_db s) of
        (None, db') \<Rightarrow>
          (if tn_connection t = Up then Inr None else Inl store_unavailable, w1\<lparr>wd_sys := s\<lparr>sys_db := db'\<rparr>\<rparr>)
      | (Some c, db') \<Rightarrow>
          (if tn_connection t = Up
           then (Inr (Some c), w1\<lparr>wd_sys := s\<lparr>sys_db := db', sys_claims := (sys_claims s)(wk_id W := Some c)\<rparr>\<rparr>)
           else (Inl store_unavailable, w1\<lparr>wd_sys := s\<lparr>sys_db := db'\<rparr>\<rparr>)))"

definition give_up :: "worker_settings \<Rightarrow> (world, unit) act" where
  "give_up W = change (\<lambda>w. w\<lparr>wd_sys := (wd_sys w)\<lparr>sys_claims := (sys_claims (wd_sys w))(wk_id W := None)\<rparr>\<rparr>)"

definition process_delivery :: "worker_settings \<Rightarrow> surroundings \<Rightarrow> uuid \<Rightarrow> (world, unit) act" where
  "process_delivery W io job =
     seq (claim_call W io job) (\<lambda>claimed.
     case claimed of
       None \<Rightarrow> acknowledge io job
     | Some c \<Rightarrow> ensure (ensure (run_claimed W io c) (give_up W)) (acknowledge io job))"

text \<open>\<open>reconcile\<close>: \<open>accepted n\<close> is whether Redis takes the \<open>n\<close>-th job.\<close>

definition reconcile :: "worker_settings \<Rightarrow> surroundings \<Rightarrow> (uuid \<Rightarrow> bool) \<Rightarrow> (world, unit) act" where
  "reconcile W io accepted =
     seq (store_call io (\<lambda>now _ db. Inr (recover_abandoned (wk_store W) now db))) (\<lambda>_.
     seq (store_call io (\<lambda>now _ db. Inr (due_jobs (wk_store W) now db, db))) (\<lambda>jobs.
     each (\<lambda>job. if accepted job then store_update io (\<lambda>now. mark_enqueued now job)
                 else throw queue_unavailable) jobs))"

section \<open>The loop\<close>

text \<open>
  One round of \<open>run\<close>: what reclaiming and receiving yield (\<open>None\<close> when Redis is unavailable), each
  delivery with its surroundings, and the surroundings of a reconciliation when one is due.
\<close>

record worker_round_data =
  rd_reclaimed :: "(surroundings \<times> uuid) list option"
  rd_received :: "(surroundings \<times> uuid) option option"
  rd_reconcile :: "(surroundings \<times> (uuid \<Rightarrow> bool)) option"

definition worker_round :: "worker_settings \<Rightarrow> worker_round_data \<Rightarrow> (world, unit) act" where
  "worker_round W rd =
     handle
       (seq (case rd_reclaimed rd of
               None \<Rightarrow> throw queue_unavailable
             | Some deliveries \<Rightarrow> each (\<lambda>(io, job). process_delivery W io job) deliveries) (\<lambda>_.
        seq (case rd_received rd of
               None \<Rightarrow> throw queue_unavailable
             | Some None \<Rightarrow> ret ()
             | Some (Some (io, job)) \<Rightarrow> process_delivery W io job) (\<lambda>_.
        case rd_reconcile rd of None \<Rightarrow> ret () | Some (io, accepted) \<Rightarrow> reconcile W io accepted)))
       (\<lambda>e. if e = queue_unavailable then ret () else throw e)"

text \<open>The rounds until the worker is stopped.\<close>

fun worker_loop :: "worker_settings \<Rightarrow> worker_round_data list \<Rightarrow> (world, unit) act" where
  "worker_loop W [] = ret ()"
| "worker_loop W (rd # rds) = seq (worker_round W rd) (\<lambda>_. worker_loop W rds)"

definition run_worker ::
  "worker_settings \<Rightarrow> surroundings \<Rightarrow> bool \<Rightarrow> bool \<Rightarrow> (uuid \<Rightarrow> bool) \<Rightarrow> worker_round_data list \<Rightarrow> (world, unit) act" where
  "run_worker W io model_ready group_ready accepted rds =
     (if \<not> model_ready
      then throw (IndexingError ''embedding_model_not_ready'' ''The embedding model is not ready'' True)
      else
      seq (lift (ensure_collection (wk_vectors W) (io_collection_exists io) (io_create io) (io_collection io) (io_index io))) (\<lambda>_.
      seq (if group_ready then ret () else throw queue_unavailable) (\<lambda>_.
      seq (reconcile W io accepted) (\<lambda>_. worker_loop W rds))))"

end
