(* ===== verification/WorkerRuns.thy ===== *)
theory WorkerRuns
  imports Worker
begin

text \<open>
  What a delivery does: it is a run of the system of \<^theory_text>\<open>System\<close>, so every guarantee of \<^theory_text>\<open>Guarantees\<close>
  holds across it; and when the store answers, it ends with the job settled and acknowledged.
\<close>

section \<open>Locks\<close>

definition locks :: "indexing_job list \<Rightarrow> (uuid \<times> string) set" where
  "locks js = {(job_id j, l) | j l. j \<in> set js \<and> job_status j = RUNNING \<and> job_locked_by j = Some l}"

lemma locks_iff: "(i, l) \<in> locks js \<longleftrightarrow> (\<exists>j \<in> set js. job_id j = i \<and> job_status j = RUNNING \<and> job_locked_by j = Some l)"
  by (auto simp: locks_def)

lemma locks_core: "(i, l) \<in> locks js \<longleftrightarrow> (\<exists>k \<in> set (map job_core js). \<exists>r a. k = (i, r, RUNNING, a, Some l))"
  by (auto simp: locks_iff job_core_def)

lemma locks_cong: "map job_core js' = map job_core js \<Longrightarrow> locks js' = locks js"
  by (rule set_eqI) (simp only: split_paired_all locks_core)

lemma locks_kept: "map job_core js' = map job_core js \<Longrightarrow> locks js' \<subseteq> locks js"
  by (drule locks_cong) simp

lemma locks_update:
  assumes "\<And>j. P j \<Longrightarrow> job_status (f j) \<noteq> RUNNING \<or> job_core (f j) = job_core j"
  shows "locks (update_where P f js) \<subseteq> locks js"
proof (clarify)
  fix i l assume "(i, l) \<in> locks (update_where P f js)"
  then obtain j where j: "j \<in> set js" "job_id (if P j then f j else j) = i"
    "job_status (if P j then f j else j) = RUNNING" "job_locked_by (if P j then f j else j) = Some l"
    by (auto simp: locks_iff set_update_where)
  show "(i, l) \<in> locks js"
  proof (cases "P j")
    case True
    with assms [OF True] j have "job_core (f j) = job_core j" by auto
    with j True show ?thesis unfolding locks_core by (auto simp: job_core_def)
  next
    case False
    with j show ?thesis by (auto simp: locks_iff)
  qed
qed

lemma locks_ended:
  assumes "js' = update_where P f js" and "\<And>j. job_status (f j) \<noteq> RUNNING"
  shows "locks js' \<subseteq> locks js"
  unfolding assms(1) by (rule locks_update) (rule disjI1, rule assms(2))

text \<open>An operation that changes no job, or takes the jobs it changes out of the running state.\<close>

definition ends :: "db \<Rightarrow> db \<Rightarrow> bool" where
  "ends db db' \<longleftrightarrow> db_jobs db' = db_jobs db
     \<or> (\<exists>P f. db_jobs db' = update_where P f (db_jobs db) \<and> (\<forall>j. job_status (f j) \<noteq> RUNNING))"

lemma ends_locks: "ends db db' \<Longrightarrow> locks (db_jobs db') \<subseteq> locks (db_jobs db)"
  unfolding ends_def by (elim disjE exE conjE) (simp_all only: order_refl, rule locks_ended, rule refl, iprover)

lemma released_ends: "released job f db db' \<Longrightarrow> ends db db'"
  unfolding released_def ends_def by iprover

lemma stale_ends: "ends db (mark_stale now c w why superseded db)"
  using stale_released [of now c w why superseded db] released_ends unfolding ends_def by metis

lemma cancel_ends: "ends db (cancel_revoked now c w db)"
  by (auto simp: cancel_revoked_def ends_def Let_def split: option.split intro!: exI)

lemma fail_ends: "ends db (snd (fail S now rnd c w why msg retryable db))"
  by (auto simp: fail_def ends_def Let_def split: option.split intro!: exI)

lemmas ended_locks = ends_locks [OF stale_ends] ends_locks [OF cancel_ends] ends_locks [OF fail_ends]

lemma worker_locks:
  assumes "worker_op S D col w c db db'"
  shows "locks (db_jobs db') \<subseteq> locks (db_jobs db)"
  using assms
proof (cases rule: worker_op.cases)
  case (wop_context now ctx)
  show ?thesis unfolding snd_eqD [OF wop_context] by (rule locks_kept) (simp add: core_frames)
next
  case (wop_prepare sha d p fp)
  then show ?thesis using locks_cong [OF core_prepare] by blast
next
  case (wop_vectors e v r q)
  then show ?thesis using locks_cong [OF core_vectors] by blast
next
  case (wop_activate now sha previous)
  then obtain job f where "released job f db db'" using activate_released by blast
  then show ?thesis by (rule ends_locks [OF released_ends])
next
  case (wop_fail now rnd why msg retryable again)
  show ?thesis unfolding snd_eqD [OF wop_fail] by (rule ended_locks)
qed (simp_all add: ended_locks locks_kept core_frames job_core_validate job_core_ready job_core_failed_cleanup
    job_core_superseded_cleanup)

lemma recover_locks: "recover_abandoned S now db = (n, db') \<Longrightarrow> locks (db_jobs db') \<subseteq> locks (db_jobs db)"
proof -
  have "locks (db_jobs (fold (recover_job S now) js d)) \<subseteq> locks (db_jobs d)" for js d
  proof (induction js arbitrary: d)
    case (Cons j js)
    have "locks (db_jobs (recover_job S now j d)) \<subseteq> locks (db_jobs d)"
      unfolding recover_job_jobs by (rule locks_update) simp
    with Cons [of "recover_job S now j d"] show ?case by simp
  qed simp
  then show "recover_abandoned S now db = (n, db') \<Longrightarrow> ?thesis"
    by (auto simp: recover_abandoned_def Let_def)
qed

lemma intake_locks: "intake db db' \<Longrightarrow> locks (db_jobs db') \<subseteq> locks (db_jobs db)"
proof -
  assume "intake db db'"
  then obtain js where js: "map job_core (db_jobs db') = map job_core (db_jobs db @ js)" "\<forall>j \<in> set js. fresh_job j"
    unfolding intake_def by blast
  from locks_cong [OF js(1)] have "locks (db_jobs db') = locks (db_jobs db @ js)" .
  also have "locks (db_jobs db @ js) \<subseteq> locks (db_jobs db)"
    using js(2) by (auto simp: locks_iff fresh_job_def)
  finally show ?thesis .
qed

lemma claim_locks:
  assumes "claim now jid w db = (Some c, db')"
  shows "locks (db_jobs db') \<subseteq> insert (jid, w) (locks (db_jobs db))"
  using assms
proof (rule claim_rowD)
qed (auto simp: locks_iff set_update_where)

section \<open>Steps beside a claim\<close>

text \<open>A step that leaves the claim of worker \<open>W\<close>, and so never gives it a lock.\<close>

definition kept_step ::
  "store_settings \<Rightarrow> digests \<Rightarrow> (pystr \<Rightarrow> pystr) \<Rightarrow> access_settings \<Rightarrow> string \<Rightarrow> system \<Rightarrow> system \<Rightarrow> bool" where
  "kept_step S D col A W s t \<longleftrightarrow> sys_step S D col A s t \<and> sys_claims t W = sys_claims s W"

lemma kept_locks:
  assumes "kept_step S D col A W s t" and "(i, W) \<in> locks (db_jobs (sys_db t))"
  shows "(i, W) \<in> locks (db_jobs (sys_db s))"
proof -
  from assms(1) have step: "sys_step S D col A s t" and kept: "sys_claims t W = sys_claims s W"
    by (simp_all add: kept_step_def)
  from step show ?thesis
  proof (cases rule: sys_step.cases)
    case (step_claim w now jid c db')
    with kept have "w \<noteq> W" by auto
    with claim_locks [OF step_claim(3)] assms(2) step_claim(1) show ?thesis by auto
  next
    case (step_worker w c db')
    with worker_locks [OF step_worker(3)] assms(2) show ?thesis by auto
  next
    case (step_outside db')
    from outside_effect [OF step_outside(2)] have "locks (db_jobs db') \<subseteq> locks (db_jobs (sys_db s))"
      using recover_locks intake_locks by blast
    with step_outside(1) assms(2) show ?thesis by auto
  qed (use assms(2) in simp)
qed

lemma kepts_claims: "(kept_step S D col A W)\<^sup>*\<^sup>* s t \<Longrightarrow> sys_claims t W = sys_claims s W"
  by (induction rule: rtranclp_induct) (simp_all add: kept_step_def)

lemma kepts_locks:
  "(kept_step S D col A W)\<^sup>*\<^sup>* s t \<Longrightarrow> (i, W) \<in> locks (db_jobs (sys_db t)) \<Longrightarrow> (i, W) \<in> locks (db_jobs (sys_db s))"
  by (induction rule: rtranclp_induct) (blast dest: kept_locks)+

lemma kepts_steps: "(kept_step S D col A W)\<^sup>*\<^sup>* s t \<Longrightarrow> sys_steps S D col A s t"
  by (induction rule: rtranclp_induct) (auto simp: kept_step_def intro: steps_step)

text \<open>
  The relation between the worlds before and after a part of a run under the claim \<open>cl\<close>: the worker
  gains no lock, and the systems are linked by steps that keep the claim.
\<close>

definition runs ::
  "store_settings \<Rightarrow> digests \<Rightarrow> (pystr \<Rightarrow> pystr) \<Rightarrow> access_settings \<Rightarrow> string \<Rightarrow> claimed_job option
    \<Rightarrow> world \<Rightarrow> world \<Rightarrow> bool" where
  "runs S D col A W cl u v \<longleftrightarrow>
     (\<forall>i. (i, W) \<in> locks (db_jobs (sys_db (wd_sys v))) \<longrightarrow> (i, W) \<in> locks (db_jobs (sys_db (wd_sys u))))
     \<and> (sys_claims (wd_sys u) W = cl \<longrightarrow> (kept_step S D col A W)\<^sup>*\<^sup>* (wd_sys u) (wd_sys v))"

interpretation run: world_relation "runs S D col A W cl" for S D col A W cl
proof
  show "runs S D col A W cl u u" for u by (simp add: runs_def)
next
  fix u v w assume uv: "runs S D col A W cl u v" and vw: "runs S D col A W cl v w"
  have "sys_claims (wd_sys u) W = cl \<Longrightarrow> sys_claims (wd_sys v) W = cl"
    using uv kepts_claims by (metis runs_def)
  with uv vw show "runs S D col A W cl u w" by (auto simp: runs_def)
qed

text \<open>The others keep the claim of the worker, whatever they do.\<close>

definition peers_ok ::
  "store_settings \<Rightarrow> digests \<Rightarrow> (pystr \<Rightarrow> pystr) \<Rightarrow> access_settings \<Rightarrow> string \<Rightarrow> surroundings \<Rightarrow> bool" where
  "peers_ok S D col A W io \<longleftrightarrow> (\<forall>n s. (kept_step S D col A W)\<^sup>*\<^sup>* s (tn_peers (io_turn io n) s))"

lemma runs_peers: "peers_ok S D col A W io \<Longrightarrow> runs S D col A W cl w (peers_act io w)"
  using kepts_locks by (fastforce simp: runs_def peers_act_def peers_ok_def)

lemma runs_same: "wd_sys v = wd_sys u \<Longrightarrow> runs S D col A W cl u v"
  by (simp add: runs_def)

lemma runs_step:
  assumes "worker_op S D col W c (sys_db (wd_sys u)) db'" and "wd_sys v = (wd_sys u)\<lparr>sys_db := db'\<rparr>"
  shows "runs S D col A W (Some c) u v"
proof -
  have "kept_step S D col A W (wd_sys u) ((wd_sys u)\<lparr>sys_db := db'\<rparr>)" if "sys_claims (wd_sys u) W = Some c"
    using step_worker [OF that assms(1)] by (simp add: kept_step_def)
  with worker_locks [OF assms(1)] assms(2) show ?thesis by (auto simp: runs_def)
qed


section \<open>Every part of a run\<close>

abbreviation worker_ok :: "access_settings \<Rightarrow> worker_settings \<Rightarrow> surroundings \<Rightarrow> bool" where
  "worker_ok A W io \<equiv> peers_ok (wk_store W) (wk_digests W) (wk_collate W) A (wk_id W) io"

abbreviation wop :: "worker_settings \<Rightarrow> claimed_job \<Rightarrow> db \<Rightarrow> db \<Rightarrow> bool" where
  "wop W c \<equiv> worker_op (wk_store W) (wk_digests W) (wk_collate W) (wk_id W) c"

abbreviation tracked :: "access_settings \<Rightarrow> worker_settings \<Rightarrow> claimed_job \<Rightarrow> (world, 'a) act \<Rightarrow> bool" where
  "tracked A W c \<equiv> run.across (wk_store W) (wk_digests W) (wk_collate W) A (wk_id W) (Some c)"

lemma tracked_store_call:
  assumes ok: "worker_ok A W io"
    and op: "\<And>now rnd db x db'. f now rnd db = Inr (x, db') \<Longrightarrow> wop W c db db' \<or> db' = db"
  shows "tracked A W c (store_call io f)"
proof (unfold run.across_def, intro allI)
  fix w
  let ?R = "runs (wk_store W) (wk_digests W) (wk_collate W) A (wk_id W) (Some c)"
  let ?t = "io_turn io (wd_calls w)" and ?w1 = "peers_act io w"
  have peers: "?R w ?w1" using ok by (rule runs_peers)
  show "?R w (snd (store_call io f w))"
  proof (cases "tn_connection ?t = Down \<or> (\<exists>e. f (tn_now ?t) (tn_random ?t) (sys_db (wd_sys ?w1)) = Inl e)")
    case True
    then have "snd (store_call io f w) = ?w1" by (auto simp: store_call_def Let_def)
    with peers show ?thesis by simp
  next
    case False
    then obtain x db' where f: "f (tn_now ?t) (tn_random ?t) (sys_db (wd_sys ?w1)) = Inr (x, db')"
      by (metis old.sum.exhaust surj_pair)
    with False have eq: "snd (store_call io f w) = ?w1\<lparr>wd_sys := (wd_sys ?w1)\<lparr>sys_db := db'\<rparr>\<rparr>"
      by (simp add: store_call_def Let_def)
    from op [OF f] have "?R ?w1 (?w1\<lparr>wd_sys := (wd_sys ?w1)\<lparr>sys_db := db'\<rparr>\<rparr>)"
      by (auto intro: runs_step runs_same)
    with peers show ?thesis unfolding eq by (rule run.transitive)
  qed
qed

lemma tracked_store:
  assumes "worker_ok A W io"
  shows "(\<And>now db. wop W c db (g now db)) \<Longrightarrow> tracked A W c (store_update io g)"
    and "tracked A W c (store_query io q)"
    and "(\<And>now db db'. h now db = Inr db' \<Longrightarrow> wop W c db db') \<Longrightarrow> tracked A W c (store_attempt io h)"
  unfolding store_update_def store_query_def store_attempt_def
  by (rule tracked_store_call [OF assms], auto split: sum.splits)+

lemma tracked_points:
  assumes "worker_ok A W io"
  shows "tracked A W c (delete_points W io scope)" and "tracked A W c (store_points W io scope records)"
  using runs_peers [OF assms]
  by (auto simp: run.across_def delete_points_def store_points_def log_event_def runs_def Let_def
      split: sum.splits prod.splits)

lemma tracked_local:
  "tracked A W c (remove_checkout io)" "tracked A W c (inspect g)"
  "(\<And>w. wd_sys (h w) = wd_sys w) \<Longrightarrow> tracked A W c (change h)"
  by (auto simp: run.across_def remove_checkout_def log_event_def inspect_def change_def intro: runs_same split: sum.split)

lemma tracked_prod: "(\<And>x y. tracked A W c (g x y)) \<Longrightarrow> tracked A W c (case v of (x, y) \<Rightarrow> g x y)"
  by (cases v) simp

named_theorems tracked

lemmas [tracked] = tracked_store tracked_points tracked_local run.across_pure run.across_seq run.across_handle
  run.across_ensure run.across_if run.across_option tracked_prod

lemma tracked_cleanup [tracked]:
  "worker_ok A W io \<Longrightarrow> tracked A W c (cleanup_inactive W io ctx)"
  "worker_ok A W io \<Longrightarrow> tracked A W c (cleanup_superseded W io ctx ver)"
  unfolding cleanup_inactive_def cleanup_superseded_def Let_def
  by (intro tracked worker_op.intros; assumption)+


lemma tracked_stage [tracked]:
  "worker_ok A W io \<Longrightarrow> tracked A W c (stage_update W io c status name progress sha)"
  "worker_ok A W io \<Longrightarrow> tracked A W c (record_plan W io c mode reason changes)"
  "worker_ok A W io \<Longrightarrow> tracked A W c (stale_update W io c why superseded)"
  "worker_ok A W io \<Longrightarrow> tracked A W c (cancel_update W io c)"
  unfolding stage_update_def record_plan_def stale_update_def cancel_update_def
  by (intro tracked worker_op.intros; assumption)+

lemma tracked_calls [tracked]:
  "worker_ok A W io \<Longrightarrow> tracked A W c (reauthorize W io c)"
  "worker_ok A W io \<Longrightarrow> tracked A W c (activate_call W io c sha)"
  "worker_ok A W io \<Longrightarrow> tracked A W c (fail_update W io c why msg retryable)"
  unfolding reauthorize_def activate_call_def fail_update_def
  by (rule tracked_store_call, assumption, blast intro: worker_op.intros)+

lemma tracked_await [tracked]:
  "(\<And>m. tracked A W c (on m)) \<Longrightarrow> tracked A W c (await_result on repo ver sha ticks)"
proof (induction ticks)
  case (Cons t ts)
  have "tracked A W c (seq (on m) (\<lambda>_. await_result on repo ver sha ts))" for m
    using Cons.prems Cons.IH [OF Cons.prems] by (intro tracked)
  with Cons.IH [OF Cons.prems] show ?case
    by (cases t) (simp_all add: run.across_pure split: child_message.split)
qed (simp add: run.across_pure)

lemma tracked_drop [tracked]: "tracked A W c (drop_checkout io)"
  unfolding drop_checkout_def by (intro tracked) simp

lemma tracked_lookup:
  "(\<And>m. tracked A W c (g m)) \<Longrightarrow> tracked A W c m1 \<Longrightarrow> tracked A W c m2 \<Longrightarrow> tracked A W c m3
    \<Longrightarrow> tracked A W c (case l of PL_Found m \<Rightarrow> g m | PL_Not_Found \<Rightarrow> m1 | PL_Private \<Rightarrow> m2 | PL_Error \<Rightarrow> m3)"
  by (cases l) simp_all

lemma tracked_token [tracked]: "worker_ok A W io \<Longrightarrow> tracked A W c (clone_token W io ctx)"
  unfolding clone_token_def Let_def by (intro tracked tracked_lookup worker_op.intros; assumption)

lemma tracked_clone [tracked]: "tracked A W c (clone_checkout W io ctx token)"
  unfolding clone_checkout_def by (intro tracked) (simp add: log_event_def)

lemma tracked_compare [tracked]: "tracked A W c (compare_commits io ctx token)"
  unfolding compare_commits_def require_installation_token_def by (intro tracked)

lemma tracked_on_stage [tracked]: "worker_ok A W io \<Longrightarrow> tracked A W c (on_stage W io c sha m)"
  unfolding on_stage_def by (cases m; simp; intro tracked)

lemma tracked_analyze [tracked]: "worker_ok A W io \<Longrightarrow> tracked A W c (analyze_checkout W io c ctx sha)"
  unfolding analyze_checkout_def by (intro tracked)

lemma tracked_reuse [tracked]: "worker_ok A W io \<Longrightarrow> tracked A W c (reuse_vectors W io c ctx plan prepared)"
  unfolding reuse_vectors_def Let_def by (intro tracked)

lemma tracked_embed [tracked]: "worker_ok A W io \<Longrightarrow> tracked A W c (embed_and_store W io c ctx sha p plan)"
  unfolding embed_and_store_def Let_def by (intro tracked worker_op.intros; assumption)

lemma tracked_validate [tracked]: "worker_ok A W io \<Longrightarrow> tracked A W c (validate_and_activate W io c ctx sha n)"
  unfolding validate_and_activate_def Let_def by (intro tracked worker_op.intros; assumption)

lemma tracked_build [tracked]: "worker_ok A W io \<Longrightarrow> tracked A W c (build_index W io c ctx token sha)"
  unfolding build_index_def Let_def
  by (intro tracked worker_op.intros; (assumption | simp)?)

lemma tracked_process [tracked]: "worker_ok A W io \<Longrightarrow> tracked A W c (process_authorized W io c ctx)"
  unfolding process_authorized_def by (intro tracked; (assumption | simp)?)

lemma tracked_on_error [tracked]: "worker_ok A W io \<Longrightarrow> tracked A W c (on_error W io c e)"
  unfolding on_error_def cleanup_prepared_def
  by (cases e; simp; intro tracked)

lemma tracked_attempt [tracked]: "worker_ok A W io \<Longrightarrow> tracked A W c (attempt_job W io c)"
  unfolding attempt_job_def by (intro tracked; (assumption | simp)?)

lemma tracked_run [tracked]: "worker_ok A W io \<Longrightarrow> tracked A W c (run_claimed W io c)"
  unfolding run_claimed_def await_heartbeat_def by (intro tracked) simp


section \<open>A delivery is a run of the system\<close>

abbreviation steps_of :: "access_settings \<Rightarrow> worker_settings \<Rightarrow> system \<Rightarrow> system \<Rightarrow> bool" where
  "steps_of A W \<equiv> sys_steps (wk_store W) (wk_digests W) (wk_collate W) A"

lemma steps_one: "sys_step S D col A s t \<Longrightarrow> sys_steps S D col A s t"
  by (rule steps_step [OF steps_refl])

lemma tracked_steps:
  assumes "tracked A W c m" and "m w = (r, w')" and "sys_claims (wd_sys w) (wk_id W) = Some c"
  shows "steps_of A W (wd_sys w) (wd_sys w') \<and> sys_claims (wd_sys w') (wk_id W) = Some c"
  using run.acrossD [OF assms(1,2)] assms(3) kepts_steps kepts_claims unfolding runs_def by metis

lemma claim_call_steps:
  assumes ok: "worker_ok A W io" and idle: "sys_claims (wd_sys w) (wk_id W) = None"
    and call: "claim_call W io job w = (r, w1)"
  shows "steps_of A W (wd_sys w) (wd_sys w1)
    \<and> sys_claims (wd_sys w1) (wk_id W) = (case r of Inl _ \<Rightarrow> None | Inr v \<Rightarrow> v)"
proof -
  let ?t = "io_turn io (wd_calls w)" and ?s = "wd_sys (peers_act io w)"
  have peers: "(kept_step (wk_store W) (wk_digests W) (wk_collate W) A (wk_id W))\<^sup>*\<^sup>* (wd_sys w) ?s"
    using ok by (simp add: peers_ok_def peers_act_def)
  note start = kepts_steps [OF peers] and none = kepts_claims [OF peers, unfolded idle]
  show ?thesis
  proof (cases "tn_connection ?t = Down")
    case True
    with call start none show ?thesis by (auto simp: claim_call_def Let_def)
  next
    case up: False
    obtain v db' where claim: "claim (tn_now ?t) job (wk_id W) (sys_db ?s) = (v, db')" by fastforce
    show ?thesis
    proof (cases v)
      case None
      with claim have "db' = sys_db ?s" using claim_none by blast
      then have "wd_sys w1 = ?s" and "r = Inl store_unavailable \<or> r = Inr None"
        using call up claim None by (auto simp: claim_call_def Let_def split: if_splits)
      with start none show ?thesis by auto
    next
      case (Some c)
      let ?u = "?s\<lparr>sys_db := db', sys_claims := (sys_claims ?s)(wk_id W := Some c)\<rparr>"
      have step: "steps_of A W ?s ?u"
        using step_claim [OF none] claim Some by (blast intro: steps_one)
      have "steps_of A W ?u (?u\<lparr>sys_claims := (sys_claims ?u)(wk_id W := None)\<rparr>)"
        by (rule steps_one, rule step_drop)
      moreover have "(sys_claims ?s)(wk_id W := None) = sys_claims ?s" using none by auto
      ultimately have dropped: "steps_of A W ?u (?s\<lparr>sys_db := db'\<rparr>)" by simp
      show ?thesis
        using call up claim Some sys_steps_trans [OF step start]
          sys_steps_trans [OF sys_steps_trans [OF dropped step] start] none
        by (auto simp: claim_call_def Let_def split: if_splits)
    qed
  qed
qed

lemma ensure_parts:
  assumes "ensure m k w = (r, w')"
  obtains r1 v r2 where "m w = (r1, v)" and "k v = (r2, w')" and "r = (case r2 of Inl e \<Rightarrow> Inl e | Inr _ \<Rightarrow> r1)"
  using assms by (auto simp: ensure_def split: prod.splits sum.splits)

lemma acknowledge_sys: "acknowledge io job w = (r, w') \<Longrightarrow> wd_sys w' = wd_sys w"
  by (auto simp: acknowledge_def log_event_def split: if_splits)

lemma delivery_steps:
  assumes "worker_ok A W io" and "sys_claims (wd_sys w) (wk_id W) = None"
    and "process_delivery W io job w = (r, w')"
  shows "steps_of A W (wd_sys w) (wd_sys w') \<and> sys_claims (wd_sys w') (wk_id W) = None"
proof -
  obtain v w1 where call: "claim_call W io job w = (v, w1)" by fastforce
  note claim = claim_call_steps [OF assms(1,2) call]
  show ?thesis
  proof (cases "\<exists>c. v = Inr (Some c)")
    case False
    then have "wd_sys w' = wd_sys w1"
      using assms(3) call acknowledge_sys
      by (auto simp: process_delivery_def seq_def split: sum.splits option.splits)
    with claim False show ?thesis by (auto split: sum.splits option.splits)
  next
    case True
    then obtain c where v: "v = Inr (Some c)" by blast
    with assms(3) call have "ensure (ensure (run_claimed W io c) (give_up W)) (acknowledge io job) w1 = (r, w')"
      by (simp add: process_delivery_def seq_def)
    then obtain r1 w2 r2 where inner: "ensure (run_claimed W io c) (give_up W) w1 = (r1, w2)"
      and ack: "acknowledge io job w2 = (r2, w')" by (rule ensure_parts)
    from inner obtain r3 w3 r4 where run: "run_claimed W io c w1 = (r3, w3)" and drop: "give_up W w3 = (r4, w2)"
      by (rule ensure_parts)
    from claim v have held: "sys_claims (wd_sys w1) (wk_id W) = Some c" by simp
    note steps = tracked_steps [OF tracked_run [OF assms(1)] run held]
    have w2: "wd_sys w2 = (wd_sys w3)\<lparr>sys_claims := (sys_claims (wd_sys w3))(wk_id W := None)\<rparr>"
      using drop by (auto simp: give_up_def change_def)
    have "steps_of A W (wd_sys w3) (wd_sys w2)"
      unfolding w2 by (rule steps_one, rule step_drop)
    with sys_steps_trans [OF conjunct1 [OF steps]] claim have "steps_of A W (wd_sys w) (wd_sys w2)"
      using sys_steps_trans by blast
    with w2 acknowledge_sys [OF ack] show ?thesis by simp
  qed
qed


text \<open>
  Between deliveries the worker holds no claim; the loop keeps it so, and its worlds are linked by
  steps of the system.
\<close>

definition idles :: "access_settings \<Rightarrow> worker_settings \<Rightarrow> world \<Rightarrow> world \<Rightarrow> bool" where
  "idles A W u v \<longleftrightarrow> (sys_claims (wd_sys u) (wk_id W) = None \<longrightarrow>
     steps_of A W (wd_sys u) (wd_sys v) \<and> sys_claims (wd_sys v) (wk_id W) = None)"

interpretation idle: world_relation "idles A W" for A W
  by unfold_locales (auto simp: idles_def intro: sys_steps_trans)

lemma idle_delivery: "worker_ok A W io \<Longrightarrow> idle.across A W (process_delivery W io job)"
  unfolding idle.across_def idles_def using delivery_steps [OF _ _ prod.collapse [symmetric]] by blast

lemma idle_store_call:
  assumes ok: "worker_ok A W io"
    and op: "\<And>now rnd db x db'. f now rnd db = Inr (x, db') \<Longrightarrow> outside_op (wk_store W) A db db' \<or> db' = db"
  shows "idle.across A W (store_call io f)"
proof (unfold idle.across_def idles_def, intro allI impI)
  fix w :: world assume none: "sys_claims (wd_sys w) (wk_id W) = None"
  let ?t = "io_turn io (wd_calls w)" and ?s = "wd_sys (peers_act io w)"
  have "(kept_step (wk_store W) (wk_digests W) (wk_collate W) A (wk_id W))\<^sup>*\<^sup>* (wd_sys w) ?s"
    using ok by (simp add: peers_ok_def peers_act_def)
  note start = kepts_steps [OF this] and free = kepts_claims [OF this, unfolded none]
  have "wd_sys (snd (store_call io f w)) = ?s
      \<or> (\<exists>x db'. f (tn_now ?t) (tn_random ?t) (sys_db ?s) = Inr (x, db') \<and> wd_sys (snd (store_call io f w)) = ?s\<lparr>sys_db := db'\<rparr>)"
    by (auto simp: store_call_def Let_def split: sum.splits prod.splits)
  then have "steps_of A W ?s (wd_sys (snd (store_call io f w)))
      \<and> sys_claims (wd_sys (snd (store_call io f w))) (wk_id W) = None"
  proof (elim disjE exE conjE)
    fix x db' assume f: "f (tn_now ?t) (tn_random ?t) (sys_db ?s) = Inr (x, db')"
      and eq: "wd_sys (snd (store_call io f w)) = ?s\<lparr>sys_db := db'\<rparr>"
    from op [OF f] show ?thesis
      unfolding eq using free by (auto intro: steps_one step_outside)
  qed (simp add: free)
  with start show "steps_of A W (wd_sys w) (wd_sys (snd (store_call io f w)))
      \<and> sys_claims (wd_sys (snd (store_call io f w))) (wk_id W) = None"
    using sys_steps_trans by blast
qed

lemma idle_reconcile: "worker_ok A W io \<Longrightarrow> idle.across A W (reconcile W io accepted)"
  unfolding reconcile_def store_update_def
  by (intro idle.across_seq idle.across_each idle.across_if idle.across_pure idle_store_call; assumption?)
    (auto intro: outside_op.intros)

definition rounds_ok :: "access_settings \<Rightarrow> worker_settings \<Rightarrow> worker_round_data list \<Rightarrow> bool" where
  "rounds_ok A W rds \<longleftrightarrow> (\<forall>rd \<in> set rds.
     (\<forall>ds. rd_reclaimed rd = Some ds \<longrightarrow> (\<forall>(io, job) \<in> set ds. worker_ok A W io))
     \<and> (\<forall>io job. rd_received rd = Some (Some (io, job)) \<longrightarrow> worker_ok A W io)
     \<and> (\<forall>io accepted. rd_reconcile rd = Some (io, accepted) \<longrightarrow> worker_ok A W io))"

lemma idle_each: "(\<And>x. x \<in> set xs \<Longrightarrow> idle.across A W (g x)) \<Longrightarrow> idle.across A W (each g xs)"
  by (induction xs) (simp_all add: idle.across_pure idle.across_seq)

lemma idle_round:
  assumes "rounds_ok A W [rd]"
  shows "idle.across A W (worker_round W rd)"
proof -
  have "idle.across A W (case rd_reclaimed rd of None \<Rightarrow> throw queue_unavailable
      | Some deliveries \<Rightarrow> each (\<lambda>(io, job). process_delivery W io job) deliveries)"
    using assms by (auto simp: rounds_ok_def intro!: idle.across_pure idle_each idle_delivery split: option.split)
  moreover have "idle.across A W (case rd_received rd of None \<Rightarrow> throw queue_unavailable | Some None \<Rightarrow> ret ()
      | Some (Some (io, job)) \<Rightarrow> process_delivery W io job)"
    using assms by (auto simp: rounds_ok_def intro!: idle.across_pure idle_delivery split: option.split)
  moreover have "idle.across A W (case rd_reconcile rd of None \<Rightarrow> ret () | Some (io, accepted) \<Rightarrow> reconcile W io accepted)"
    using assms by (auto simp: rounds_ok_def intro!: idle.across_pure idle_reconcile split: option.split)
  ultimately show ?thesis
    unfolding worker_round_def
    by (intro idle.across_handle idle.across_seq idle.across_if idle.across_pure)
qed

lemma idle_loop: "rounds_ok A W rds \<Longrightarrow> idle.across A W (worker_loop W rds)"
proof (induction rds)
  case (Cons rd rds)
  then have "rounds_ok A W [rd]" "rounds_ok A W rds" by (simp_all add: rounds_ok_def)
  with Cons.IH show ?case by (simp add: idle.across_seq idle_round)
qed (simp add: idle.across_pure)

text \<open>
  C3: A worker process is a run of the system: whatever GitHub, git, the analyzer, the embedding service,
  Qdrant and Redis answer in its rounds, whatever exceptions occur, wherever a connection to the
  database is lost and whatever the other processes do in between, its transactions are steps of
  the system under the claims it received, and it holds no claim when it ends. So every guarantee
  about reachable states and steps holds for the program the worker runs.
\<close>

theorem worker_refines_system:
  assumes "worker_ok A W io" and "rounds_ok A W rds" and "sys_claims (wd_sys w) (wk_id W) = None"
    and "run_worker W io ready group_ready accepted rds w = (r, w')"
  shows "sys_steps (wk_store W) (wk_digests W) (wk_collate W) A (wd_sys w) (wd_sys w')
    \<and> sys_claims (wd_sys w') (wk_id W) = None"
proof -
  have "idle.across A W (run_worker W io ready group_ready accepted rds)"
    unfolding run_worker_def
    by (intro idle.across_if idle.across_seq idle.across_pure idle_reconcile idle_loop assms(1,2))
  from idle.acrossD [OF this assms(4)] assms(3) show ?thesis by (simp add: idles_def)
qed

section \<open>A delivery settles its job\<close>

definition settled :: "worker_settings \<Rightarrow> claimed_job \<Rightarrow> world \<Rightarrow> bool" where
  "settled W c w \<longleftrightarrow> (cl_id c, wk_id W) \<notin> locks (db_jobs (sys_db (wd_sys w)))"

lemma locks_owned: "(cl_id c, w) \<in> locks js \<longleftrightarrow> (\<exists>j \<in> set js. owned c w j)"
  by (auto simp: locks_iff owned_def)

lemma no_owner: "owned_job c w db = None \<Longrightarrow> (cl_id c, w) \<notin> locks (db_jobs db)"
  by (auto simp: owned_job_def locks_owned dest: select_first_None [THEN iffD1])

lemma update_settles:
  assumes "\<And>j. owned c w j \<Longrightarrow> P j" and "\<And>j. job_status (f j) \<noteq> RUNNING"
  shows "(cl_id c, w) \<notin> locks (update_where P f js)"
  using assms by (auto simp: locks_owned set_update_where owned_def)

lemma released_settles:
  assumes "owned_job c w db = Some job" and "released job f db db'"
  shows "(cl_id c, w) \<notin> locks (db_jobs db')"
proof -
  from assms(2) have js: "db_jobs db' = update_where (\<lambda>x. job_id x = job_id job) f (db_jobs db)"
    and f: "\<And>j. job_status (f j) \<noteq> RUNNING" by (simp_all add: released_def)
  from owned_jobD(2) [OF assms(1)] have "job_id job = cl_id c" by (simp add: owned_def)
  then show ?thesis unfolding js by (intro update_settles f) (simp add: owned_def)
qed

lemma stale_settles: "(cl_id c, w) \<notin> locks (db_jobs (mark_stale now c w why superseded db))"
proof (cases "owned_job c w db")
  case None
  from no_owner [OF this] None show ?thesis by (simp add: mark_stale_def)
next
  case (Some job)
  from owned_jobD(2) [OF this] have "job_id job = cl_id c" by (simp add: owned_def)
  with Some show ?thesis
    by (cases superseded) (simp add: mark_stale_def Let_def, rule update_settles, simp add: owned_def, simp)+
qed

lemma cancel_settles: "(cl_id c, w) \<notin> locks (db_jobs (cancel_revoked now c w db))"
proof (cases "owned_job c w db")
  case None
  from no_owner [OF this] None show ?thesis by (simp add: cancel_revoked_def)
next
  case (Some job)
  then show ?thesis by (simp add: cancel_revoked_def Let_def) (rule update_settles, assumption, simp)
qed

lemma fail_settles: "(cl_id c, w) \<notin> locks (db_jobs (snd (fail S now rnd c w why msg retryable db)))"
proof (cases "owned_job c w db")
  case None
  from no_owner [OF this] None show ?thesis by (simp add: fail_def)
next
  case (Some job)
  then show ?thesis
    by (cases "should_retry S c retryable")
      (simp add: fail_def Let_def, rule update_settles, assumption, simp)+
qed

lemma yields_store_call:
  assumes "\<And>now rnd db x db'. f now rnd db = Inr (x, db') \<Longrightarrow> Q db'"
  shows "yields (\<lambda>_ w. Q (sys_db (wd_sys w))) (store_call io f)"
  unfolding yields_def store_call_def Let_def
  by (auto split: if_splits sum.splits prod.splits dest: assms)

named_theorems settling

lemma settling_updates [settling]:
  "yields (\<lambda>_. settled W c) (stale_update W io c why superseded)"
  "yields (\<lambda>_. settled W c) (cancel_update W io c)"
  "yields (\<lambda>_. settled W c) (fail_update W io c why msg retryable)"
  "yields (\<lambda>_. settled W c) (activate_call W io c sha)"
  unfolding stale_update_def cancel_update_def fail_update_def activate_call_def store_update_def settled_def
  by (rule yields_store_call, auto simp: stale_settles cancel_settles fail_settles
      dest!: activate_released released_settles snd_eqD)+

text \<open>A settled job stays settled across every tracked action.\<close>

lemma settled_tracked: "tracked A W c m \<Longrightarrow> m w = (r, w') \<Longrightarrow> settled W c w \<Longrightarrow> settled W c w'"
  by (drule (1) run.acrossD) (auto simp: runs_def settled_def)

lemma settling_then: "yields (\<lambda>_. settled W c) m \<Longrightarrow> (\<And>x. tracked A W c (f x)) \<Longrightarrow> yields (\<lambda>_. settled W c) (seq m f)"
  unfolding yields_def
proof (intro allI impI)
  fix w x w'
  assume m: "\<forall>w x w'. m w = (Inr x, w') \<longrightarrow> settled W c w'" and f: "\<And>x. tracked A W c (f x)"
    and run: "seq m f w = (Inr x, w')"
  from run obtain y v where "m w = (Inr y, v)" "f y v = (Inr x, w')"
    by (auto simp: seq_def split: prod.splits sum.splits)
  with m settled_tracked [OF f] show "settled W c w'" by blast
qed

lemma settling_ensure:
  "yields (\<lambda>_. settled W c) m \<Longrightarrow> tracked A W c k \<Longrightarrow> yields (\<lambda>_. settled W c) (ensure m k)"
  by (rule yields_ensure, assumption) (rule settled_tracked)

lemma settling_option:
  "yields Q m \<Longrightarrow> (\<And>x. yields Q (f x)) \<Longrightarrow> yields Q (case v of None \<Rightarrow> m | Some x \<Rightarrow> f x)"
  by (cases v) simp_all

lemma settling_prod: "(\<And>x y. yields Q (f x y)) \<Longrightarrow> yields Q (case v of (x, y) \<Rightarrow> f x y)"
  by (cases v) simp

lemma settling_ends:
  assumes "worker_ok A W io"
  shows "yields (\<lambda>_. settled W c) (seq (stale_update W io c why superseded) (\<lambda>_. ret x))"
    and "yields (\<lambda>_. settled W c) (seq (cancel_update W io c) (\<lambda>_. ret x))"
    and "yields (\<lambda>_. settled W c) (seq (fail_update W io c why msg retryable) (\<lambda>_. ret y))"
    and "yields (\<lambda>_. settled W c) (seq (activate_call W io c sha) (\<lambda>previous.
      if 0 < previous then seq (cleanup_superseded W io ctx previous) (\<lambda>_. ret x) else ret x))"
  by (rule settling_then [where A = A]; intro settling tracked assms)+

lemma settling_validate:
  assumes "worker_ok A W io"
  shows "yields (\<lambda>_. settled W c) (validate_and_activate W io c ctx sha n)"
  unfolding validate_and_activate_def Let_def
  by (rule settling_ends [OF assms] | rule yields_if yields_throw settling_option yields_seq)+

lemma settling_build:
  assumes "worker_ok A W io"
  shows "yields (\<lambda>_. settled W c) (build_index W io c ctx token sha)"
proof -
  have "yields (\<lambda>_. settled W c) (seq (validate_and_activate W io c ctx sha n) (\<lambda>_. ret ()))" for n
    by (rule settling_then [OF settling_validate [OF assms]]) (rule tracked)
  note final = this
  show ?thesis
    unfolding build_index_def Let_def by (rule final | rule settling_prod yields_seq)+
qed

lemma settling_process:
  assumes "worker_ok A W io"
  shows "yields (\<lambda>_. settled W c) (process_authorized W io c ctx)"
  unfolding process_authorized_def
proof (rule yields_seq, rule settling_ensure)
  fix token
  show "yields (\<lambda>_. settled W c) (seq (clone_checkout W io ctx token) (\<lambda>commit_sha.
        if ctx_active_commit_sha ctx = Some commit_sha \<and> ctx_indexed_branch ctx = Some (ctx_default_branch ctx)
           \<and> ctx_requested_mode ctx = INCREMENTAL
        then seq (drop_checkout io) (\<lambda>_. stale_update W io c ''target_already_active'' False)
        else build_index W io c ctx token commit_sha))"
    by (rule settling settling_build [OF assms] | rule yields_if yields_seq)+
qed (intro tracked)

lemma settling_on_error:
  assumes "worker_ok A W io"
  shows "yields (\<lambda>_. settled W c) (on_error W io c e)"
  unfolding on_error_def
  by (cases e) (simp; rule yields_seq; rule settling_ends [OF assms])+

lemma settling_run:
  assumes "worker_ok A W io"
  shows "yields (\<lambda>_. settled W c) (handle (attempt_job W io c) (on_error W io c))"
  unfolding attempt_job_def
  by (rule settling settling_process [OF assms] settling_on_error [OF assms]
      | rule yields_handle settling_option yields_if yields_seq)+


text \<open>An action that raises nothing; while the store answers, the error handler is one.\<close>

definition calm :: "('w, 'a) act \<Rightarrow> bool" where
  "calm m \<longleftrightarrow> (\<forall>w. \<exists>x w'. m w = (Inr x, w'))"

definition answering :: "surroundings \<Rightarrow> bool" where
  "answering io \<longleftrightarrow> (\<forall>n. tn_connection (io_turn io n) = Up)"

lemma calm_ret: "calm (ret x)" "calm (inspect g)" "calm (change h)"
  by (simp_all add: calm_def ret_def inspect_def change_def)

lemma calm_seq: "calm m \<Longrightarrow> (\<And>x. calm (f x)) \<Longrightarrow> calm (seq m f)"
  unfolding calm_def seq_def by (metis (no_types, lifting) old.prod.case old.sum.simps(6))

lemma calm_handle: "(\<And>e. calm (h e)) \<Longrightarrow> calm (handle m h)"
  unfolding calm_def handle_def by (auto split: prod.splits sum.splits)

lemma calm_store:
  assumes "answering io"
  shows "calm (store_update io g)" and "calm (store_query io q)" and "calm (fail_update W io c why msg retryable)"
  using assms
  by (auto simp: calm_def store_update_def store_query_def fail_update_def store_call_def answering_def Let_def
      split: prod.split)

lemma calm_cleanup: "answering io \<Longrightarrow> calm (cleanup_inactive W io ctx)"
  unfolding cleanup_inactive_def Let_def
  by (intro calm_seq calm_store calm_handle calm_ret; simp add: calm_ret calm_seq calm_store calm_handle)

lemma calm_on_error: "answering io \<Longrightarrow> calm (on_error W io c e)"
  unfolding on_error_def cleanup_prepared_def
  by (intro calm_seq calm_ret; cases e)
    (auto intro: calm_cleanup calm_store calm_ret split: prod.splits option.splits)

lemma run_claimed_settles:
  assumes "worker_ok A W io" and "answering io" and "run_claimed W io c w = (r, w')"
  shows "settled W c w' \<and> r = (case io_heartbeat io of None \<Rightarrow> Inr () | Some e \<Rightarrow> Inl e)"
proof -
  let ?m = "handle (attempt_job W io c) (on_error W io c)"
  let ?w = "w\<lparr>wd_context := None, wd_prepared := False, wd_checkout := None\<rparr>"
  from assms(3) have "ensure ?m (await_heartbeat io) ?w = (r, w')"
    by (simp add: run_claimed_def seq_def change_def)
  then obtain r1 v r2 where m: "?m ?w = (r1, v)" and heart: "await_heartbeat io v = (r2, w')"
    and r: "r = (case r2 of Inl e \<Rightarrow> Inl e | Inr _ \<Rightarrow> r1)" by (rule ensure_parts)
  have "calm ?m" by (rule calm_handle) (rule calm_on_error [OF assms(2)])
  with m have r1: "r1 = Inr ()" unfolding calm_def by (metis old.unit.exhaust prod.inject)
  then have "settled W c v" using yieldsD [OF settling_run [OF assms(1)]] m by blast
  with heart r r1 show ?thesis
    by (auto simp: await_heartbeat_def ret_def throw_def split: option.splits)
qed

lemma claim_call_locks:
  assumes "worker_ok A W io" and "answering io" and "claim_call W io job w = (v, w1)"
    and "(i, wk_id W) \<in> locks (db_jobs (sys_db (wd_sys w1)))"
  shows "(i, wk_id W) \<in> locks (db_jobs (sys_db (wd_sys w))) \<or> i = job \<and> (\<exists>c. v = Inr (Some c) \<and> cl_id c = job)"
proof -
  let ?t = "io_turn io (wd_calls w)" and ?s = "wd_sys (peers_act io w)"
  have before: "(i, wk_id W) \<in> locks (db_jobs (sys_db ?s)) \<Longrightarrow> (i, wk_id W) \<in> locks (db_jobs (sys_db (wd_sys w)))"
    using assms(1) kepts_locks by (simp add: peers_ok_def peers_act_def) blast
  have up: "tn_connection ?t = Up" using assms(2) by (simp add: answering_def)
  obtain u db' where claim: "claim (tn_now ?t) job (wk_id W) (sys_db ?s) = (u, db')" by fastforce
  show ?thesis
  proof (cases u)
    case None
    with claim have "db' = sys_db ?s" using claim_none by blast
    with assms(3,4) up claim None before show ?thesis by (auto simp: claim_call_def Let_def)
  next
    case (Some c)
    with claim have c: "claim (tn_now ?t) job (wk_id W) (sys_db ?s) = (Some c, db')" by simp
    from c have "cl_id c = job" by (rule claim_rowD) simp
    moreover have "v = Inr (Some c)" "wd_sys w1 = ?s\<lparr>sys_db := db', sys_claims := (sys_claims ?s)(wk_id W := Some c)\<rparr>"
      using assms(3) up c by (auto simp: claim_call_def Let_def)
    ultimately show ?thesis using claim_locks [OF c] assms(4) before by auto
  qed
qed

lemma acknowledge_up:
  "io_queue_up io \<Longrightarrow> acknowledge io job w = (r, w') \<Longrightarrow> r = Inr () \<and> last (wd_log w') = Acknowledged job"
  by (auto simp: acknowledge_def log_event_def)

text \<open>
  C4: While the database and Redis answer, every delivery is settled, whatever fails elsewhere: when
  \<open>process_delivery\<close> ends, the worker holds no lock it did not hold before, so the job it claimed is
  complete, cancelled, waiting for a retry or failed, or was taken over by another worker; and the
  delivery is acknowledged last. No exception leaves it, except what ended the heartbeat task.
\<close>

theorem delivery_settled:
  assumes "worker_ok A W io" and "answering io" and "io_queue_up io"
    and run: "process_delivery W io job w = (r, w')"
  shows "(\<forall>i. (i, wk_id W) \<in> locks (db_jobs (sys_db (wd_sys w'))) \<longrightarrow> (i, wk_id W) \<in> locks (db_jobs (sys_db (wd_sys w))))
    \<and> last (wd_log w') = Acknowledged job
    \<and> (r = Inr () \<or> (\<exists>e. io_heartbeat io = Some e \<and> r = Inl e))"
proof -
  obtain v w1 where call: "claim_call W io job w = (v, w1)" by fastforce
  have "\<exists>u. v = Inr u" using call assms(2)
    by (auto simp: claim_call_def answering_def Let_def split: option.splits prod.splits)
  then obtain u where v: "v = Inr u" by blast
  note gained = claim_call_locks [OF assms(1,2) call]
  show ?thesis
  proof (cases u)
    case None
    with run call v have "acknowledge io job w1 = (r, w')" by (simp add: process_delivery_def seq_def)
    with gained v None acknowledge_up [OF assms(3)] acknowledge_sys show ?thesis by (metis option.distinct(1) sum.inject(2))
  next
    case (Some c)
    with run call v have "ensure (ensure (run_claimed W io c) (give_up W)) (acknowledge io job) w1 = (r, w')"
      by (simp add: process_delivery_def seq_def)
    then obtain r1 w2 r2 where inner: "ensure (run_claimed W io c) (give_up W) w1 = (r1, w2)"
      and ack: "acknowledge io job w2 = (r2, w')" and r: "r = (case r2 of Inl e \<Rightarrow> Inl e | Inr _ \<Rightarrow> r1)"
      by (rule ensure_parts)
    from inner obtain r3 w3 r4 where claimed: "run_claimed W io c w1 = (r3, w3)" and drop: "give_up W w3 = (r4, w2)"
      and r1: "r1 = (case r4 of Inl e \<Rightarrow> Inl e | Inr _ \<Rightarrow> r3)" by (rule ensure_parts)
    note fin = run_claimed_settles [OF assms(1,2) claimed]
    have kept: "(i, wk_id W) \<in> locks (db_jobs (sys_db (wd_sys w1)))"
      if "(i, wk_id W) \<in> locks (db_jobs (sys_db (wd_sys w3)))" for i
      using run.acrossD [OF tracked_run [OF assms(1)] claimed] that by (simp add: runs_def)
    have same: "sys_db (wd_sys w') = sys_db (wd_sys w3)"
      using drop acknowledge_sys [OF ack] by (auto simp: give_up_def change_def)
    have "(i, wk_id W) \<in> locks (db_jobs (sys_db (wd_sys w)))" if "(i, wk_id W) \<in> locks (db_jobs (sys_db (wd_sys w')))" for i
      using gained [OF kept] that fin v Some unfolding same settled_def by auto
    moreover have "r = (case io_heartbeat io of None \<Rightarrow> Inr () | Some e \<Rightarrow> Inl e)"
      using r r1 drop fin acknowledge_up [OF assms(3) ack] by (auto simp: give_up_def change_def)
    ultimately show ?thesis using acknowledge_up [OF assms(3) ack] by (auto split: option.splits)
  qed
qed

end
