(* ===== verification/DeliveryRun.thy ===== *)
theory DeliveryRun
  imports WorkerRuns SampleRun
begin

text \<open>
  A concrete delivery: the imported repository of \<^theory_text>\<open>SampleRun\<close>, whose metadata GitHub does not
  deliver, while the reconciler keeps re-enqueuing the job.
\<close>

definition delivery_worker :: worker_settings where
  "delivery_worker =
     \<lparr>wk_id = ''w'', wk_digests = run_digests, wk_collate = run_collate, wk_store = run_store,
      wk_vectors = sample_vectors, wk_embedding = sample_embedding,
      wk_discovery = \<lparr>dl_max_file_bytes = 100, dl_max_file_count = 10, dl_max_total_bytes = 1000\<rparr>,
      wk_max_changed_files = 10, wk_max_changed_bytes = 100, wk_git = py ''git'', wk_clone_max_bytes = 1000\<rparr>"

definition delivery_turn :: turn where
  "delivery_turn = \<lparr>tn_peers = (\<lambda>s. s\<lparr>sys_db := mark_enqueued 4 100 (sys_db s)\<rparr>), tn_now = 5, tn_random = 0,
     tn_connection = Up\<rparr>"

definition delivery_io :: surroundings where
  "delivery_io =
     \<lparr>io_turn = (\<lambda>_. delivery_turn), io_public = PL_Error, io_token = None,
      io_clone = \<lparr>ca_workspace = True, ca_askpass = True, ca_started = True, ca_exit = Some 0, ca_inside = True,
        ca_size = Some 1, ca_revision = Exited 0 [], ca_removal = Removed\<rparr>,
      io_checkout = py ''/w'', io_removal = (\<lambda>_. Removed), io_comparison = None, io_root = [], io_root_is_dir = True,
      io_tree = Some [], io_ticks = [], io_reusable = [], io_embedding = (\<lambda>_ _. No_Connection),
      io_collection_exists = (\<lambda>_. Returned True), io_create = (\<lambda>_. No_Answer),
      io_collection = (\<lambda>_. Returned \<lparr>ci_vectors = Some (1, True), ci_metadata = map_of (expected_metadata sample_vectors),
        ci_payload_schema = map_of payload_schema\<rparr>),
      io_index = (\<lambda>_ _. No_Answer), io_delete = (\<lambda>_ _. No_Answer), io_upsert = (\<lambda>_ _. No_Answer),
      io_count = (\<lambda>_. No_Answer), io_pages = [], io_queue_up = True, io_heartbeat = None\<rparr>"

definition delivery_world :: world where
  "delivery_world = \<lparr>wd_sys = run_state run_imported False, wd_calls = 0, wd_context = None, wd_prepared = False,
     wd_checkout = None, wd_log = []\<rparr>"

lemma delivery_selects:
  "wk_id delivery_worker = ''w''" "wk_store delivery_worker = run_store" "wk_digests delivery_worker = run_digests"
  "wk_collate delivery_worker = run_collate" "io_queue_up delivery_io" "io_heartbeat delivery_io = None"
  "io_turn delivery_io n = delivery_turn" "wd_sys delivery_world = run_state run_imported False"
  by (simp_all add: delivery_worker_def delivery_io_def delivery_world_def)

lemma delivery_ok: "worker_ok run_access delivery_worker delivery_io"
proof -
  have "kept_step S D col A W s (s\<lparr>sys_db := mark_enqueued 4 100 (sys_db s)\<rparr>)" for S D col A W s
    using step_outside [OF out_enqueue] by (simp add: kept_step_def)
  then show ?thesis by (simp add: peers_ok_def delivery_selects delivery_turn_def r_into_rtranclp)
qed

lemma delivery_answered: "answering delivery_io"
  by (simp add: answering_def delivery_selects delivery_turn_def)

lemma delivery_idle: "sys_claims (wd_sys delivery_world) (wk_id delivery_worker) = None"
  by (simp add: delivery_selects run_state_def)

definition delivery_round :: worker_round_data where
  "delivery_round = \<lparr>rd_reclaimed = Some [], rd_received = Some (Some (delivery_io, 100)), rd_reconcile = None\<rparr>"

lemma delivery_rounds: "rounds_ok run_access delivery_worker [delivery_round]"
  using delivery_ok by (simp add: rounds_ok_def delivery_round_def)

theorem worker_refines_system_witness:
  "sys_steps run_store run_digests run_collate run_access (run_state run_imported False)
     (wd_sys (snd (run_worker delivery_worker delivery_io True True (\<lambda>_. True) [delivery_round] delivery_world)))"
  using worker_refines_system [OF delivery_ok delivery_rounds delivery_idle prod.collapse [symmetric]]
  by (simp only: delivery_selects)

theorem delivery_settled_witness:
  "(100, ''w'') \<notin> locks (db_jobs (sys_db (wd_sys (snd (process_delivery delivery_worker delivery_io 100 delivery_world)))))
   \<and> fst (process_delivery delivery_worker delivery_io 100 delivery_world) = Inr ()"
proof -
  have "(100, ''w'') \<notin> locks (db_jobs (sys_db (wd_sys delivery_world)))"
    by (simp add: delivery_selects run_state_def run_imported_def run_job_def queued_job_def locks_iff)
  with delivery_settled [OF delivery_ok delivery_answered delivery_selects(5) prod.collapse [symmetric],
      of 100 delivery_world, unfolded delivery_selects]
  show ?thesis unfolding delivery_selects by blast
qed

end
