(* ===== verification/LateWorker.thy ===== *)
theory LateWorker
  imports DeliveryRun
begin

text \<open>
  Two behaviours of the worker that the code does not intend: the cleanup of a worker that has lost
  its job is not fenced, and an error of the heartbeat task stops the worker after its job is done.
\<close>

section \<open>The unfenced cleanup\<close>

lemma failed_cleanup_jobs: "db_jobs (record_failed_build_cleanup now repo ver cleaned db) = db_jobs db"
  by (simp add: record_failed_build_cleanup_def Let_def split: option.split)

lemma failed_cleanup_builds:
  "\<exists>f. (\<forall>b. bld_state (f b) = B_FAILED)
    \<and> db_builds (record_failed_build_cleanup now repo ver cleaned db)
      = update_where (\<lambda>b. build_at repo ver b \<and> bld_state b \<noteq> ACTIVE) f (db_builds db)"
proof (cases "select_first (\<lambda>b. build_at repo ver b \<and> bld_state b \<noteq> ACTIVE) (db_builds db)")
  case None
  then have "update_where (\<lambda>b. build_at repo ver b \<and> bld_state b \<noteq> ACTIVE) (\<lambda>b. b\<lparr>bld_state := B_FAILED\<rparr>) (db_builds db) = db_builds db"
    by (intro update_where_none) (auto simp: select_first_None)
  with None show ?thesis
    by (intro exI [of _ "\<lambda>b. b\<lparr>bld_state := B_FAILED\<rparr>"]) (simp add: record_failed_build_cleanup_def)
next
  case (Some b)
  show ?thesis
    by (rule exI [of _ "\<lambda>b. b\<lparr>bld_state := B_FAILED, bld_cleanup_status := (if cleaned then CLEANED else PENDING),
        bld_cleanup_completed_at := (if cleaned then Some now else None)\<rparr>"])
      (simp add: record_failed_build_cleanup_def Some Let_def)
qed

lemma failed_cleanup_none_building:
  assumes "cl_repository_id c = repo"
  shows "select_first (building_of c ver) (db_builds (record_failed_build_cleanup now repo ver cleaned db)) = None"
proof -
  obtain f where f: "\<And>b. bld_state (f b) = B_FAILED"
    and eq: "db_builds (record_failed_build_cleanup now repo ver cleaned db)
      = update_where (\<lambda>b. build_at repo ver b \<and> bld_state b \<noteq> ACTIVE) f (db_builds db)"
    using failed_cleanup_builds by blast
  show ?thesis
    unfolding eq select_first_None set_update_where
    using f assms by (fastforce simp: building_of_def split: if_splits)
qed

lemma still_call:
  assumes "answering io" and "\<And>n s. tn_peers (io_turn io n) s = s"
  shows "store_update io g w = (Inr (), w\<lparr>wd_sys := (wd_sys w)\<lparr>sys_db := g (tn_now (io_turn io (wd_calls w))) (sys_db (wd_sys w))\<rparr>,
      wd_calls := wd_calls w + 1\<rparr>)"
    and "store_query io q w = (Inr (q (sys_db (wd_sys w))), w\<lparr>wd_calls := wd_calls w + 1\<rparr>)"
  using assms by (simp_all add: store_update_def store_query_def store_call_def peers_act_def answering_def Let_def)

lemma late_cleanup:
  assumes still: "answering io" "\<And>n s. tn_peers (io_turn io n) s = s"
    and "scope_of ctx (ctx_index_version ctx) = Inr scope"
    and "delete_scope (wk_vectors W) (io_delete io (length (wd_log w))) = Inr ()"
    and "can_cleanup_inactive (ctx_repository_id ctx) (ctx_index_version ctx) (sys_db (wd_sys w))"
  obtains now v where "cleanup_inactive W io ctx w = (Inr True, v)" and "wd_log v = wd_log w @ [Scope_Deleted scope]"
    and "sys_db (wd_sys v) = record_failed_build_cleanup now (ctx_repository_id ctx) (ctx_index_version ctx) True (sys_db (wd_sys w))"
  using that assms(3-)
  by (simp add: cleanup_inactive_def seq_def handle_def still_call [OF still] lift_def ret_def delete_points_def
      peers_act_def log_event_def still Let_def)

lemma fail_lost:
  assumes still: "answering io" "\<And>n s. tn_peers (io_turn io n) s = s" and "settled W c w"
  obtains x v where "fail_update W io c why msg retryable w = (Inr x, v)" and "sys_db (wd_sys v) = sys_db (wd_sys w)"
    and "wd_log v = wd_log w"
proof -
  have "owned_job c (wk_id W) (sys_db (wd_sys w)) = None"
    using assms(3) by (auto simp: settled_def locks_owned owned_job_def select_first_None)
  then show thesis
    using that still
    by (simp add: fail_update_def store_call_def peers_act_def answering_def fail_def Let_def)
qed

text \<open>
  C25: A worker that lost its job to another worker and then fails deletes the index the other worker is
  building for the job: its error handler removes the vectors and the symbols of the version, marks
  the build failed, and does not notice that the lock is gone. The other worker still holds the job,
  but its next checks end with an error that is not retried, so the job fails for good.
\<close>

theorem late_cleanup_destroys_build:
  assumes "answering io" and "\<And>n s. tn_peers (io_turn io n) s = s"
    and lost: "settled W c w" and "wd_context w = Some ctx" and "wd_prepared w"
    and "scope_of ctx (ctx_index_version ctx) = Inr scope"
    and "delete_scope (wk_vectors W) (io_delete io (length (wd_log w))) = Inr ()"
    and "can_cleanup_inactive (ctx_repository_id ctx) (ctx_index_version ctx) (sys_db (wd_sys w))"
    and other: "owned_job c' w' (sys_db (wd_sys w)) = Some j" "job_target_index_version j = Some (ctx_index_version ctx)"
      "cl_repository_id c' = ctx_repository_id ctx"
    and run: "on_error W io c e w = (r, v)"
  shows "Scope_Deleted scope \<in> set (wd_log v) \<and> owned_job c' w' (sys_db (wd_sys v)) = Some j
    \<and> validate_graph D col c' w' (sys_db (wd_sys v)) = Inl graph_validation_error
    \<and> (\<exists>msg. mark_build_ready c' w' (sys_db (wd_sys v)) = Inl (IndexingError ''vector_count_mismatch'' msg False))"
proof -
  obtain now u where clean: "cleanup_inactive W io ctx w = (Inr True, u)"
    and log: "wd_log u = wd_log w @ [Scope_Deleted scope]"
    and db: "sys_db (wd_sys u) = record_failed_build_cleanup now (ctx_repository_id ctx) (ctx_index_version ctx) True (sys_db (wd_sys w))"
    by (rule late_cleanup [OF assms(1,2,6-8)])
  have "settled W c u" using lost by (simp add: settled_def db failed_cleanup_jobs)
  note failing = fail_lost [OF assms(1,2) this]
  have "cleanup_prepared W io w = (Inr True, u)"
    using assms(4,5) clean by (simp add: cleanup_prepared_def seq_def inspect_def)
  then have "\<exists>why msg again. on_error W io c e w = seq (fail_update W io c why msg again) (\<lambda>_. ret ()) u"
    by (cases e) (auto simp: on_error_def seq_def)
  with run obtain why msg again where "seq (fail_update W io c why msg again) (\<lambda>_. ret ()) u = (r, v)"
    by auto
  moreover obtain x v0 where "fail_update W io c why msg again u = (Inr x, v0)" "sys_db (wd_sys v0) = sys_db (wd_sys u)"
    "wd_log v0 = wd_log u" by (rule failing)
  ultimately have "sys_db (wd_sys v) = sys_db (wd_sys u) \<and> wd_log v = wd_log u"
    by (auto simp: seq_def ret_def)
  moreover have "owned_job c' w' (sys_db (wd_sys u)) = Some j"
    using other(1) by (simp add: owned_job_def db failed_cleanup_jobs)
  moreover have none: "select_first (building_of c' (ctx_index_version ctx)) (db_builds (sys_db (wd_sys u))) = None"
    unfolding db by (rule failed_cleanup_none_building [OF other(3)])
  moreover have "select_first (\<lambda>b. building_of c' (ctx_index_version ctx) b \<and> build_complete b) (db_builds (sys_db (wd_sys u))) = None"
    using none unfolding select_first_None by blast
  ultimately show ?thesis
    using other(2) log by (simp add: validate_graph_def mark_build_ready_def Let_def)
qed

text \<open>Worker x has claimed the job of \<^theory_text>\<open>SampleRun\<close> again and prepared its build when worker w fails late.\<close>

definition late_db :: db where
  "late_db = run_prepared\<lparr>db_jobs := [run_prepared_job\<lparr>job_locked_by := Some ''x'', job_attempt := 2\<rparr>]\<rparr>"

definition late_context :: job_context where
  "late_context = context_of run_claim 1 run_prepared_job run_prepared_row None"

definition late_io :: surroundings where
  "late_io = delivery_io\<lparr>io_turn := (\<lambda>_. delivery_turn\<lparr>tn_peers := (\<lambda>s. s)\<rparr>), io_delete := (\<lambda>_ _. Returned ())\<rparr>"

definition late_world :: world where
  "late_world = delivery_world\<lparr>wd_sys := run_state late_db True, wd_context := Some late_context, wd_prepared := True\<rparr>"

lemma late_scope: "\<exists>scope. scope_of late_context (ctx_index_version late_context) = Inr scope"
  by (simp add: scope_of_def late_context_def context_of_def make_scope_def run_defs2 run_defs)

lemma late_selects:
  "wd_sys late_world = run_state late_db True" "wd_context late_world = Some late_context" "wd_prepared late_world"
  "ctx_index_version late_context = 1" "ctx_repository_id late_context = 7" "wk_vectors delivery_worker = sample_vectors"
  "sys_db (run_state db busy) = db"
  by (simp_all add: late_world_def late_context_def context_of_def delivery_worker_def run_state_def run_defs2 run_defs)

lemma late_owned:
  "owned_job (run_claim\<lparr>cl_attempt := 2\<rparr>) ''x'' late_db = Some (run_prepared_job\<lparr>job_locked_by := Some ''x'', job_attempt := 2\<rparr>)"
  by (simp add: owned_job_def owned_def late_db_def run_defs2 run_defs select_first_def)

theorem late_cleanup_destroys_build_witness:
  "validate_graph run_digests run_collate (run_claim\<lparr>cl_attempt := 2\<rparr>) ''x''
     (sys_db (wd_sys (snd (on_error delivery_worker late_io run_claim activation_race late_world))))
   = Inl graph_validation_error"
proof -
  obtain scope where scope: "scope_of late_context (ctx_index_version late_context) = Inr scope"
    using late_scope by blast
  have io: "answering late_io" "\<And>n s. tn_peers (io_turn late_io n) s = s" "\<And>n. io_delete late_io n = (\<lambda>_. Returned ())"
    by (simp_all add: late_io_def answering_def delivery_turn_def)
  have lost: "settled delivery_worker run_claim late_world"
    by (simp add: settled_def late_selects late_db_def locks_iff delivery_selects)
  have deleted: "delete_scope (wk_vectors delivery_worker) (io_delete late_io n) = Inr ()" for n
    by (simp add: delete_scope_def io late_selects sample_service)
  have eligible: "can_cleanup_inactive (ctx_repository_id late_context) (ctx_index_version late_context) (sys_db (wd_sys late_world))"
    by (simp add: late_selects can_cleanup_inactive_def repository_by_id_def select_first_def late_db_def run_defs2 run_defs)
  have "job_target_index_version (run_prepared_job\<lparr>job_locked_by := Some ''x'', job_attempt := 2\<rparr>) = Some (ctx_index_version late_context)"
    "cl_repository_id (run_claim\<lparr>cl_attempt := 2\<rparr>) = ctx_repository_id late_context"
    by (simp_all add: late_selects run_prepared_job_def run_claim_def)
  from late_cleanup_destroys_build [OF io(1,2) lost late_selects(2,3) scope deleted eligible _ this prod.collapse [symmetric]]
  show ?thesis using late_owned by (simp add: late_selects)
qed

section \<open>A failed heartbeat\<close>

text \<open>
  C26: One heartbeat that meets a database error stops the worker process: the heartbeat task ends with
  the exception, the run goes on without heartbeats, and when it is over, with its job settled and
  the delivery acknowledged, awaiting the task raises the exception out of \<open>process_delivery\<close> and the
  loop. No later round is run.
\<close>

theorem heartbeat_failure_stops_worker:
  assumes "worker_ok A W io" and "answering io" and "io_queue_up io" and "io_heartbeat io = Some store_unavailable"
    and claimed: "claim_call W io job w = (Inr (Some c), w1)"
    and rd: "rd_reclaimed rd = Some []" "rd_received rd = Some (Some (io, job))"
  shows "\<exists>w'. worker_loop W (rd # rds) w = (Inl store_unavailable, w') \<and> settled W c w' \<and> last (wd_log w') = Acknowledged job"
proof -
  obtain r3 w3 where run: "run_claimed W io c w1 = (r3, w3)" by fastforce
  note fin = run_claimed_settles [OF assms(1,2) run]
  obtain w2 where drop: "give_up W w3 = (Inr (), w2)" and w2: "sys_db (wd_sys w2) = sys_db (wd_sys w3)"
    by (simp add: give_up_def change_def)
  obtain w' where ack: "acknowledge io job w2 = (Inr (), w')" "last (wd_log w') = Acknowledged job"
    using assms(3) by (simp add: acknowledge_def log_event_def)
  have "ensure (run_claimed W io c) (give_up W) w1 = (Inl store_unavailable, w2)"
    using run fin drop assms(4) by (simp add: ensure_def)
  with ack(1) claimed have "process_delivery W io job w = (Inl store_unavailable, w')"
    by (simp add: process_delivery_def seq_def ensure_def)
  then have "worker_round W rd w = (Inl store_unavailable, w')"
    by (simp add: worker_round_def rd handle_def seq_def ret_def throw_def store_unavailable_def queue_unavailable_def)
  moreover have "settled W c w'"
    using fin w2 acknowledge_sys [OF ack(1)] by (simp add: settled_def)
  ultimately show ?thesis using ack(2) by (simp add: seq_def)
qed

definition heartbeat_io :: surroundings where
  "heartbeat_io = delivery_io\<lparr>io_turn := (\<lambda>_. delivery_turn\<lparr>tn_peers := (\<lambda>s. s), tn_now := 2\<rparr>), io_heartbeat := Some store_unavailable\<rparr>"

theorem heartbeat_failure_stops_worker_witness:
  "fst (worker_loop delivery_worker [delivery_round\<lparr>rd_received := Some (Some (heartbeat_io, 100))\<rparr>, delivery_round]
     delivery_world) = Inl store_unavailable"
proof -
  have ok: "worker_ok run_access delivery_worker heartbeat_io" "answering heartbeat_io" "io_queue_up heartbeat_io"
    "io_heartbeat heartbeat_io = Some store_unavailable"
    by (simp_all add: peers_ok_def heartbeat_io_def answering_def delivery_turn_def delivery_selects)
  have "\<exists>w1. claim_call delivery_worker heartbeat_io 100 delivery_world = (Inr (Some run_claim), w1)"
    using run_claims
    by (simp add: claim_call_def peers_act_def heartbeat_io_def delivery_turn_def delivery_selects run_state_def Let_def)
  then obtain w1 where claimed: "claim_call delivery_worker heartbeat_io 100 delivery_world = (Inr (Some run_claim), w1)" ..
  from heartbeat_failure_stops_worker [OF ok claimed, of "delivery_round\<lparr>rd_received := Some (Some (heartbeat_io, 100))\<rparr>" "[delivery_round]"]
  show ?thesis by (auto simp: delivery_round_def)
qed

end
