(* ===== verification/Attempts.thy ===== *)
theory Attempts
  imports SampleRun
begin

text \<open>
  The attempts of a job are bounded: every successful claim counts one, nothing resets the count, and
  the invariant bounds it. So a job cannot be claimed, failed, recovered and claimed again for ever.
\<close>

definition attempt_key :: "indexing_job \<Rightarrow> uuid \<times> nat" where
  "attempt_key j = (job_id j, job_attempt j)"

lemma attempt_key_core: "map job_core js' = map job_core js \<Longrightarrow> map attempt_key js' = map attempt_key js"
proof -
  have "map attempt_key xs = map (\<lambda>(i, r, st, a, l). (i, a)) (map job_core xs)" for xs
    by (simp add: attempt_key_def job_core_def)
  then show "map job_core js' = map job_core js \<Longrightarrow> ?thesis" by metis
qed

lemma attempt_key_update:
  "(\<And>j. attempt_key (f j) = attempt_key j) \<Longrightarrow> map attempt_key (update_where P f js) = map attempt_key js"
  by (simp add: map_update_where)

lemma attempts_ended:
  "map attempt_key (db_jobs (mark_stale now c w why superseded db)) = map attempt_key (db_jobs db)"
  "map attempt_key (db_jobs (cancel_revoked now c w db)) = map attempt_key (db_jobs db)"
  "map attempt_key (db_jobs (snd (fail S now rnd c w why msg retryable db))) = map attempt_key (db_jobs db)"
  by (simp_all add: mark_stale_def cancel_revoked_def fail_def Let_def attempt_key_update attempt_key_def split: option.split)

lemma attempts_activate:
  "activate now c w sha db = Inr (previous, db') \<Longrightarrow> map attempt_key (db_jobs db') = map attempt_key (db_jobs db)"
  by (erule activate_rowD) (simp add: attempt_key_update attempt_key_def)

lemma worker_attempts:
  assumes "worker_op S D col w c db db'"
  shows "map attempt_key (db_jobs db') = map attempt_key (db_jobs db)"
  using assms
proof (cases rule: worker_op.cases)
  case (wop_context now ctx)
  show ?thesis unfolding snd_eqD [OF wop_context] by (rule attempt_key_core) (simp add: core_frames)
next
  case (wop_prepare sha d p fp)
  then show ?thesis by (intro attempt_key_core) (rule core_prepare)
next
  case (wop_vectors e v r q)
  then show ?thesis by (intro attempt_key_core) (rule core_vectors)
next
  case (wop_activate now sha previous)
  then show ?thesis by (rule attempts_activate)
next
  case (wop_fail now rnd why msg retryable again)
  show ?thesis unfolding snd_eqD [OF wop_fail] by (rule attempts_ended)
next
  case (wop_stale now code superseded)
  then show ?thesis by (simp only: attempts_ended)
next
  case (wop_cancel now)
  then show ?thesis by (simp only: attempts_ended)
qed (rule attempt_key_core,
    simp add: core_frames job_core_validate job_core_ready job_core_failed_cleanup job_core_superseded_cleanup)+

lemma recover_attempts:
  "recover_abandoned S now db = (n, db') \<Longrightarrow> map attempt_key (db_jobs db') = map attempt_key (db_jobs db)"
proof -
  have "map attempt_key (db_jobs (fold (recover_job S now) js d)) = map attempt_key (db_jobs d)" for js d
    by (induction js arbitrary: d) (simp_all add: recover_job_jobs attempt_key_update attempt_key_def)
  then show "recover_abandoned S now db = (n, db') \<Longrightarrow> ?thesis" by (auto simp: recover_abandoned_def Let_def)
qed

definition attempted :: "uuid \<Rightarrow> nat \<Rightarrow> db \<Rightarrow> bool" where
  "attempted jid n db \<longleftrightarrow> (\<exists>j \<in> set (db_jobs db). job_id j = jid \<and> n \<le> job_attempt j)"

lemma attempted_keys: "attempted jid n db \<longleftrightarrow> (\<exists>m \<ge> n. (jid, m) \<in> set (map attempt_key (db_jobs db)))"
  by (auto simp: attempted_def attempt_key_def)

lemma attempted_same: "map attempt_key (db_jobs db') = map attempt_key (db_jobs db) \<Longrightarrow> attempted jid n db \<Longrightarrow> attempted jid n db'"
  by (simp only: attempted_keys)

lemma attempted_outside:
  assumes "outside_op S A db db'" and att: "attempted jid n db"
  shows "attempted jid n db'"
proof (cases "intake db db'")
  case True
  then obtain js where "map job_core (db_jobs db') = map job_core (db_jobs db @ js)" unfolding intake_def by blast
  from attempt_key_core [OF this] att show ?thesis unfolding attempted_keys by auto
next
  case False
  with outside_effect [OF assms(1)] obtain now m where "recover_abandoned S now db = (m, db')" by blast
  from attempted_same [OF recover_attempts [OF this] att] show ?thesis .
qed

lemma attempted_claim:
  assumes "claim now jid w db = (Some c, db')" and "jobs_inv S (db_jobs db)" and "attempted jid' n db"
  shows "attempted jid' n db'" and "jid' = jid \<Longrightarrow> attempted jid' (Suc n) db'"
proof -
  from assms(1) obtain k where k: "k \<in> set (db_jobs db)" "job_id k = jid" "claimable now k"
    and js: "db_jobs db' = update_where (\<lambda>x. job_id x = jid \<and> claimable now x)
      (\<lambda>j. j\<lparr>job_status := RUNNING, job_attempt := job_attempt j + 1, job_locked_by := Some w,
         job_started_at := Some now, job_heartbeat_at := Some now, job_next_attempt_at := None,
         job_error_code := None, job_safe_error_message := None\<rparr>) (db_jobs db)"
    by (elim claim_rowD) blast
  from assms(3) obtain j where j: "j \<in> set (db_jobs db)" "job_id j = jid'" "n \<le> job_attempt j"
    by (auto simp: attempted_def)
  show "attempted jid' n db'"
    unfolding attempted_def js set_update_where by (rule bexI [OF _ imageI [OF j(1)]]) (use j in simp)
  assume "jid' = jid"
  with jobs_inv_unique [OF assms(2) j(1) k(1)] j(2) k(2) have "j = k" by simp
  with k j(3) \<open>jid' = jid\<close> show "attempted jid' (Suc n) db'"
    unfolding attempted_def js set_update_where by (intro bexI [OF _ imageI [OF j(1)]]) simp
qed

text \<open>The runs with the number of successful claims of a job.\<close>

definition claims_job :: "uuid \<Rightarrow> system \<Rightarrow> system \<Rightarrow> bool" where
  "claims_job jid s t \<longleftrightarrow> (\<exists>now w c. claim now jid w (sys_db s) = (Some c, sys_db t))"

inductive claim_run ::
  "store_settings \<Rightarrow> digests \<Rightarrow> (pystr \<Rightarrow> pystr) \<Rightarrow> access_settings \<Rightarrow> uuid \<Rightarrow> system \<Rightarrow> nat \<Rightarrow> system \<Rightarrow> bool"
  for S D col A jid s where
  claim_run_refl: "claim_run S D col A jid s 0 s"
| claim_run_claim: "claim_run S D col A jid s n t \<Longrightarrow> sys_step S D col A t u \<Longrightarrow> claims_job jid t u \<Longrightarrow>
    claim_run S D col A jid s (Suc n) u"
| claim_run_other: "claim_run S D col A jid s n t \<Longrightarrow> sys_step S D col A t u \<Longrightarrow> \<not> claims_job jid t u \<Longrightarrow>
    claim_run S D col A jid s n u"


lemma claim_run_steps: "claim_run S D col A jid s n t \<Longrightarrow> sys_steps S D col A s t"
  by (induction rule: claim_run.induct) (auto intro: steps_step)

lemma attempted_step:
  assumes "sys_step S D col A s t" and inv: "sys_inv S s" and att: "attempted jid n (sys_db s)"
  shows "attempted jid n (sys_db t)"
  using assms(1)
proof (cases rule: sys_step.cases)
  case (step_claim w now jid' c db')
  have "jobs_inv S (db_jobs (sys_db s))" using inv by (simp add: sys_inv_def)
  from attempted_claim(1) [OF step_claim(3) this att] step_claim(1) show ?thesis by simp
next
  case (step_worker w c db')
  from attempted_same [OF worker_attempts [OF step_worker(3)] att] step_worker(1) show ?thesis by simp
next
  case step_drop
  with att show ?thesis by simp
next
  case (step_outside db')
  from attempted_outside [OF step_outside(2) att] step_outside(1) show ?thesis by simp
qed

lemma claim_run_attempted:
  assumes "claim_run S D col A jid s n t" and inv: "sys_inv S s" and pos: "0 < st_max_attempts S"
    and "attempted jid a (sys_db s)"
  shows "attempted jid (a + n) (sys_db t)"
  using assms(1)
proof (induction rule: claim_run.induct)
  case claim_run_refl
  show ?case using assms(4) by simp
next
  case (claim_run_claim n t u)
  have "jobs_inv S (db_jobs (sys_db t))"
    using sys_steps_inv [OF claim_run_steps [OF claim_run_claim(1)] inv pos] by (simp add: sys_inv_def)
  moreover from claim_run_claim(3) obtain now w c where "claim now jid w (sys_db t) = (Some c, sys_db u)"
    unfolding claims_job_def by blast
  ultimately show ?case using attempted_claim(2) claim_run_claim.IH by fastforce
next
  case (claim_run_other n t u)
  note inv_t = sys_steps_inv [OF claim_run_steps [OF claim_run_other(1)] inv pos]
  show ?case by (rule attempted_step [OF claim_run_other(2) inv_t claim_run_other.IH])
qed

text \<open>
  C24: A job is claimed only finitely often. In any run of the system, whatever the workers, the webhooks
  and the recovery do, the claims of a job and the attempts it had at the start never exceed the
  configured maximum: claiming, failing, recovering and claiming again cannot go on for ever.
\<close>

theorem job_claims_terminate:
  assumes "reachable S D col A s" and "0 < st_max_attempts S"
    and "j \<in> set (db_jobs (sys_db s))" and "claim_run S D col A (job_id j) s n t"
  shows "job_attempt j + n \<le> st_max_attempts S"
proof -
  note inv = reachable_inv [OF assms(1,2)]
  have "attempted (job_id j) (job_attempt j) (sys_db s)" using assms(3) by (auto simp: attempted_def)
  from claim_run_attempted [OF assms(4) inv assms(2) this]
  obtain i where "i \<in> set (db_jobs (sys_db t))" "job_attempt j + n \<le> job_attempt i"
    by (auto simp: attempted_def)
  moreover have "jobs_inv S (db_jobs (sys_db t))"
    using sys_steps_inv [OF claim_run_steps [OF assms(4)] inv assms(2)] by (simp add: sys_inv_def)
  ultimately show ?thesis by (fastforce simp: jobs_inv_def job_shape_def)
qed

lemma run_claims_once:
  "claim_run run_store run_digests run_collate run_access 100 (run_state run_imported False) 1 (run_state run_held True)"
proof -
  have "sys_step run_store run_digests run_collate run_access (run_state run_imported False) (run_state run_held True)"
    using step_claim [of "run_state run_imported False" "''w''" 2 100 run_claim run_held] run_claims
    by (simp add: run_state_def)
  moreover have "claims_job 100 (run_state run_imported False) (run_state run_held True)"
    unfolding claims_job_def run_state_def using run_claims by auto
  ultimately show ?thesis using claim_run_claim [OF claim_run_refl] by simp
qed

theorem job_claims_terminate_witness:
  "list_all (\<lambda>j. job_attempt j + 1 \<le> st_max_attempts run_store) (db_jobs run_imported) \<and> db_jobs run_imported \<noteq> []"
proof -
  have "job_id run_job = 100" by (simp add: run_defs)
  with job_claims_terminate [OF run_reach_imported run_attempts, of "run_job\<lparr>job_last_enqueued_at := Some 1\<rparr>" 1
      "run_state run_held True"] run_claims_once
  show ?thesis by (simp add: run_state_def run_imported_def)
qed

end
