(* ===== verification/Evidence.thy ===== *)
theory Evidence
  imports Vectors "HOL-Library.Sublist"
begin

text \<open>
  Questions and the evidence for them: \<^verbatim>\<open>backend/app/rag/models.py\<close>, \<^verbatim>\<open>query.py\<close> and
  \<^verbatim>\<open>evidence.py\<close>. NFC normalisation and the Unicode tables behind \<^verbatim>\<open>\w\<close> and \<^verbatim>\<open>\d\<close> are
  parameters beyond ASCII; the regular expressions are scanned as the \<^verbatim>\<open>re\<close> module reads them.
\<close>

section \<open>Values\<close>

datatype answerability =
    ANSWERED | PARTIALLY_ANSWERED | INSUFFICIENT_EVIDENCE | UNSUPPORTED_QUESTION | TEMPORARILY_UNAVAILABLE

datatype answer_uncertainty = U_LOW | U_MEDIUM | U_HIGH | U_NOT_APPLICABLE

record normalized_question =
  nq_text :: pystr
  nq_fingerprint :: string
  nq_estimated_tokens :: nat

record evidence =
  ev_evidence_id :: pystr
  ev_score :: rat
  ev_file_path :: pystr
  ev_language :: pystr
  ev_chunk_type :: pystr
  ev_symbol_name :: "pystr option"
  ev_qualified_symbol_name :: "pystr option"
  ev_start_line :: int
  ev_end_line :: int
  ev_stable_chunk_hash :: pystr
  ev_content :: pystr

record citation =
  ci_evidence_id :: pystr
  ci_file_path :: pystr
  ci_start_line :: int
  ci_end_line :: int
  ci_symbol_name :: "pystr option"
  ci_qualified_symbol_name :: "pystr option"
  ci_chunk_type :: pystr
  ci_commit_sha :: string
  ci_supporting_excerpt :: pystr

record rag_settings =
  rg_question_min_characters :: nat
  rg_question_max_bytes :: nat
  rg_question_max_tokens :: nat
  rg_prompt_version :: pystr
  rg_retrieval_top_k :: nat
  rg_max_evidence_per_file :: nat
  rg_max_evidence_bytes :: nat
  rg_max_evidence_item_bytes :: nat

record unicode_tables =
  ut_nfc :: "pystr \<Rightarrow> pystr"
  ut_word :: "nat \<Rightarrow> bool"
  ut_digit :: "nat \<Rightarrow> bool"

section \<open>Scanning\<close>

definition word_char :: "unicode_tables \<Rightarrow> nat \<Rightarrow> bool" where
  "word_char T c \<longleftrightarrow>
     (if c < 128 then 48 \<le> c \<and> c \<le> 57 \<or> 65 \<le> c \<and> c \<le> 90 \<or> 97 \<le> c \<and> c \<le> 122 \<or> c = 95 else ut_word T c)"

definition digit_char :: "unicode_tables \<Rightarrow> nat \<Rightarrow> bool" where
  "digit_char T c \<longleftrightarrow> (if c < 128 then 48 \<le> c \<and> c \<le> 57 else ut_digit T c)"

text \<open>\<open>str.split()\<close>.\<close>

function words :: "pystr \<Rightarrow> pystr list" where
  "words s =
     (let t = dropWhile is_space s in
      if t = [] then []
      else takeWhile (\<lambda>c. \<not> is_space c) t # words (dropWhile (\<lambda>c. \<not> is_space c) t))"
  by auto

termination
proof (relation "measure length", goal_cases)
  case (2 s t)
  then have "t \<noteq> []" "\<not> is_space (hd t)" using hd_dropWhile [of is_space s] by auto
  then have "length (dropWhile (\<lambda>c. \<not> is_space c) t) < length t"
    by (cases t) (auto simp: le_imp_less_Suc length_dropWhile_le)
  also have "length t \<le> length s" using 2 by (simp add: length_dropWhile_le)
  finally show ?case by simp
qed simp

declare words.simps [simp del]

text \<open>\<^verbatim>\<open>len(_TOKEN_PATTERN.findall(text))\<close>: runs of word characters, and every other visible character.\<close>

function token_count :: "unicode_tables \<Rightarrow> pystr \<Rightarrow> nat" where
  "token_count T [] = 0"
| "token_count T (c # s) =
     (if word_char T c then Suc (token_count T (dropWhile (word_char T) s))
      else if is_space c then token_count T s else Suc (token_count T s))"
  by pat_completeness auto

termination
  by (relation "measure (length \<circ> snd)") (auto simp: le_imp_less_Suc length_dropWhile_le)

section \<open>The question\<close>

datatype question_error =
    Question_Control_Character | Question_Empty | Question_Too_Short | Question_Too_Large
  | Question_Too_Many_Tokens

definition control_char :: "nat \<Rightarrow> bool" where
  "control_char c \<longleftrightarrow> c < 32 \<or> 127 \<le> c \<and> c \<le> 159"

definition prepare_question ::
  "digests \<Rightarrow> unicode_tables \<Rightarrow> rag_settings \<Rightarrow> pystr \<Rightarrow> question_error + normalized_question" where
  "prepare_question D T G raw =
     (if list_ex (\<lambda>c. control_char c \<and> \<not> is_space c) raw then Inl Question_Control_Character
      else let normalized = join [32] (words (ut_nfc T raw)) in
      if normalized = [] then Inl Question_Empty
      else if length normalized < rg_question_min_characters G then Inl Question_Too_Short
      else if rg_question_max_bytes G < utf8_len normalized then Inl Question_Too_Large
      else if rg_question_max_tokens G < token_count T normalized then Inl Question_Too_Many_Tokens
      else Inr \<lparr>nq_text = normalized,
             nq_fingerprint = sha256_hex D (rg_prompt_version G @ 10 # normalized),
             nq_estimated_tokens = token_count T normalized\<rparr>)"

text \<open>
  \<^verbatim>\<open>_UNSUPPORTED_PATTERNS\<close>, every alternative as its words: \<^verbatim>\<open>\s+\<close> stands between them and \<^verbatim>\<open>\b\<close>
  around. Ignoring case, a letter of a pattern also matches the four non-ASCII characters whose
  lower case or case closure is that letter. A letter is a word character, so \<^verbatim>\<open>\b\<close> asks that no word
  character stands next to it.
\<close>

definition unsupported_phrases :: "string list list" where
  "unsupported_phrases =
     [[''runtime''], [''current'', ''production''], [''production'', ''log''], [''production'', ''logs''],
      [''production'', ''traffic''], [''production'', ''state''], [''current'', ''database''],
      [''current'', ''network''], [''current'', ''memory''], [''current'', ''cpu''],
      [''latest''], [''today''], [''current'', ''weather''], [''current'', ''price''],
      [''external'', ''service''], [''external'', ''system''], [''internet''],
      [''unindexed'', ''tree''], [''arbitrary'', ''revision'']]"

definition letter_matches :: "nat \<Rightarrow> nat \<Rightarrow> bool" where
  "letter_matches p c \<longleftrightarrow> c = p \<or> c + 32 = p \<or> p = 107 \<and> c = 8490 \<or> p = 115 \<and> c = 383
     \<or> p = 105 \<and> (c = 304 \<or> c = 305)"

fun match_word :: "pystr \<Rightarrow> pystr \<Rightarrow> pystr option" where
  "match_word [] s = Some s"
| "match_word (p # ps) [] = None"
| "match_word (p # ps) (c # s) = (if letter_matches p c then match_word ps s else None)"

fun match_phrase :: "string list \<Rightarrow> pystr \<Rightarrow> pystr option" where
  "match_phrase [] s = Some s"
| "match_phrase [w] s = match_word (py w) s"
| "match_phrase (w # v # ws) s =
     (case match_word (py w) s of
        None \<Rightarrow> None
      | Some t \<Rightarrow> if t \<noteq> [] \<and> is_space (hd t) then match_phrase (v # ws) (dropWhile is_space t) else None)"

definition word_ahead :: "unicode_tables \<Rightarrow> pystr \<Rightarrow> bool" where
  "word_ahead T s \<longleftrightarrow> s \<noteq> [] \<and> word_char T (hd s)"

definition phrase_here :: "unicode_tables \<Rightarrow> pystr \<Rightarrow> bool" where
  "phrase_here T s \<longleftrightarrow> list_ex (\<lambda>ws. case match_phrase ws s of
       None \<Rightarrow> False | Some rest \<Rightarrow> \<not> word_ahead T rest) unsupported_phrases"

fun phrase_found :: "unicode_tables \<Rightarrow> bool \<Rightarrow> pystr \<Rightarrow> bool" where
  "phrase_found T after_word [] = False"
| "phrase_found T after_word (c # s) =
     (\<not> after_word \<and> phrase_here T (c # s) \<or> phrase_found T (word_char T c) s)"

definition is_unsupported :: "unicode_tables \<Rightarrow> normalized_question \<Rightarrow> bool" where
  "is_unsupported T q = phrase_found T False (nq_text q)"

section \<open>Selection of evidence\<close>

record selection =
  se_selected :: "retrieval_hit list"
  se_seen_hashes :: "pystr set"
  se_per_file :: "pystr \<Rightarrow> nat"
  se_total_bytes :: nat

definition overlaps_selected :: "retrieval_hit \<Rightarrow> retrieval_hit list \<Rightarrow> bool" where
  "overlaps_selected candidate selected =
     list_ex (\<lambda>item. rh_file_path candidate = rh_file_path item
       \<and> rh_start_line candidate \<le> rh_end_line item \<and> rh_start_line item \<le> rh_end_line candidate) selected"

definition passed_over :: "rag_settings \<Rightarrow> selection \<Rightarrow> retrieval_hit \<Rightarrow> bool" where
  "passed_over G s hit \<longleftrightarrow>
     (let item_bytes = utf8_len (rh_content hit) in
      rh_stable_chunk_hash hit \<in> se_seen_hashes s
      \<or> rg_max_evidence_item_bytes G < item_bytes
      \<or> rg_max_evidence_per_file G \<le> se_per_file s (rh_file_path hit)
      \<or> rg_max_evidence_bytes G < se_total_bytes s + item_bytes
      \<or> overlaps_selected hit (se_selected s))"

definition take_hit :: "retrieval_hit \<Rightarrow> selection \<Rightarrow> selection" where
  "take_hit hit s =
     \<lparr>se_selected = se_selected s @ [hit],
      se_seen_hashes = insert (rh_stable_chunk_hash hit) (se_seen_hashes s),
      se_per_file = (se_per_file s)(rh_file_path hit := se_per_file s (rh_file_path hit) + 1),
      se_total_bytes = se_total_bytes s + utf8_len (rh_content hit)\<rparr>"

fun select_loop :: "rag_settings \<Rightarrow> retrieval_hit list \<Rightarrow> selection \<Rightarrow> selection" where
  "select_loop G [] s = s"
| "select_loop G (hit # hits) s =
     (if passed_over G s hit then select_loop G hits s
      else if length (se_selected (take_hit hit s)) = rg_retrieval_top_k G then take_hit hit s
      else select_loop G hits (take_hit hit s))"

definition hit_order :: "retrieval_hit \<Rightarrow> rat \<times> pystr \<times> int \<times> int \<times> pystr" where
  "hit_order hit = (- rh_score hit, rh_file_path hit, rh_start_line hit, rh_end_line hit, rh_stable_chunk_hash hit)"

definition evidence_of :: "pystr \<Rightarrow> retrieval_hit \<Rightarrow> evidence" where
  "evidence_of eid hit =
     \<lparr>ev_evidence_id = eid, ev_score = rh_score hit, ev_file_path = rh_file_path hit,
      ev_language = rh_language hit, ev_chunk_type = rh_chunk_type hit,
      ev_symbol_name = rh_symbol_name hit, ev_qualified_symbol_name = rh_qualified_symbol_name hit,
      ev_start_line = rh_start_line hit, ev_end_line = rh_end_line hit,
      ev_stable_chunk_hash = rh_stable_chunk_hash hit, ev_content = rh_content hit\<rparr>"

definition select_hits :: "rag_settings \<Rightarrow> retrieval_hit list \<Rightarrow> retrieval_hit list" where
  "select_hits G hits = se_selected (select_loop G (sort_key hit_order hits)
     \<lparr>se_selected = [], se_seen_hashes = {}, se_per_file = (\<lambda>_. 0), se_total_bytes = 0\<rparr>)"

definition select_evidence :: "rag_settings \<Rightarrow> retrieval_hit list \<Rightarrow> evidence list" where
  "select_evidence G hits =
     map (\<lambda>(index, hit). evidence_of (69 # dec_digits index) hit) (enumerate 1 (select_hits G hits))"

section \<open>Citations\<close>

datatype draft_answerability = DRAFT_ANSWERED | DRAFT_INSUFFICIENT_EVIDENCE | DRAFT_UNSUPPORTED_QUESTION

datatype draft_uncertainty = DRAFT_LOW | DRAFT_MEDIUM | DRAFT_HIGH

record grounded_answer_draft =
  dr_answer :: pystr
  dr_answerability :: draft_answerability
  dr_uncertainty :: draft_uncertainty
  dr_evidence_ids :: "pystr list"

text \<open>\<open>dict.fromkeys\<close> keeps the first of equal items; \<^verbatim>\<open>\[(E\d+)\]\<close> is found at every bracket that opens it.\<close>

definition first_occurrences :: "'a list \<Rightarrow> 'a list" where
  "first_occurrences xs = rev (remdups (rev xs))"

fun inline_ids :: "unicode_tables \<Rightarrow> pystr \<Rightarrow> pystr list" where
  "inline_ids T [] = []"
| "inline_ids T (c # s) =
     (let digits = takeWhile (digit_char T) (tl s); rest = dropWhile (digit_char T) (tl s) in
      if c = 91 \<and> s \<noteq> [] \<and> hd s = 69 \<and> digits \<noteq> [] \<and> rest \<noteq> [] \<and> hd rest = 93
      then (69 # digits) # inline_ids T s else inline_ids T s)"

definition draft_state :: "draft_answerability \<Rightarrow> answerability" where
  "draft_state d = (case d of DRAFT_ANSWERED \<Rightarrow> ANSWERED
     | DRAFT_INSUFFICIENT_EVIDENCE \<Rightarrow> INSUFFICIENT_EVIDENCE | DRAFT_UNSUPPORTED_QUESTION \<Rightarrow> UNSUPPORTED_QUESTION)"

definition citation_of :: "string \<Rightarrow> evidence \<Rightarrow> citation" where
  "citation_of commit_sha item =
     \<lparr>ci_evidence_id = ev_evidence_id item, ci_file_path = ev_file_path item,
      ci_start_line = ev_start_line item, ci_end_line = ev_end_line item,
      ci_symbol_name = ev_symbol_name item, ci_qualified_symbol_name = ev_qualified_symbol_name item,
      ci_chunk_type = ev_chunk_type item, ci_commit_sha = commit_sha, ci_supporting_excerpt = ev_content item\<rparr>"

text \<open>A dict comprehension keeps the last of equal keys.\<close>

definition by_id :: "('a \<Rightarrow> pystr) \<Rightarrow> 'a list \<Rightarrow> pystr \<rightharpoonup> 'a" where
  "by_id key items = map_of (rev (map (\<lambda>item. (key item, item)) items))"

definition validate_citations ::
  "unicode_tables \<Rightarrow> grounded_answer_draft \<Rightarrow> evidence list \<Rightarrow> string \<Rightarrow> answerability \<times> citation list" where
  "validate_citations T draft items commit_sha =
     (let known = by_id ev_evidence_id items;
          unique_ids = first_occurrences (dr_evidence_ids draft);
          inline = inline_ids T (dr_answer draft) in
      if list_ex (\<lambda>i. known i = None) unique_ids \<or> \<not> list_all (\<lambda>i. known i \<noteq> None) inline
         \<or> \<not> list_all (\<lambda>i. i \<in> set unique_ids) inline
      then (INSUFFICIENT_EVIDENCE, [])
      else if dr_answerability draft = DRAFT_ANSWERED \<and> unique_ids = [] then (INSUFFICIENT_EVIDENCE, [])
      else if dr_answerability draft \<noteq> DRAFT_ANSWERED then (draft_state (dr_answerability draft), [])
      else (ANSWERED, map (citation_of commit_sha) (List.map_filter known unique_ids)))"

section \<open>What a selection guarantees\<close>

text \<open>The loop keeps its bookkeeping consistent with the list of selected hits.\<close>

definition selection_of :: "retrieval_hit list \<Rightarrow> selection" where
  "selection_of sel =
     \<lparr>se_selected = sel, se_seen_hashes = rh_stable_chunk_hash ` set sel,
      se_per_file = (\<lambda>f. length (filter (\<lambda>h. rh_file_path h = f) sel)),
      se_total_bytes = sum_list (map (utf8_len \<circ> rh_content) sel)\<rparr>"

lemma selected_selection [simp]: "se_selected (selection_of sel) = sel"
  by (simp add: selection_of_def)

lemma take_selection: "take_hit hit (selection_of sel) = selection_of (sel @ [hit])"
  by (auto simp: take_hit_def selection_of_def)

definition overlaps :: "retrieval_hit \<Rightarrow> retrieval_hit \<Rightarrow> bool" where
  "overlaps a b \<longleftrightarrow> rh_file_path a = rh_file_path b
     \<and> rh_start_line a \<le> rh_end_line b \<and> rh_start_line b \<le> rh_end_line a"

text \<open>Why a hit cannot join a selection, in terms of the selected hits alone.\<close>

definition refused :: "rag_settings \<Rightarrow> retrieval_hit list \<Rightarrow> retrieval_hit \<Rightarrow> bool" where
  "refused G sel hit \<longleftrightarrow>
     rh_stable_chunk_hash hit \<in> rh_stable_chunk_hash ` set sel
     \<or> rg_max_evidence_item_bytes G < utf8_len (rh_content hit)
     \<or> rg_max_evidence_per_file G \<le> length (filter (\<lambda>h. rh_file_path h = rh_file_path hit) sel)
     \<or> rg_max_evidence_bytes G < sum_list (map (utf8_len \<circ> rh_content) sel) + utf8_len (rh_content hit)
     \<or> list_ex (overlaps hit) sel"

lemma passed_over_refused: "passed_over G (selection_of sel) hit \<longleftrightarrow> refused G sel hit"
  by (simp add: passed_over_def refused_def selection_of_def overlaps_selected_def overlaps_def
      list_ex_iff Let_def)

lemma refused_append: "refused G sel hit \<Longrightarrow> refused G (sel @ more_hits) hit"
  by (auto simp: refused_def image_Un)

definition within_limits :: "rag_settings \<Rightarrow> retrieval_hit list \<Rightarrow> bool" where
  "within_limits G sel \<longleftrightarrow>
     distinct (map rh_stable_chunk_hash sel)
     \<and> list_all (\<lambda>h. utf8_len (rh_content h) \<le> rg_max_evidence_item_bytes G) sel
     \<and> (\<forall>f. length (filter (\<lambda>h. rh_file_path h = f) sel) \<le> rg_max_evidence_per_file G)
     \<and> sum_list (map (utf8_len \<circ> rh_content) sel) \<le> rg_max_evidence_bytes G
     \<and> sorted_wrt (\<lambda>a b. \<not> overlaps a b) sel"

lemma within_limits_take: "within_limits G sel \<Longrightarrow> \<not> refused G sel hit \<Longrightarrow> within_limits G (sel @ [hit])"
  by (auto simp: within_limits_def refused_def sorted_wrt_append list_ex_iff overlaps_def)

text \<open>The loop from a selection within the limits, and what it leaves out.\<close>

lemma select_loop_spec:
  assumes "within_limits G sel" and "length sel < rg_retrieval_top_k G"
  obtains taken where
    "select_loop G hits (selection_of sel) = selection_of (sel @ taken)" and "subseq taken hits"
    and "within_limits G (sel @ taken)" and "length (sel @ taken) \<le> rg_retrieval_top_k G"
    and "length (sel @ taken) < rg_retrieval_top_k G \<Longrightarrow>
      list_all (\<lambda>h. h \<in> set taken \<or> refused G (sel @ taken) h) hits"
  using assms
proof (induction hits arbitrary: sel thesis)
  case Nil
  from Nil.prems(1) [of "[]"] Nil.prems(2,3) show ?case by simp
next
  case (Cons hit hits)
  consider (over) "refused G sel hit" | (full) "\<not> refused G sel hit" "length (sel @ [hit]) = rg_retrieval_top_k G"
    | (take) "\<not> refused G sel hit" "length (sel @ [hit]) \<noteq> rg_retrieval_top_k G" by blast
  then show ?case
  proof cases
    case over
    show thesis
    proof (rule Cons.IH [of sel])
      fix taken
      assume t: "select_loop G hits (selection_of sel) = selection_of (sel @ taken)" "subseq taken hits"
        "within_limits G (sel @ taken)" "length (sel @ taken) \<le> rg_retrieval_top_k G"
        "length (sel @ taken) < rg_retrieval_top_k G \<Longrightarrow>
          list_all (\<lambda>h. h \<in> set taken \<or> refused G (sel @ taken) h) hits"
      show thesis
        by (rule Cons.prems(1) [of taken]) (use over t refused_append in \<open>auto simp: passed_over_refused\<close>)
    qed (use Cons.prems in simp_all)
  next
    case full
    then have "select_loop G (hit # hits) (selection_of sel) = selection_of (sel @ [hit])"
      by (simp add: passed_over_refused take_selection)
    then show thesis
      using Cons.prems(1) [of "[hit]"] within_limits_take [OF Cons.prems(2) full(1)] full(2) by simp
  next
    case take
    show thesis
    proof (rule Cons.IH [of "sel @ [hit]"])
      fix taken
      assume t: "select_loop G hits (selection_of (sel @ [hit])) = selection_of ((sel @ [hit]) @ taken)"
        "subseq taken hits" "within_limits G ((sel @ [hit]) @ taken)"
        "length ((sel @ [hit]) @ taken) \<le> rg_retrieval_top_k G"
        "length ((sel @ [hit]) @ taken) < rg_retrieval_top_k G \<Longrightarrow>
          list_all (\<lambda>h. h \<in> set taken \<or> refused G ((sel @ [hit]) @ taken) h) hits"
      have len: "length (se_selected (take_hit hit (selection_of sel))) \<noteq> rg_retrieval_top_k G"
        using take(2) by (simp add: take_selection)
      show thesis
      proof (rule Cons.prems(1) [of "hit # taken"])
        show "select_loop G (hit # hits) (selection_of sel) = selection_of (sel @ hit # taken)"
          using take(1) len t(1) by (simp add: passed_over_refused take_selection)
      qed (use t in \<open>auto simp: list_all_iff\<close>)
    qed (use take Cons.prems within_limits_take in auto)
  qed
qed

lemma greedy_selection:
  assumes "0 < rg_retrieval_top_k G"
  shows "subseq (select_hits G hits) (sort_key hit_order hits) \<and> within_limits G (select_hits G hits)
    \<and> length (select_hits G hits) \<le> rg_retrieval_top_k G
    \<and> (length (select_hits G hits) = rg_retrieval_top_k G
       \<or> list_all (\<lambda>h. h \<in> set (select_hits G hits) \<or> refused G (select_hits G hits) h) hits)"
proof -
  have start: "\<lparr>se_selected = [], se_seen_hashes = {}, se_per_file = (\<lambda>_. 0), se_total_bytes = 0\<rparr> = selection_of []"
    by (simp add: selection_of_def)
  have "within_limits G []" by (simp add: within_limits_def)
  then obtain taken where t: "select_loop G (sort_key hit_order hits) (selection_of []) = selection_of taken"
    "subseq taken (sort_key hit_order hits)" "within_limits G taken" "length taken \<le> rg_retrieval_top_k G"
    "length taken < rg_retrieval_top_k G \<Longrightarrow>
      list_all (\<lambda>h. h \<in> set taken \<or> refused G taken h) (sort_key hit_order hits)"
    by (rule select_loop_spec [of G "[]" "sort_key hit_order hits"]) (use assms in simp_all)
  have "select_hits G hits = taken"
    unfolding select_hits_def start t(1) by simp
  with t show ?thesis by (auto simp: list_all_iff)
qed


definition sample_hit :: "rat \<Rightarrow> int \<Rightarrow> string \<Rightarrow> retrieval_hit" where
  "sample_hit score line hash =
     \<lparr>rh_score = score, rh_file_path = py ''a.py'', rh_language = py ''python'', rh_chunk_type = py ''function'',
      rh_symbol_name = None, rh_qualified_symbol_name = None, rh_start_line = line, rh_end_line = line + 1,
      rh_content = py ''x'', rh_stable_chunk_hash = py hash\<rparr>"

definition sample_rag :: rag_settings where
  "sample_rag = \<lparr>rg_question_min_characters = 3, rg_question_max_bytes = 4096, rg_question_max_tokens = 512,
     rg_prompt_version = py ''v'', rg_retrieval_top_k = 2, rg_max_evidence_per_file = 3,
     rg_max_evidence_bytes = 32768, rg_max_evidence_item_bytes = 12288\<rparr>"


end
