(* ===== verification/AgentTools.thy ===== *)
theory AgentTools
  imports Evidence Access
begin

text \<open>
  The tools of the repository agent: \<^verbatim>\<open>backend/app/agent/models.py\<close> and
  \<^verbatim>\<open>backend/app/agent/tools.py\<close>. A tool ends with its evidence or with the exception it raises.
  What the embedding service, Qdrant and GitHub answer is an argument; \<open>find_callers\<close> reads the
  database itself. Full case folding is a parameter.
\<close>

section \<open>Decisions of the provider\<close>

datatype agent_tool_name = SEARCH_CODE | GET_HISTORY | FIND_CALLERS

fun tool_value :: "agent_tool_name \<Rightarrow> string" where
  "tool_value SEARCH_CODE = ''search_code''"
| "tool_value GET_HISTORY = ''get_history''"
| "tool_value FIND_CALLERS = ''find_callers''"

record agent_tool_arguments =
  aa_query :: "pystr option"
  aa_symbol_name :: "pystr option"
  aa_file_path :: "pystr option"

definition text_field_ok :: "nat \<Rightarrow> pystr option \<Rightarrow> bool" where
  "text_field_ok max_length v = (case v of None \<Rightarrow> True | Some s \<Rightarrow> s \<noteq> [] \<and> length s \<le> max_length)"

definition arguments_ok :: "agent_tool_arguments \<Rightarrow> bool" where
  "arguments_ok a \<longleftrightarrow> text_field_ok 4096 (aa_query a) \<and> text_field_ok 1024 (aa_symbol_name a)
     \<and> text_field_ok 1024 (aa_file_path a)"

definition search_code_arguments_ok :: "agent_tool_arguments \<Rightarrow> bool" where
  "search_code_arguments_ok a \<longleftrightarrow> arguments_ok a
     \<and> \<not> (aa_query a = None \<or> aa_symbol_name a \<noteq> None \<or> aa_file_path a \<noteq> None)"

definition get_history_arguments_ok :: "agent_tool_arguments \<Rightarrow> bool" where
  "get_history_arguments_ok a \<longleftrightarrow> arguments_ok a
     \<and> \<not> (aa_query a = None \<or> aa_symbol_name a \<noteq> None \<or> aa_file_path a \<noteq> None)"

definition find_callers_arguments_ok :: "agent_tool_arguments \<Rightarrow> bool" where
  "find_callers_arguments_ok a \<longleftrightarrow> arguments_ok a
     \<and> \<not> (aa_query a \<noteq> None \<or> aa_symbol_name a = None)
     \<and> (case aa_file_path a of None \<Rightarrow> True
        | Some p \<Rightarrow> \<not> (starts_with p [47] \<or> [46, 46] \<in> set (split_on 47 p)))"

record agent_decision =
  ad_is_tool :: bool
  ad_tool_name :: "agent_tool_name option"
  ad_arguments :: "agent_tool_arguments option"
  ad_answer :: "pystr option"
  ad_answerability :: "answerability option"
  ad_uncertainty :: "answer_uncertainty option"
  ad_evidence_ids :: "pystr list"

text \<open>\<open>validate_action_fields\<close> with the field bounds: only such a decision can be constructed.\<close>

definition decision_ok :: "agent_decision \<Rightarrow> bool" where
  "decision_ok d \<longleftrightarrow>
     length (ad_evidence_ids d) \<le> 20
     \<and> (case ad_answer d of None \<Rightarrow> True | Some s \<Rightarrow> length s \<le> 32000)
     \<and> (case ad_arguments d of None \<Rightarrow> True | Some a \<Rightarrow> arguments_ok a)
     \<and> (if ad_is_tool d
        then \<not> (ad_tool_name d = None \<or> ad_arguments d = None \<or> ad_answer d \<noteq> None
               \<or> ad_answerability d \<noteq> None \<or> ad_uncertainty d \<noteq> None \<or> ad_evidence_ids d \<noteq> [])
        else \<not> (ad_tool_name d \<noteq> None \<or> ad_arguments d \<noteq> None \<or> ad_answer d = None
               \<or> ad_answerability d = None \<or> ad_uncertainty d = None))"

section \<open>Evidence of the agent\<close>

record commit_evidence =
  me_evidence_id :: pystr
  me_commit_sha :: string
  me_message :: pystr
  me_committed_at :: time
  me_author_login :: "pystr option"
  me_parent_shas :: "string list"
  me_changed_paths :: "pystr list"
  me_patch_excerpt :: "pystr option"
  me_html_url :: pystr

record pull_request_evidence =
  pe_evidence_id :: pystr
  pe_number :: nat
  pe_title :: pystr
  pe_state :: string
  pe_author_login :: "pystr option"
  pe_merged_at :: "time option"
  pe_merge_commit_sha :: "string option"
  pe_changed_paths :: "pystr list"
  pe_body_excerpt :: "pystr option"
  pe_html_url :: pystr

record caller_evidence =
  ca_evidence_id :: pystr
  ca_target_symbol_name :: pystr
  ca_target_qualified_name :: pystr
  ca_target_file_path :: pystr
  ca_caller_symbol_name :: pystr
  ca_caller_qualified_name :: pystr
  ca_caller_file_path :: pystr
  ca_caller_start_line :: nat
  ca_caller_end_line :: nat
  ca_call_line :: nat
  ca_call_end_line :: nat
  ca_call_expression :: pystr
  ca_resolution_type :: string
  ca_confidence :: string
  ca_commit_sha :: string
  ca_index_version :: nat

datatype agent_evidence =
    Code_Evidence evidence | Commit_Evidence commit_evidence | Pull_Evidence pull_request_evidence
  | Caller_Evidence caller_evidence

fun evidence_id :: "agent_evidence \<Rightarrow> pystr" where
  "evidence_id (Code_Evidence e) = ev_evidence_id e"
| "evidence_id (Commit_Evidence e) = me_evidence_id e"
| "evidence_id (Pull_Evidence e) = pe_evidence_id e"
| "evidence_id (Caller_Evidence e) = ca_evidence_id e"

datatype tool_failure =
    Agent_Tool_Error string | Tool_Indexing_Error indexing_error | Tool_Access_Error access_error | Tool_Timeout

record active_repository_context =
  ac_user_id :: uuid
  ac_repository :: repository
  ac_index_version :: nat
  ac_commit_sha :: string
  ac_preprocessing_fingerprint :: string
  ac_original_question :: pystr

text \<open>\<^verbatim>\<open>f"T{step}-{kind}{position}"\<close>.\<close>

definition step_id :: "nat \<Rightarrow> string \<Rightarrow> nat \<Rightarrow> pystr" where
  "step_id step kind position = py ''T'' @ dec_digits step @ py ''-'' @ py kind @ dec_digits position"

section \<open>Searching code\<close>

definition vector_scope_for_repository :: "repository \<Rightarrow> nat \<Rightarrow> indexing_error + vector_scope" where
  "vector_scope_for_repository r ver =
     make_scope (repo_installation_id r) (repo_id r) ver (repo_access_mode r)
       (if repo_access_mode r = PUBLIC then Some (repo_github_repository_id r) else None)"

record search_answers =
  sa_embedding :: "nat \<Rightarrow> http_attempt"
  sa_points :: "nat \<Rightarrow> (component \<times> payload) list service_attempt"

definition search_code ::
  "digests \<Rightarrow> embedding_settings \<Rightarrow> vector_settings \<Rightarrow> rag_settings \<Rightarrow> search_answers
    \<Rightarrow> active_repository_context \<Rightarrow> agent_tool_arguments \<Rightarrow> nat \<Rightarrow> tool_failure + agent_evidence list" where
  "search_code D E Q G io ctx args step =
     (if \<not> search_code_arguments_ok args then Inl (Agent_Tool_Error ''invalid_search_code_arguments'')
      else case prepare_query D E (the (aa_query args)) of
        Inl e \<Rightarrow> Inl (Tool_Indexing_Error e)
      | Inr prepared \<Rightarrow>
     (case embed_query E (sa_embedding io) prepared of
        Inl e \<Rightarrow> Inl (Tool_Indexing_Error e)
      | Inr query_vector \<Rightarrow>
     (case vector_scope_for_repository (ac_repository ctx) (ac_index_version ctx) of
        Inl e \<Rightarrow> Inl (Agent_Tool_Error ''invalid_search_code_arguments'')
      | Inr scope \<Rightarrow>
     (case search Q (sa_points io) scope query_vector (ac_commit_sha ctx)
             (embedding_model_fingerprint D E (ac_preprocessing_fingerprint ctx))
             (ac_preprocessing_fingerprint ctx) of
        Inl e \<Rightarrow> Inl (Tool_Indexing_Error e)
      | Inr hits \<Rightarrow>
          Inr (map (\<lambda>(position, item). Code_Evidence (item\<lparr>ev_evidence_id := step_id step ''C'' position\<rparr>))
                 (enumerate 1 (select_evidence G hits)))))))"

section \<open>Callers\<close>

definition matching_symbols ::
  "repository \<Rightarrow> nat \<Rightarrow> string \<Rightarrow> pystr \<Rightarrow> pystr option \<Rightarrow> db \<Rightarrow> symbol_definition list" where
  "matching_symbols repo ver commit_sha symbol_name file_path db =
     filter (\<lambda>s. sd_repository_id s = repo_id repo \<and> sd_index_version s = ver
         \<and> sr_commit_sha (sd_symbol s) = commit_sha
         \<and> (sr_symbol_name (sd_symbol s) = symbol_name \<or> sr_qualified_name (sd_symbol s) = symbol_name)
         \<and> (case file_path of None \<Rightarrow> True | Some p \<Rightarrow> sr_file_path (sd_symbol s) = p))
       (db_symbols db)"

text \<open>Text is ordered by the collation of the database, ties by code point.\<close>

definition caller_targets where
  "caller_targets collate repo ver commit_sha symbol_name file_path db =
     take 2 (sort_key (\<lambda>s. let r = sd_symbol s in
           ((collate (sr_file_path r), sr_file_path r), sr_start_line r,
            (collate (sr_qualified_name r), sr_qualified_name r)))
       (matching_symbols repo ver commit_sha symbol_name file_path db))"

definition calls_of ::
  "repository \<Rightarrow> nat \<Rightarrow> string \<Rightarrow> symbol_definition \<Rightarrow> db \<Rightarrow> (call_edge_record \<times> symbol_definition) list" where
  "calls_of repo ver commit_sha target db =
     [(ed_edge e, caller). e \<leftarrow> db_edges db, caller \<leftarrow> db_symbols db,
        sd_id caller = ce_caller_symbol_id (ed_edge e)
        \<and> ed_repository_id e = repo_id repo \<and> ed_index_version e = ver
        \<and> ce_commit_sha (ed_edge e) = commit_sha \<and> ce_callee_symbol_id (ed_edge e) = Some (sd_id target)
        \<and> sd_repository_id caller = repo_id repo \<and> sd_index_version caller = ver
        \<and> sr_commit_sha (sd_symbol caller) = commit_sha]"

definition caller_order where
  "caller_order collate row =
     (case row of (e, caller) \<Rightarrow>
        ((collate (sr_file_path (sd_symbol caller)), sr_file_path (sd_symbol caller)),
         ce_call_line e, ce_call_end_line e,
         (collate (sr_qualified_name (sd_symbol caller)), sr_qualified_name (sd_symbol caller)),
         (collate (py (ce_call_site_fingerprint e)), py (ce_call_site_fingerprint e))))"

definition caller_evidence_of ::
  "nat \<Rightarrow> nat \<Rightarrow> symbol_record \<Rightarrow> nat \<Rightarrow> call_edge_record \<times> symbol_definition \<Rightarrow> caller_evidence" where
  "caller_evidence_of step ver target position row =
     (case row of (e, caller) \<Rightarrow>
        \<lparr>ca_evidence_id = step_id step ''G'' position,
         ca_target_symbol_name = sr_symbol_name target, ca_target_qualified_name = sr_qualified_name target,
         ca_target_file_path = sr_file_path target,
         ca_caller_symbol_name = sr_symbol_name (sd_symbol caller),
         ca_caller_qualified_name = sr_qualified_name (sd_symbol caller),
         ca_caller_file_path = sr_file_path (sd_symbol caller),
         ca_caller_start_line = sr_start_line (sd_symbol caller),
         ca_caller_end_line = sr_end_line (sd_symbol caller),
         ca_call_line = ce_call_line e, ca_call_end_line = ce_call_end_line e,
         ca_call_expression = ce_call_expression e,
         ca_resolution_type = resolution_value (ce_resolution_type e),
         ca_confidence = confidence_value (ce_confidence e), ca_commit_sha = ce_commit_sha e,
         ca_index_version = ver\<rparr>)"

definition validated_graph_build :: "repository \<Rightarrow> nat \<Rightarrow> string \<Rightarrow> index_build \<Rightarrow> bool" where
  "validated_graph_build repo ver commit_sha b \<longleftrightarrow>
     bld_repository_id b = repo_id repo \<and> bld_index_version b = ver \<and> bld_commit_sha b = commit_sha
     \<and> bld_state b = ACTIVE \<and> bld_graph_validated b \<and> bld_graph_fingerprint b \<noteq> None"

text \<open>The reading transaction; \<open>answered\<close> tells whether the database answered it.\<close>

definition query_callers where
  "query_callers collate limit answered repo ctx args step db =
     (let ver = ac_index_version ctx; commit_sha = ac_commit_sha ctx in
      if \<not> answered then Inl (Agent_Tool_Error ''caller_query_unavailable'')
      else if \<not> list_ex (validated_graph_build repo ver commit_sha) (db_builds db)
      then Inl (Agent_Tool_Error ''call_graph_unavailable'')
      else case caller_targets collate repo ver commit_sha (the (aa_symbol_name args)) (aa_file_path args) db of
        [] \<Rightarrow> Inr []
      | [target] \<Rightarrow>
          Inr (map (\<lambda>(position, row). Caller_Evidence (caller_evidence_of step ver (sd_symbol target) position row))
            (enumerate 1 (take limit (sort_key (caller_order collate) (calls_of repo ver commit_sha target db)))))
      | _ \<Rightarrow> Inl (Agent_Tool_Error ''caller_target_ambiguous''))"

text \<open>Between the two transactions other processes may change the database (\<open>peers\<close>).\<close>

definition find_callers where
  "find_callers collate A now lookup peers limit answered ctx args step db =
     (if \<not> find_callers_arguments_ok args then (Inl (Agent_Tool_Error ''invalid_find_callers_arguments''), db)
      else case get_authorized_repository A now (ac_user_id ctx) (repo_id (ac_repository ctx)) True lookup db of
        (Inl InstallationAccessError, db1) \<Rightarrow> (Inl (Agent_Tool_Error ''caller_scope_revoked''), db1)
      | (Inl e, db1) \<Rightarrow> (Inl (Tool_Access_Error e), db1)
      | (Inr repo, db1) \<Rightarrow>
          if repo_id repo \<noteq> repo_id (ac_repository ctx)
             \<or> repo_installation_id repo \<noteq> repo_installation_id (ac_repository ctx)
             \<or> repo_index_version repo \<noteq> ac_index_version ctx
             \<or> repo_last_indexed_commit_sha repo \<noteq> Some (ac_commit_sha ctx)
          then (Inl (Agent_Tool_Error ''caller_scope_changed''), db1)
          else (query_callers collate limit answered repo ctx args step (peers db1), peers db1))"

section \<open>History\<close>

record commit_file =
  gf_filename :: pystr
  gf_patch :: "pystr option"

record github_commit =
  gc_sha :: string
  gc_html_url :: pystr
  gc_message :: pystr
  gc_committer_date :: "time option"
  gc_author_date :: "time option"
  gc_parents :: "string list"
  gc_files :: "commit_file list"
  gc_author_login :: "pystr option"

record github_pull_request =
  gp_number :: nat
  gp_title :: pystr
  gp_body :: "pystr option"
  gp_state :: string
  gp_html_url :: pystr
  gp_user_login :: "pystr option"
  gp_merged_at :: "time option"
  gp_merge_commit_sha :: "string option"

record history_bundle =
  hb_commit :: github_commit
  hb_pull_requests :: "github_pull_request list"

record history_settings =
  hs_message_bytes :: nat
  hs_patch_bytes :: nat
  hs_max_paths :: nat

text \<open>The longest prefix within the byte limit: decoding the cut bytes drops a cut character.\<close>

fun truncate :: "pystr \<Rightarrow> nat \<Rightarrow> pystr" where
  "truncate [] maximum_bytes = []"
| "truncate (c # s) maximum_bytes =
     (if cp_bytes c \<le> maximum_bytes then c # truncate s (maximum_bytes - cp_bytes c) else [])"

text \<open>
  \<^verbatim>\<open>_COMMIT_SHA_PATTERN\<close>: the first run of hexadecimal digits, in either case, of 7 to 40 characters
  that no further digit extends.
\<close>

definition hex_char :: "nat \<Rightarrow> bool" where
  "hex_char c \<longleftrightarrow> 48 \<le> c \<and> c \<le> 57 \<or> 65 \<le> c \<and> c \<le> 70 \<or> 97 \<le> c \<and> c \<le> 102"

function requested_sha :: "pystr \<Rightarrow> pystr option" where
  "requested_sha [] = None"
| "requested_sha (c # s) =
     (if hex_char c
      then let run = c # takeWhile hex_char s in
        if 7 \<le> length run \<and> length run \<le> 40 then Some (lower run)
        else requested_sha (dropWhile hex_char s)
      else requested_sha s)"
  by pat_completeness auto

termination
  by (relation "measure length") (auto simp: le_imp_less_Suc length_dropWhile_le)

text \<open>A date written with digits only is read as the name of a commit.\<close>

lemma date_taken_for_commit: "requested_sha (py ''What changed since 20240131?'') = Some (py ''20240131'')"
  by code_simp

text \<open>\<^verbatim>\<open>_rank\<close>: most question words found first, the order of GitHub among equals.\<close>

definition query_char :: "nat \<Rightarrow> bool" where
  "query_char c \<longleftrightarrow> 48 \<le> c \<and> c \<le> 57 \<or> 65 \<le> c \<and> c \<le> 90 \<or> 97 \<le> c \<and> c \<le> 122 \<or> c \<in> {45, 46, 47, 95}"

function query_words :: "pystr \<Rightarrow> pystr list" where
  "query_words [] = []"
| "query_words (c # s) =
     (if query_char c then (c # takeWhile query_char s) # query_words (dropWhile query_char s)
      else query_words s)"
  by pat_completeness auto

termination
  by (relation "measure length") (auto simp: le_imp_less_Suc length_dropWhile_le)

definition query_terms :: "(pystr \<Rightarrow> pystr) \<Rightarrow> pystr \<Rightarrow> pystr list" where
  "query_terms casefold query = remdups (map casefold (filter (\<lambda>w. 3 \<le> length w) (query_words query)))"

definition bundle_text :: "(pystr \<Rightarrow> pystr) \<Rightarrow> history_bundle \<Rightarrow> pystr" where
  "bundle_text casefold b =
     (let c = hb_commit b in
      casefold (join [32] (gc_message c # map gf_filename (gc_files c)
        @ map (\<lambda>f. case gf_patch f of None \<Rightarrow> [] | Some p \<Rightarrow> p) (gc_files c))))"

definition bundle_score :: "(pystr \<Rightarrow> pystr) \<Rightarrow> pystr \<Rightarrow> history_bundle \<Rightarrow> nat" where
  "bundle_score casefold query b =
     length (filter (\<lambda>t. sublist t (bundle_text casefold b)) (query_terms casefold query))"

definition rank_bundles :: "(pystr \<Rightarrow> pystr) \<Rightarrow> pystr \<Rightarrow> history_bundle list \<Rightarrow> history_bundle list" where
  "rank_bundles casefold query bundles = sort_key (\<lambda>b. - int (bundle_score casefold query b)) bundles"

definition commit_date :: "github_commit \<Rightarrow> time option" where
  "commit_date c = (case gc_committer_date c of Some d \<Rightarrow> Some d | None \<Rightarrow> gc_author_date c)"

definition pull_evidence_of ::
  "history_settings \<Rightarrow> nat \<Rightarrow> nat \<Rightarrow> pystr list \<Rightarrow> nat \<Rightarrow> github_pull_request \<Rightarrow> pull_request_evidence" where
  "pull_evidence_of H step position files pull_position p =
     \<lparr>pe_evidence_id = step_id step ''P'' position @ 45 # dec_digits pull_position, pe_number = gp_number p,
      pe_title = truncate (gp_title p) (hs_message_bytes H), pe_state = gp_state p,
      pe_author_login = gp_user_login p, pe_merged_at = gp_merged_at p,
      pe_merge_commit_sha = gp_merge_commit_sha p, pe_changed_paths = files,
      pe_body_excerpt = (case gp_body p of None \<Rightarrow> None
        | Some b \<Rightarrow> if b = [] then None else Some (truncate b (hs_message_bytes H))),
      pe_html_url = gp_html_url p\<rparr>"

definition bundle_evidence :: "history_settings \<Rightarrow> nat \<Rightarrow> nat \<Rightarrow> history_bundle \<Rightarrow> agent_evidence list" where
  "bundle_evidence H step position b =
     (let c = hb_commit b; files = map gf_filename (take (hs_max_paths H) (gc_files c));
          patches = join [10] (filter (\<lambda>p. p \<noteq> []) (List.map_filter gf_patch (gc_files c))) in
      case commit_date c of
        None \<Rightarrow> []
      | Some committed_at \<Rightarrow>
          Commit_Evidence
            \<lparr>me_evidence_id = step_id step ''H'' position, me_commit_sha = gc_sha c,
             me_message = truncate (gc_message c) (hs_message_bytes H), me_committed_at = committed_at,
             me_author_login = gc_author_login c, me_parent_shas = gc_parents c, me_changed_paths = files,
             me_patch_excerpt = (if patches = [] then None else Some (truncate patches (hs_patch_bytes H))),
             me_html_url = gc_html_url c\<rparr>
          # map (\<lambda>(pull_position, p). Pull_Evidence (pull_evidence_of H step position files pull_position p))
              (enumerate 1 (hb_pull_requests b)))"

definition history_evidence ::
  "(pystr \<Rightarrow> pystr) \<Rightarrow> history_settings \<Rightarrow> pystr \<Rightarrow> nat \<Rightarrow> history_bundle list \<Rightarrow> agent_evidence list" where
  "history_evidence casefold H question step bundles =
     concat (map (\<lambda>(position, b). bundle_evidence H step position b)
       (enumerate 1 (rank_bundles casefold question bundles)))"

text \<open>
  What is asked of GitHub: the revision, and for a private repository the installation whose token
  is used. \<open>None\<close> is a \<^verbatim>\<open>GitHubAPIError\<close>, of the token or of the history.
\<close>

definition history_revision :: "active_repository_context \<Rightarrow> pystr" where
  "history_revision ctx = (case requested_sha (ac_original_question ctx) of
     None \<Rightarrow> py (ac_commit_sha ctx) | Some sha \<Rightarrow> sha)"

definition get_history ::
  "(pystr \<Rightarrow> pystr) \<Rightarrow> access_settings \<Rightarrow> history_settings \<Rightarrow> time \<Rightarrow> (nat option \<Rightarrow> pystr \<Rightarrow> history_bundle list option)
    \<Rightarrow> active_repository_context \<Rightarrow> agent_tool_arguments \<Rightarrow> nat \<Rightarrow> db \<Rightarrow> tool_failure + agent_evidence list" where
  "get_history casefold A H now github ctx args step db =
     (if \<not> get_history_arguments_ok args then Inl (Agent_Tool_Error ''invalid_get_history_arguments'')
      else case (if repo_access_mode (ac_repository ctx) = PUBLIC then Inr None
                 else case repo_installation_id (ac_repository ctx) of
                   None \<Rightarrow> Inl (Agent_Tool_Error ''github_history_unavailable'')
                 | Some i \<Rightarrow> (case get_authorized_installation A now (ac_user_id ctx) i db of
                     None \<Rightarrow> Inl (Tool_Access_Error InstallationAccessError)
                   | Some installation \<Rightarrow> Inr (Some (inst_github_installation_id installation)))) of
        Inl e \<Rightarrow> Inl e
      | Inr credential \<Rightarrow>
          (case github credential (history_revision ctx) of
             None \<Rightarrow> Inl (Agent_Tool_Error ''github_history_unavailable'')
           | Some bundles \<Rightarrow> Inr (history_evidence casefold H (ac_original_question ctx) step bundles)))"

end
