(* ===== verification/Agent.thy ===== *)
theory Agent
  imports AgentTools
begin

text \<open>
  The loop of the repository agent: \<^verbatim>\<open>backend/app/agent/service.py\<close> and
  \<^verbatim>\<open>backend/app/agent/prompt.py\<close>. Every database access is a transaction of its own; before the
  n-th, other processes act (\<open>ae_peers\<close>). What the language model, the embedding service, Qdrant and
  GitHub answer is data of the surroundings, as are the measured durations. The fixed instruction
  text of the prompt is left out; the context payload is modelled.
\<close>

section \<open>Surroundings and results\<close>

datatype provider_answer = Decision agent_decision | Provider_Error string | Provider_Timeout

record agent_surroundings =
  ae_now :: "nat \<Rightarrow> time"
  ae_peers :: "nat \<Rightarrow> db \<Rightarrow> db"
  ae_caller_peers :: "nat \<Rightarrow> db \<Rightarrow> db"
  ae_lookup :: "nat \<Rightarrow> public_lookup"
  ae_provider :: "nat \<Rightarrow> pystr \<Rightarrow> provider_answer"
  ae_tool_times_out :: "nat \<Rightarrow> bool"
  ae_search :: "nat \<Rightarrow> search_answers"
  ae_github :: "nat \<Rightarrow> nat option \<Rightarrow> pystr \<Rightarrow> history_bundle list option"
  ae_callers_answered :: "nat \<Rightarrow> bool"
  ae_duration :: "nat \<Rightarrow> nat"
  ae_total_duration :: nat
  ae_total_timeout :: bool

record agent_settings =
  ag_digests :: digests
  ag_access :: access_settings
  ag_embedding :: embedding_settings
  ag_vectors :: vector_settings
  ag_rag :: rag_settings
  ag_history :: history_settings
  ag_unicode :: unicode_tables
  ag_casefold :: "pystr \<Rightarrow> pystr"
  ag_collate :: "pystr \<Rightarrow> pystr"
  ag_score_text :: "rat \<Rightarrow> pystr"
  ag_time_text :: "time \<Rightarrow> pystr"
  ag_max_tool_calls :: nat
  ag_max_tool_result_bytes :: nat
  ag_max_total_evidence_bytes :: nat
  ag_caller_result_limit :: nat

record agent_world =
  aw_db :: db
  aw_tick :: nat

record active_index =
  ai_index_version :: nat
  ai_commit_sha :: string
  ai_preprocessing_fingerprint :: string

datatype agent_step_status = STEP_COMPLETED | STEP_FAILED | STEP_TIMED_OUT | STEP_REJECTED

record agent_trace_step =
  tr_step :: nat
  tr_tool :: agent_tool_name
  tr_argument_fingerprint :: string
  tr_status :: agent_step_status
  tr_duration_ms :: nat
  tr_result_count :: nat
  tr_failure_code :: "string option"
  tr_contributed_evidence :: bool

record agent_run_result =
  rr_repository_id :: uuid
  rr_answer :: pystr
  rr_answerability :: answerability
  rr_uncertainty :: answer_uncertainty
  rr_evidence :: "agent_evidence list"
  rr_cited_evidence_ids :: "pystr list"
  rr_commit_sha :: "string option"
  rr_index_version :: nat
  rr_retrieved_evidence_count :: nat
  rr_trace :: "agent_trace_step list"
  rr_duration_ms :: nat

text \<open>What may leave the agent as an exception: a refused access, or a programming error.\<close>

datatype agent_exception = Access_Refused access_error | Internal_Failed string

text \<open>The local variables of \<open>_run\<close>.\<close>

record agent_run =
  ar_repository :: repository
  ar_evidence :: "agent_evidence list"
  ar_trace :: "agent_trace_step list"
  ar_completed :: "agent_tool_name list"
  ar_failed :: "agent_tool_name list"
  ar_failure_codes :: "string list"
  ar_fingerprints :: "string set"
  ar_total_evidence_bytes :: nat

section \<open>The prompt\<close>

definition json_object :: "(string \<times> pystr) list \<Rightarrow> pystr" where
  "json_object kvs = 123 # join [44] (map (\<lambda>(k, v). json_string (py k) @ 58 # v) kvs) @ [125]"

definition json_list :: "pystr list \<Rightarrow> pystr" where
  "json_list items = 91 # join [44] items @ [93]"

definition json_optional :: "pystr option \<Rightarrow> pystr" where
  "json_optional v = (case v of None \<Rightarrow> py ''null'' | Some s \<Rightarrow> json_string s)"

fun serialize_evidence :: "agent_settings \<Rightarrow> agent_evidence \<Rightarrow> (string \<times> pystr) list" where
  "serialize_evidence S (Code_Evidence e) =
     [(''id'', json_string (ev_evidence_id e)), (''type'', json_string (py ''code'')),
      (''score'', ag_score_text S (ev_score e)), (''file_path'', json_string (ev_file_path e)),
      (''language'', json_string (ev_language e)), (''chunk_type'', json_string (ev_chunk_type e)),
      (''symbol_name'', json_optional (ev_symbol_name e)),
      (''qualified_symbol_name'', json_optional (ev_qualified_symbol_name e)),
      (''start_line'', dec_digits (nat (ev_start_line e))), (''end_line'', dec_digits (nat (ev_end_line e))),
      (''content'', json_string (ev_content e))]"
| "serialize_evidence S (Commit_Evidence e) =
     [(''id'', json_string (me_evidence_id e)), (''type'', json_string (py ''commit'')),
      (''commit_sha'', json_string (py (me_commit_sha e))), (''message'', json_string (me_message e)),
      (''committed_at'', json_string (ag_time_text S (me_committed_at e))),
      (''author_login'', json_optional (me_author_login e)),
      (''parent_shas'', json_list (map (json_string \<circ> py) (me_parent_shas e))),
      (''changed_paths'', json_list (map json_string (me_changed_paths e))),
      (''patch_excerpt'', json_optional (me_patch_excerpt e))]"
| "serialize_evidence S (Caller_Evidence e) =
     [(''id'', json_string (ca_evidence_id e)), (''type'', json_string (py ''caller'')),
      (''target_symbol_name'', json_string (ca_target_symbol_name e)),
      (''target_qualified_name'', json_string (ca_target_qualified_name e)),
      (''target_file_path'', json_string (ca_target_file_path e)),
      (''caller_symbol_name'', json_string (ca_caller_symbol_name e)),
      (''caller_qualified_name'', json_string (ca_caller_qualified_name e)),
      (''caller_file_path'', json_string (ca_caller_file_path e)),
      (''caller_start_line'', dec_digits (ca_caller_start_line e)),
      (''caller_end_line'', dec_digits (ca_caller_end_line e)),
      (''call_line'', dec_digits (ca_call_line e)), (''call_end_line'', dec_digits (ca_call_end_line e)),
      (''call_expression'', json_string (ca_call_expression e)),
      (''resolution_type'', json_string (py (ca_resolution_type e))),
      (''confidence'', json_string (py (ca_confidence e))),
      (''commit_sha'', json_string (py (ca_commit_sha e))),
      (''index_version'', dec_digits (ca_index_version e)),
      (''limitation'', json_string (py ''Static Python analysis; runtime-dispatched calls may be absent.''))]"
| "serialize_evidence S (Pull_Evidence e) =
     [(''id'', json_string (pe_evidence_id e)), (''type'', json_string (py ''pull_request'')),
      (''number'', dec_digits (pe_number e)), (''title'', json_string (pe_title e)),
      (''state'', json_string (py (pe_state e))), (''author_login'', json_optional (pe_author_login e)),
      (''merged_at'', json_optional (map_option (ag_time_text S) (pe_merged_at e))),
      (''merge_commit_sha'', json_optional (map_option py (pe_merge_commit_sha e))),
      (''changed_paths'', json_list (map json_string (pe_changed_paths e))),
      (''body_excerpt'', json_optional (pe_body_excerpt e))]"

text \<open>The prompt sorts the keys of every object, the measured text of a tool result does not.\<close>

definition sorted_object :: "(string \<times> pystr) list \<Rightarrow> pystr" where
  "sorted_object kvs = json_object (sort_key fst kvs)"

definition context_payload ::
  "agent_settings \<Rightarrow> normalized_question \<Rightarrow> agent_run \<Rightarrow> nat \<Rightarrow> pystr" where
  "context_payload S question run remaining_calls =
     sorted_object
       [(''prompt_version'', json_string (py ''repolume-agent-v2'')),
        (''question'', json_string (nq_text question)),
        (''available_tools'', json_list (map (json_string \<circ> py \<circ> tool_value) [SEARCH_CODE, GET_HISTORY, FIND_CALLERS])),
        (''completed_tools'', json_list (map (json_string \<circ> py \<circ> tool_value) (ar_completed run))),
        (''failed_tools'', json_list (map (json_string \<circ> py \<circ> tool_value) (ar_failed run))),
        (''failed_tool_codes'', json_list (map (json_string \<circ> py) (ar_failure_codes run))),
        (''remaining_tool_calls'', dec_digits remaining_calls),
        (''evidence'', json_list (map (sorted_object \<circ> serialize_evidence S) (ar_evidence run)))]"

definition encoded_size :: "agent_settings \<Rightarrow> agent_evidence list \<Rightarrow> nat" where
  "encoded_size S items = utf8_len (json_list (map (json_object \<circ> serialize_evidence S) items))"

section \<open>Authorization\<close>

definition transact :: "agent_surroundings \<Rightarrow> (nat \<Rightarrow> db \<Rightarrow> 'a \<times> db) \<Rightarrow> agent_world \<Rightarrow> 'a \<times> agent_world" where
  "transact io f w =
     (let n = aw_tick w; (x, db) = f n (ae_peers io n (aw_db w)) in (x, \<lparr>aw_db = db, aw_tick = n + 1\<rparr>))"

definition authorize ::
  "agent_settings \<Rightarrow> agent_surroundings \<Rightarrow> uuid \<Rightarrow> uuid \<Rightarrow> agent_world \<Rightarrow> (access_error + repository) \<times> agent_world" where
  "authorize S io user repo =
     transact io (\<lambda>n. get_authorized_repository (ag_access S) (ae_now io n) user repo True (ae_lookup io n))"

definition serves_build :: "agent_settings \<Rightarrow> repository \<Rightarrow> index_build \<Rightarrow> bool" where
  "serves_build S r b \<longleftrightarrow>
     bld_repository_id b = repo_id r \<and> bld_index_version b = repo_index_version r \<and> bld_state b = ACTIVE
     \<and> Some (bld_commit_sha b) = repo_last_indexed_commit_sha r
     \<and> ei_model_identifier (bld_embedding b) = es_model_identifier (ag_embedding S)
     \<and> ei_model_revision (bld_embedding b) = es_model_revision (ag_embedding S)
     \<and> ei_dimension (bld_embedding b) = es_dimension (ag_embedding S)
     \<and> ei_preprocessing_fingerprint (bld_embedding b) = policy_fingerprint (ag_digests S) (ag_embedding S)
     \<and> bld_vector_count b = repo_active_vector_count r"

definition active_index_of :: "index_build \<Rightarrow> active_index" where
  "active_index_of b = \<lparr>ai_index_version = bld_index_version b, ai_commit_sha = bld_commit_sha b,
     ai_preprocessing_fingerprint = ei_preprocessing_fingerprint (bld_embedding b)\<rparr>"

definition load_active_index ::
  "agent_settings \<Rightarrow> agent_surroundings \<Rightarrow> repository \<Rightarrow> agent_world \<Rightarrow> active_index option \<times> agent_world" where
  "load_active_index S io r w =
     (if active_index_refused r then (None, w)
      else transact io (\<lambda>n db. (map_option active_index_of (select_first (serves_build S r) (db_builds db)), db)) w)"

definition same_identity :: "repository \<Rightarrow> repository \<Rightarrow> bool" where
  "same_identity current expected \<longleftrightarrow>
     repo_id current = repo_id expected \<and> repo_installation_id current = repo_installation_id expected
     \<and> repo_access_mode current = repo_access_mode expected
     \<and> repo_github_repository_id current = repo_github_repository_id expected"

definition refresh_authorization ::
  "agent_settings \<Rightarrow> agent_surroundings \<Rightarrow> uuid \<Rightarrow> uuid \<Rightarrow> repository \<Rightarrow> active_index \<Rightarrow> agent_world
    \<Rightarrow> (access_error + repository option) \<times> agent_world" where
  "refresh_authorization S io user repo expected active w =
     (case authorize S io user repo w of
        (Inl e, w1) \<Rightarrow> (Inl e, w1)
      | (Inr current, w1) \<Rightarrow>
          (case load_active_index S io current w1 of (current_active, w2) \<Rightarrow>
             (Inr (if same_identity current expected \<and> current_active = Some active then Some current else None), w2)))"

section \<open>Results\<close>

definition unsupported_text :: pystr where
  "unsupported_text = py ''This question requires capabilities outside the current repository agent.''"

definition unavailable_text :: pystr where
  "unavailable_text = py ''Repository analysis is temporarily unavailable. Please try again.''"

definition insufficient_text :: pystr where
  "insufficient_text = py ''The authorized evidence does not contain enough support to answer this question.''"

text \<open>\<open>_no_answer\<close>; the source of the version is the active index, else the repository, else nothing.\<close>

definition no_answer ::
  "agent_surroundings \<Rightarrow> uuid \<Rightarrow> answerability \<Rightarrow> active_index option \<Rightarrow> repository option \<Rightarrow> nat
    \<Rightarrow> agent_trace_step list \<Rightarrow> agent_run_result" where
  "no_answer io repo state active row evidence_count trace =
     \<lparr>rr_repository_id = repo,
      rr_answer = (if state = UNSUPPORTED_QUESTION then unsupported_text
        else if state = TEMPORARILY_UNAVAILABLE then unavailable_text else insufficient_text),
      rr_answerability = state,
      rr_uncertainty = (if state = INSUFFICIENT_EVIDENCE then U_HIGH else U_NOT_APPLICABLE),
      rr_evidence = [], rr_cited_evidence_ids = [],
      rr_commit_sha = (case active of Some a \<Rightarrow> Some (ai_commit_sha a)
        | None \<Rightarrow> (case row of Some r \<Rightarrow> repo_last_indexed_commit_sha r | None \<Rightarrow> None)),
      rr_index_version = (case active of Some a \<Rightarrow> ai_index_version a
        | None \<Rightarrow> (case row of Some r \<Rightarrow> repo_index_version r | None \<Rightarrow> 0)),
      rr_retrieved_evidence_count = evidence_count, rr_trace = trace,
      rr_duration_ms = ae_total_duration io\<rparr>"

definition gave_up :: "agent_surroundings \<Rightarrow> uuid \<Rightarrow> active_index \<Rightarrow> agent_run \<Rightarrow> agent_run_result" where
  "gave_up io repo active run = no_answer io repo TEMPORARILY_UNAVAILABLE (Some active) None
     (length (ar_evidence run)) (ar_trace run)"

definition finalize ::
  "agent_settings \<Rightarrow> agent_surroundings \<Rightarrow> uuid \<Rightarrow> uuid \<Rightarrow> active_index \<Rightarrow> agent_run \<Rightarrow> pystr \<Rightarrow> answerability
    \<Rightarrow> answer_uncertainty \<Rightarrow> pystr list \<Rightarrow> agent_world \<Rightarrow> (agent_exception + agent_run_result) \<times> agent_world" where
  "finalize S io user repo active run decision_answer state uncertainty cited_ids w =
     (case authorize S io user repo w of
        (Inl e, w1) \<Rightarrow> (Inl (Access_Refused e), w1)
      | (Inr final_repository, w1) \<Rightarrow>
     (case load_active_index S io final_repository w1 of (final_active, w2) \<Rightarrow>
        if repo_id final_repository \<noteq> repo_id (ar_repository run) \<or> final_active \<noteq> Some active
        then (Inr (no_answer io repo TEMPORARILY_UNAVAILABLE None (Some final_repository) 0 (ar_trace run)), w2)
        else let known = by_id evidence_id (ar_evidence run); unique_ids = first_occurrences cited_ids;
                 answered = (state = ANSWERED \<or> state = PARTIALLY_ANSWERED) in
          if answered \<and> (unique_ids = [] \<or> list_ex (\<lambda>i. known i = None) unique_ids)
          then (Inr (no_answer io repo INSUFFICIENT_EVIDENCE (Some active) None
                  (length (ar_evidence run)) (ar_trace run)), w2)
          else (Inr \<lparr>rr_repository_id = repo, rr_answer = decision_answer, rr_answerability = state,
                  rr_uncertainty = uncertainty, rr_evidence = ar_evidence run,
                  rr_cited_evidence_ids = (if answered
                    then filter (\<lambda>i. i \<in> set unique_ids) (map evidence_id (ar_evidence run)) else []),
                  rr_commit_sha = Some (ai_commit_sha active), rr_index_version = ai_index_version active,
                  rr_retrieved_evidence_count = length (ar_evidence run), rr_trace = ar_trace run,
                  rr_duration_ms = ae_total_duration io\<rparr>, w2)))"

section \<open>Tool calls\<close>

text \<open>\<^verbatim>\<open>safe_argument_fingerprint\<close>: the arguments that are given, by sorted key.\<close>

definition argument_texts :: "agent_tool_arguments option \<Rightarrow> pystr list" where
  "argument_texts args = (case args of None \<Rightarrow> [] | Some a \<Rightarrow>
     List.map_filter (\<lambda>(k, v). map_option (\<lambda>t. py k @ 61 # t) v)
       [(''file_path'', aa_file_path a), (''query'', aa_query a), (''symbol_name'', aa_symbol_name a)])"

definition safe_argument_fingerprint :: "digests \<Rightarrow> agent_tool_name \<Rightarrow> agent_tool_arguments option \<Rightarrow> string" where
  "safe_argument_fingerprint D name args = take 16 (sha256_hex D (join [31] (py (tool_value name) # argument_texts args)))"

definition no_arguments :: agent_tool_arguments where
  "no_arguments = \<lparr>aa_query = None, aa_symbol_name = None, aa_file_path = None\<rparr>"

text \<open>\<open>registry.get(tool_name).execute(context, arguments, step)\<close>.\<close>

definition execute_tool ::
  "agent_settings \<Rightarrow> agent_surroundings \<Rightarrow> active_repository_context \<Rightarrow> agent_tool_name \<Rightarrow> agent_tool_arguments
    \<Rightarrow> nat \<Rightarrow> agent_world \<Rightarrow> (tool_failure + agent_evidence list) \<times> agent_world" where
  "execute_tool S io ctx name args step w =
     (case name of
        SEARCH_CODE \<Rightarrow> (search_code (ag_digests S) (ag_embedding S) (ag_vectors S) (ag_rag S) (ae_search io step)
          ctx args step, w)
      | GET_HISTORY \<Rightarrow> transact io (\<lambda>n db. (get_history (ag_casefold S) (ag_access S) (ag_history S) (ae_now io n)
          (ae_github io step) ctx args step db, db)) w
      | FIND_CALLERS \<Rightarrow> transact io (\<lambda>n. find_callers (ag_collate S) (ag_access S) (ae_now io n) (ae_lookup io n)
          (ae_caller_peers io n) (ag_caller_result_limit S) (ae_callers_answered io step) ctx args step) w)"

definition size_failure :: "agent_settings \<Rightarrow> nat \<Rightarrow> nat \<Rightarrow> string option" where
  "size_failure S encoded held =
     (if ag_max_tool_result_bytes S < encoded then Some ''tool_result_too_large''
      else if ag_max_total_evidence_bytes S < held + encoded then Some ''total_evidence_too_large'' else None)"

definition trace_step ::
  "agent_surroundings \<Rightarrow> nat \<Rightarrow> agent_tool_name \<Rightarrow> string \<Rightarrow> agent_step_status \<Rightarrow> nat \<Rightarrow> string option \<Rightarrow> bool
    \<Rightarrow> agent_trace_step" where
  "trace_step io step tool fingerprint status result_count failure contributed =
     \<lparr>tr_step = step, tr_tool = tool, tr_argument_fingerprint = fingerprint, tr_status = status,
      tr_duration_ms = (if status = STEP_REJECTED then 0 else ae_duration io step), tr_result_count = result_count,
      tr_failure_code = failure, tr_contributed_evidence = contributed\<rparr>"

definition call_failed ::
  "agent_surroundings \<Rightarrow> nat \<Rightarrow> agent_tool_name \<Rightarrow> string \<Rightarrow> agent_step_status \<Rightarrow> string \<Rightarrow> agent_run \<Rightarrow> agent_run" where
  "call_failed io step tool fingerprint status code run =
     run\<lparr>ar_failed := ar_failed run @ [tool], ar_failure_codes := ar_failure_codes run @ [code],
       ar_trace := ar_trace run @ [trace_step io step tool fingerprint status 0 (Some code) False]\<rparr>"

definition call_completed ::
  "agent_surroundings \<Rightarrow> nat \<Rightarrow> agent_tool_name \<Rightarrow> string \<Rightarrow> agent_evidence list \<Rightarrow> nat \<Rightarrow> agent_run \<Rightarrow> agent_run" where
  "call_completed io step tool fingerprint items encoded run =
     run\<lparr>ar_evidence := ar_evidence run @ items, ar_total_evidence_bytes := ar_total_evidence_bytes run + encoded,
       ar_completed := ar_completed run @ [tool],
       ar_trace := ar_trace run
         @ [trace_step io step tool fingerprint STEP_COMPLETED (length items) None (items \<noteq> [])]\<rparr>"

text \<open>The outcome of an iteration: the run returns or raises, leaves the loop, or goes on.\<close>

datatype iteration = Returned_Run "agent_exception + agent_run_result" | Left_Loop agent_run | Goes_On agent_run

definition tool_code :: "tool_failure \<Rightarrow> string" where
  "tool_code f = (case f of Agent_Tool_Error code \<Rightarrow> code
     | Tool_Indexing_Error (IndexingError code message retryable) \<Rightarrow> code | _ \<Rightarrow> [])"

definition context_of_run ::
  "uuid \<Rightarrow> normalized_question \<Rightarrow> active_index \<Rightarrow> repository \<Rightarrow> active_repository_context" where
  "context_of_run user question active repository =
     \<lparr>ac_user_id = user, ac_repository = repository, ac_index_version = ai_index_version active,
      ac_commit_sha = ai_commit_sha active, ac_preprocessing_fingerprint = ai_preprocessing_fingerprint active,
      ac_original_question = nq_text question\<rparr>"

definition call_tool ::
  "agent_settings \<Rightarrow> agent_surroundings \<Rightarrow> uuid \<Rightarrow> uuid \<Rightarrow> normalized_question \<Rightarrow> active_index \<Rightarrow> agent_tool_name
    \<Rightarrow> agent_tool_arguments option \<Rightarrow> agent_run \<Rightarrow> agent_world \<Rightarrow> iteration \<times> agent_world" where
  "call_tool S io user repo question active tool args run w =
     (let step = length (ar_trace run) + 1; fingerprint = safe_argument_fingerprint (ag_digests S) tool args in
      if fingerprint \<in> ar_fingerprints run
      then (Left_Loop (run\<lparr>ar_trace := ar_trace run
              @ [trace_step io step tool fingerprint STEP_REJECTED 0 (Some ''repeated_tool_call'') False]\<rparr>), w)
      else let run1 = run\<lparr>ar_fingerprints := insert fingerprint (ar_fingerprints run)\<rparr> in
        case refresh_authorization S io user repo (ar_repository run1) active w of
          (Inl e, w1) \<Rightarrow> (Returned_Run (Inl (Access_Refused e)), w1)
        | (Inr None, w1) \<Rightarrow> (Returned_Run (Inr (gave_up io repo active run1)), w1)
        | (Inr (Some current), w1) \<Rightarrow>
       (let run2 = run1\<lparr>ar_repository := current\<rparr> in
        case execute_tool S io (context_of_run user question active current) tool
               (case args of None \<Rightarrow> no_arguments | Some a \<Rightarrow> a) step w1 of (outcome, w2) \<Rightarrow>
        if ae_tool_times_out io step \<or> outcome = Inl Tool_Timeout
        then (Goes_On (call_failed io step tool fingerprint STEP_TIMED_OUT ''tool_timeout'' run2), w2)
        else case outcome of
          Inl (Tool_Access_Error e) \<Rightarrow> (Returned_Run (Inl (Access_Refused e)), w2)
        | Inl (Tool_Indexing_Error (InternalError what)) \<Rightarrow> (Returned_Run (Inl (Internal_Failed what)), w2)
        | Inl f \<Rightarrow> (Goes_On (call_failed io step tool fingerprint STEP_FAILED (tool_code f) run2), w2)
        | Inr items \<Rightarrow>
            (case size_failure S (encoded_size S items) (ar_total_evidence_bytes run2) of
               Some code \<Rightarrow> (Goes_On (call_failed io step tool fingerprint STEP_FAILED code run2), w2)
             | None \<Rightarrow> (Goes_On (call_completed io step tool fingerprint items (encoded_size S items) run2), w2))))"

definition decide ::
  "agent_settings \<Rightarrow> agent_surroundings \<Rightarrow> uuid \<Rightarrow> uuid \<Rightarrow> normalized_question \<Rightarrow> active_index \<Rightarrow> agent_run
    \<Rightarrow> agent_world \<Rightarrow> iteration \<times> agent_world" where
  "decide S io user repo question active run w =
     (case ae_provider io (length (ar_trace run))
             (context_payload S question run (ag_max_tool_calls S - length (ar_trace run))) of
        Provider_Error code \<Rightarrow> (Returned_Run (Inr (gave_up io repo active run)), w)
      | Provider_Timeout \<Rightarrow> (Returned_Run (Inr (gave_up io repo active run)), w)
      | Decision d \<Rightarrow>
          if \<not> ad_is_tool d
          then (case finalize S io user repo active run
                  (case ad_answer d of Some t \<Rightarrow> if t = [] then insufficient_text else t | None \<Rightarrow> insufficient_text)
                  (case ad_answerability d of Some a \<Rightarrow> a | None \<Rightarrow> INSUFFICIENT_EVIDENCE)
                  (case ad_uncertainty d of Some u \<Rightarrow> u | None \<Rightarrow> U_HIGH) (ad_evidence_ids d) w of
                  (r, w') \<Rightarrow> (Returned_Run r, w'))
          else (case ad_tool_name d of
                  None \<Rightarrow> (Returned_Run (Inr (gave_up io repo active run)), w)
                | Some tool \<Rightarrow> call_tool S io user repo question active tool (ad_arguments d) run w))"

definition iterate ::
  "agent_settings \<Rightarrow> agent_surroundings \<Rightarrow> uuid \<Rightarrow> uuid \<Rightarrow> normalized_question \<Rightarrow> active_index \<Rightarrow> agent_run
    \<Rightarrow> agent_world \<Rightarrow> iteration \<times> agent_world" where
  "iterate S io user repo question active run w =
     (if ar_evidence run = [] then decide S io user repo question active run w
      else case refresh_authorization S io user repo (ar_repository run) active w of
        (Inl e, w1) \<Rightarrow> (Returned_Run (Inl (Access_Refused e)), w1)
      | (Inr None, w1) \<Rightarrow> (Returned_Run (Inr (gave_up io repo active run)), w1)
      | (Inr (Some current), w1) \<Rightarrow> decide S io user repo question active (run\<lparr>ar_repository := current\<rparr>) w1)"

section \<open>The loop\<close>

lemma iterate_goes_on:
  "iterate S io user repo question active run w = (Goes_On run', w') \<Longrightarrow> length (ar_trace run') = Suc (length (ar_trace run))"
  by (auto simp: iterate_def decide_def call_tool_def call_failed_def call_completed_def Let_def
      split: if_splits prod.splits sum.splits option.splits provider_answer.splits tool_failure.splits indexing_error.splits)

function agent_loop ::
  "agent_settings \<Rightarrow> agent_surroundings \<Rightarrow> uuid \<Rightarrow> uuid \<Rightarrow> normalized_question \<Rightarrow> active_index \<Rightarrow> agent_run
    \<Rightarrow> agent_world \<Rightarrow> iteration \<times> agent_world" where
  "agent_loop S io user repo question active run w =
     (if length (ar_trace run) < ag_max_tool_calls S
      then case iterate S io user repo question active run w of
          (Goes_On run', w') \<Rightarrow> agent_loop S io user repo question active run' w'
        | (stopped, w') \<Rightarrow> (stopped, w')
      else (Left_Loop run, w))"
  by auto

termination
  by (relation "measure (\<lambda>(S, io, user, repo, question, active, run, w). ag_max_tool_calls S - length (ar_trace run))")
    (auto dest!: sym [of _ "iterate _ _ _ _ _ _ _ _"] iterate_goes_on)

declare agent_loop.simps [simp del]

definition unavailable_codes :: "string set" where
  "unavailable_codes = {''tool_timeout'', ''call_graph_unavailable'', ''caller_query_unavailable'',
     ''caller_scope_changed'', ''caller_scope_revoked''}"

definition run_agent ::
  "agent_settings \<Rightarrow> agent_surroundings \<Rightarrow> uuid \<Rightarrow> uuid \<Rightarrow> normalized_question \<Rightarrow> agent_world
    \<Rightarrow> (agent_exception + agent_run_result) \<times> agent_world" where
  "run_agent S io user repo question w =
     (case authorize S io user repo w of
        (Inl e, w1) \<Rightarrow> (Inl (Access_Refused e), w1)
      | (Inr repository, w1) \<Rightarrow>
     (case load_active_index S io repository w1 of
        (None, w2) \<Rightarrow> (Inr (no_answer io repo INSUFFICIENT_EVIDENCE None (Some repository) 0 []), w2)
      | (Some active, w2) \<Rightarrow>
     (if is_unsupported (ag_unicode S) question
      then (Inr (no_answer io repo UNSUPPORTED_QUESTION (Some active) None 0 []), w2)
      else case agent_loop S io user repo question active
             \<lparr>ar_repository = repository, ar_evidence = [], ar_trace = [], ar_completed = [], ar_failed = [],
              ar_failure_codes = [], ar_fingerprints = {}, ar_total_evidence_bytes = 0\<rparr> w2 of
          (Returned_Run r, w3) \<Rightarrow> (r, w3)
        | (Left_Loop run, w3) \<Rightarrow> (Inr (no_answer io repo
            (if list_ex (\<lambda>c. c \<in> unavailable_codes) (ar_failure_codes run) then TEMPORARILY_UNAVAILABLE
             else INSUFFICIENT_EVIDENCE)
            (Some active) None (length (ar_evidence run)) (ar_trace run)), w3)
        | (Goes_On run, w3) \<Rightarrow> (Inl (Internal_Failed []), w3))))"

text \<open>\<open>answer\<close>: the time limit around the run.\<close>

definition answer_question ::
  "agent_settings \<Rightarrow> agent_surroundings \<Rightarrow> uuid \<Rightarrow> uuid \<Rightarrow> normalized_question \<Rightarrow> agent_world
    \<Rightarrow> agent_exception + agent_run_result" where
  "answer_question S io user repo question w =
     (if ae_total_timeout io then Inr (no_answer io repo TEMPORARILY_UNAVAILABLE None None 0 [])
      else fst (run_agent S io user repo question w))"

end
