(* ===== verification/AgentRuns.thy ===== *)
theory AgentRuns
  imports Agent
begin

text \<open>
  What a run of the agent guarantees: its evidence is stamped with the step that found it and belongs
  to the authorized repository and version, an answer cites such evidence only, and the number of
  tool calls and the evidence are bounded.
\<close>

section \<open>Evidence ids\<close>

definition stamped :: "nat \<Rightarrow> agent_evidence list \<Rightarrow> bool" where
  "stamped step items \<longleftrightarrow> distinct (map evidence_id items)
     \<and> (\<forall>i \<in> set items. \<exists>rest. evidence_id i = 84 # dec_digits step @ 45 # rest)"

lemma digits_dash: "dec_digits m @ 45 # s = dec_digits n @ 45 # t \<Longrightarrow> m = n \<and> s = t"
proof -
  assume eq: "dec_digits m @ 45 # s = dec_digits n @ 45 # t"
  have split: "split_on 45 (dec_digits k @ 45 # u) = dec_digits k # split_on 45 u" for k u
    by (rule split_on_append) (use dec_digits_range [of _ k] in force)
  from arg_cong [OF eq, of "split_on 45"] have "dec_digits m = dec_digits n" by (simp add: split)
  then show ?thesis using eq dec_digits_inj by simp
qed

lemma step_id_eq [simp]:
  "step_id k kind p = 84 # dec_digits k @ 45 # py kind @ dec_digits p"
  by (simp add: step_id_def py_def)

text \<open>
  The contract of a tool: what it returns at a step is stamped with the step. Then the evidence of
  different steps never shares an id.
\<close>

definition earlier :: "nat \<Rightarrow> agent_evidence list \<Rightarrow> bool" where
  "earlier n items \<longleftrightarrow> distinct (map evidence_id items)
     \<and> (\<forall>i \<in> set items. \<exists>k rest. k \<le> n \<and> evidence_id i = 84 # dec_digits k @ 45 # rest)"

lemma earlierD:
  "earlier n items \<Longrightarrow> i \<in> set items \<Longrightarrow> \<exists>k rest. k \<le> n \<and> evidence_id i = 84 # dec_digits k @ 45 # rest"
  unfolding earlier_def by (elim conjE bspec)

lemma stampedD: "stamped n items \<Longrightarrow> i \<in> set items \<Longrightarrow> \<exists>rest. evidence_id i = 84 # dec_digits n @ 45 # rest"
  unfolding stamped_def by (elim conjE bspec)

lemma stamped_earlier: "stamped n items \<Longrightarrow> earlier n items"
  unfolding earlier_def stamped_def by (intro conjI ballI) (iprover, iprover intro: order_refl dest: bspec)

lemma earlier_mono: "earlier m items \<Longrightarrow> m \<le> n \<Longrightarrow> earlier n items"
  unfolding earlier_def by (intro conjI ballI) (iprover, iprover intro: order_trans dest: bspec)

lemma earlier_append:
  "earlier n xs \<Longrightarrow> earlier n ys \<Longrightarrow> (\<And>i j. i \<in> set xs \<Longrightarrow> j \<in> set ys \<Longrightarrow> evidence_id i \<noteq> evidence_id j) \<Longrightarrow>
    earlier n (xs @ ys)"
proof -
  assume xs: "earlier n xs" and ys: "earlier n ys"
    and apart: "\<And>i j. i \<in> set xs \<Longrightarrow> j \<in> set ys \<Longrightarrow> evidence_id i \<noteq> evidence_id j"
  have "evidence_id ` set xs \<inter> evidence_id ` set ys = {}" using apart by blast
  then have "distinct (map evidence_id (xs @ ys))"
    using xs ys by (simp add: earlier_def)
  moreover have "\<exists>k rest. k \<le> n \<and> evidence_id i = 84 # dec_digits k @ 45 # rest" if "i \<in> set (xs @ ys)" for i
    using that earlierD [OF xs] earlierD [OF ys] by (simp only: set_append Un_iff) (elim disjE)
  ultimately show ?thesis unfolding earlier_def by blast
qed

locale evidence_tool =
  fixes execute :: "'io \<Rightarrow> nat \<Rightarrow> tool_failure + agent_evidence list"
  assumes stamps: "execute io step = Inr items \<Longrightarrow> stamped step items"
begin

lemma extends:
  assumes "execute io (Suc n) = Inr items" and "earlier n held"
  shows "earlier (Suc n) (held @ items)"
proof -
  have st: "stamped (Suc n) items" by (rule stamps [OF assms(1)])
  show ?thesis
  proof (rule earlier_append [OF earlier_mono [OF assms(2)] stamped_earlier [OF st]])
    fix i j assume i: "i \<in> set held" and j: "j \<in> set items"
    obtain k rest where "k \<le> n" "evidence_id i = 84 # dec_digits k @ 45 # rest"
      using earlierD [OF assms(2) i] by blast
    moreover obtain rest' where "evidence_id j = 84 # dec_digits (Suc n) @ 45 # rest'"
      using stampedD [OF st j] by blast
    ultimately show "evidence_id i \<noteq> evidence_id j" using digits_dash [of k rest "Suc n" rest'] by auto
  qed simp
qed

end

lemma enumerate_ids:
  assumes "\<And>p x. evidence_id (f p x) = 84 # dec_digits step @ 45 # kind @ dec_digits p"
  shows "stamped step (map (\<lambda>(p, x). f p x) (enumerate n xs))"
proof -
  have "map evidence_id (map (\<lambda>(p, x). f p x) (enumerate n xs))
      = map (\<lambda>p. 84 # dec_digits step @ 45 # kind @ dec_digits p) [n..<n + length xs]"
    by (rule nth_equalityI) (auto simp: assms nth_enumerate_eq)
  then have "distinct (map evidence_id (map (\<lambda>(p, x). f p x) (enumerate n xs)))"
    by (simp only: distinct_map) (auto simp: inj_on_def dec_digits_inj)
  then show ?thesis unfolding stamped_def by (auto simp: assms)
qed

interpretation search_tool: evidence_tool "\<lambda>(io, ctx, args) step. search_code D E Q G io ctx args step" for D E Q G
proof
  fix io :: "search_answers \<times> active_repository_context \<times> agent_tool_arguments" and step items
  assume found: "(case io of (io, ctx, args) \<Rightarrow> \<lambda>step. search_code D E Q G io ctx args step) step = Inr items"
  have "stamped step (map (\<lambda>(p, x). Code_Evidence (x\<lparr>ev_evidence_id := step_id step ''C'' p\<rparr>)) (enumerate 1 xs))" for xs
    by (rule enumerate_ids [where kind = "py ''C''"]) simp
  with found show "stamped step items"
    by (auto simp: search_code_def split: prod.splits if_splits sum.splits)
qed

text \<open>The ids of a history result, by the position of the commit and of the pull request in it.\<close>

definition history_id :: "nat \<Rightarrow> nat \<times> nat \<Rightarrow> pystr" where
  "history_id step key = (case key of (p, q) \<Rightarrow>
     84 # dec_digits step @ 45 # (if q = 0 then 72 # dec_digits p else 80 # dec_digits p @ 45 # dec_digits q))"

lemma history_id_inj: "inj (history_id step)"
proof (rule injI, clarify)
  fix p q p' q' assume "history_id step (p, q) = history_id step (p', q')"
  then show "p = p' \<and> q = q'"
    by (auto simp: history_id_def split: if_splits dest: digits_dash dec_digits_inj)
qed

definition bundle_keys :: "history_bundle \<Rightarrow> nat list" where
  "bundle_keys b = (if commit_date (hb_commit b) = None then [] else [0..<Suc (length (hb_pull_requests b))])"

lemma bundle_ids: "map evidence_id (bundle_evidence H step p b) = map (\<lambda>q. history_id step (p, q)) (bundle_keys b)"
proof -
  have pulls: "map (evidence_id \<circ> (\<lambda>(q, x). Pull_Evidence (pull_evidence_of H step p files q x))) (enumerate 1 xs)
      = map (\<lambda>q. history_id step (p, q)) (map Suc [0..<length xs])" for files xs
    by (rule nth_equalityI) (simp_all add: nth_enumerate_eq pull_evidence_of_def history_id_def py_def)
  have "[0..<Suc n] = 0 # map Suc [0..<n]" for n by (simp add: map_Suc_upt upt_conv_Cons)
  then show ?thesis
    using pulls by (auto simp: bundle_evidence_def bundle_keys_def Let_def history_id_def py_def split: option.split)
qed

lemma positions_distinct:
  "distinct (concat (map (\<lambda>(p, b). map (Pair p) (f b)) (enumerate n xs)))
    \<and> (\<forall>k \<in> set (concat (map (\<lambda>(p, b). map (Pair p) (f b)) (enumerate n xs))). n \<le> fst k)"
  if "\<And>b. distinct (f b)"
proof (induction xs arbitrary: n)
  case (Cons x xs)
  from Cons.IH [of "Suc n"] that show ?case
    by (auto simp: distinct_map inj_on_def in_set_enumerate_eq dest: Suc_le_lessD)
qed simp

lemma history_stamped: "stamped step (history_evidence casefold H question step bundles)"
proof -
  let ?es = "enumerate 1 (rank_bundles casefold question bundles)"
  let ?keys = "concat (map (\<lambda>(p, b). map (Pair p) (bundle_keys b)) ?es)"
  have "map evidence_id (concat (map (\<lambda>(p, b). bundle_evidence H step p b) es))
      = map (history_id step) (concat (map (\<lambda>(p, b). map (Pair p) (bundle_keys b)) es))" for es
    by (induction es) (auto simp: bundle_ids)
  then have ids: "map evidence_id (history_evidence casefold H question step bundles) = map (history_id step) ?keys"
    unfolding history_evidence_def by blast
  have "distinct ?keys" using positions_distinct [of bundle_keys 1] by (simp add: bundle_keys_def)
  then have "distinct (map evidence_id (history_evidence casefold H question step bundles))"
    unfolding ids using history_id_inj by (simp add: distinct_map inj_on_subset [OF _ subset_UNIV])
  moreover have "\<exists>rest. evidence_id i = 84 # dec_digits step @ 45 # rest"
    if "i \<in> set (history_evidence casefold H question step bundles)" for i
  proof -
    have "evidence_id i \<in> set (map (history_id step) ?keys)" unfolding ids [symmetric] using that by simp
    then show ?thesis by (auto simp: history_id_def)
  qed
  ultimately show ?thesis unfolding stamped_def by blast
qed

interpretation history_tool: evidence_tool
  "\<lambda>(now, github, ctx, args, db) step. get_history casefold A H now github ctx args step db" for casefold A H
  by unfold_locales (auto simp: get_history_def history_stamped split: if_splits sum.splits option.splits)

lemma caller_ids:
  "stamped step (map (\<lambda>(p, row). Caller_Evidence (caller_evidence_of step ver target p row)) (enumerate 1 rows))"
  by (rule enumerate_ids [where kind = "py ''G''"]) (simp add: caller_evidence_of_def split: prod.split)

lemma query_stamped:
  "query_callers collate limit answered repo ctx args step db = Inr items \<Longrightarrow> stamped step items"
proof -
  have "stamped step []" by (simp add: stamped_def)
  then show "query_callers collate limit answered repo ctx args step db = Inr items \<Longrightarrow> ?thesis"
    by (auto simp: query_callers_def Let_def caller_ids simp del: One_nat_def split: if_splits list.splits)
qed

interpretation callers_tool: evidence_tool
  "\<lambda>(now, lookup, peers, answered, ctx, args, db) step.
     fst (find_callers collate A now lookup peers limit answered ctx args step db)"
  for collate :: "pystr \<Rightarrow> 'k::linorder" and A limit
  by unfold_locales
    (auto simp: find_callers_def query_stamped split: prod.splits if_splits sum.splits access_error.splits)

text \<open>So every tool call extends the evidence of a run by evidence with new ids.\<close>

lemma execute_extends:
  assumes "execute_tool S io ctx tool args (Suc n) w = (Inr items, w')" and "earlier n held"
  shows "earlier (Suc n) (held @ items)"
proof (cases tool)
  case SEARCH_CODE
  with assms(1) have "search_code (ag_digests S) (ag_embedding S) (ag_vectors S) (ag_rag S) (ae_search io (Suc n)) ctx args (Suc n)
      = Inr items"
    by (simp add: execute_tool_def)
  then show ?thesis
    using search_tool.extends [of "ag_digests S" "ag_embedding S" "ag_vectors S" "ag_rag S" "(ae_search io (Suc n), ctx, args)" n items held]
      assms(2) by simp
next
  case GET_HISTORY
  let ?t = "aw_tick w"
  from GET_HISTORY assms(1) have "get_history (ag_casefold S) (ag_access S) (ag_history S) (ae_now io ?t)
      (ae_github io (Suc n)) ctx args (Suc n) (ae_peers io ?t (aw_db w)) = Inr items"
    by (simp add: execute_tool_def transact_def Let_def)
  then show ?thesis
    using history_tool.extends [of "ag_casefold S" "ag_access S" "ag_history S"
        "(ae_now io ?t, ae_github io (Suc n), ctx, args, ae_peers io ?t (aw_db w))" n items held] assms(2) by simp
next
  case FIND_CALLERS
  let ?t = "aw_tick w"
  from FIND_CALLERS assms(1) have "fst (find_callers (ag_collate S) (ag_access S) (ae_now io ?t) (ae_lookup io ?t)
      (ae_caller_peers io ?t) (ag_caller_result_limit S) (ae_callers_answered io (Suc n)) ctx args (Suc n)
      (ae_peers io ?t (aw_db w))) = Inr items"
    by (auto simp: execute_tool_def transact_def Let_def split: prod.splits)
  then show ?thesis
    using callers_tool.extends [of "ag_collate S" "ag_access S" "ag_caller_result_limit S"
        "(ae_now io ?t, ae_lookup io ?t, ae_caller_peers io ?t, ae_callers_answered io (Suc n), ctx, args,
          ae_peers io ?t (aw_db w))" n items held] assms(2) by simp
qed

section \<open>Where evidence comes from\<close>

text \<open>
  Code evidence is the text of a stored point of the scope of the repository at the version and commit;
  caller evidence is of that version and commit.
\<close>

fun found_in :: "repository \<Rightarrow> nat \<Rightarrow> string \<Rightarrow> agent_evidence \<Rightarrow> bool" where
  "found_in r ver commit_sha (Code_Evidence e) \<longleftrightarrow>
     (\<exists>scope p. vector_scope_for_repository r ver = Inr scope \<and> in_scope scope p
       \<and> get p ''commit_sha'' = P_Str (py commit_sha) \<and> get p ''file_path'' = P_Str (ev_file_path e)
       \<and> get p ''start_line'' = P_Int (ev_start_line e) \<and> get p ''end_line'' = P_Int (ev_end_line e)
       \<and> get p ''content'' = P_Str (ev_content e))"
| "found_in r ver commit_sha (Caller_Evidence e) \<longleftrightarrow> ca_commit_sha e = commit_sha \<and> ca_index_version e = ver"
| "found_in r ver commit_sha (Commit_Evidence e) \<longleftrightarrow> True"
| "found_in r ver commit_sha (Pull_Evidence e) \<longleftrightarrow> True"

lemma found_in_identity:
  assumes "same_identity r r'"
  shows "found_in r ver commit_sha i \<Longrightarrow> found_in r' ver commit_sha i"
proof -
  have "vector_scope_for_repository r ver = vector_scope_for_repository r' ver"
    using assms by (simp add: vector_scope_for_repository_def same_identity_def)
  then show "found_in r ver commit_sha i \<Longrightarrow> found_in r' ver commit_sha i" by (cases i) simp_all
qed

lemma map_enumerateE:
  assumes "i \<in> set (map (\<lambda>(p, x). f p x) (enumerate n xs))"
  obtains p x where "x \<in> set xs" and "i = f p x"
  using assms by (auto simp: enumerate_eq_zip dest: set_zip_rightD)

lemma parse_retrieval_hitD:
  assumes "parse_retrieval_hit s commit_sha model policy point = Inr hit"
  shows "in_scope s (snd point) \<and> get (snd point) ''commit_sha'' = P_Str (py commit_sha)
    \<and> get (snd point) ''file_path'' = P_Str (rh_file_path hit)
    \<and> get (snd point) ''start_line'' = P_Int (rh_start_line hit)
    \<and> get (snd point) ''end_line'' = P_Int (rh_end_line hit)
    \<and> get (snd point) ''content'' = P_Str (rh_content hit)"
  using assms
  by (simp add: parse_retrieval_hit_def Let_def split: component.splits payload_value.splits if_splits) auto

lemma select_evidence_member:
  assumes "e \<in> set (select_evidence G hits)" and "0 < rg_retrieval_top_k G"
  obtains hit eid where "hit \<in> set hits" and "e = evidence_of eid hit"
proof -
  have "subseq (select_hits G hits) (sort_key hit_order hits)"
    using greedy_selection [OF assms(2)] by blast
  then have sub: "set (select_hits G hits) \<subseteq> set hits" by (auto elim: list_emb_set)
  from assms(1) obtain p x where "x \<in> set (select_hits G hits)" "e = evidence_of (69 # dec_digits p) x"
    unfolding select_evidence_def by (rule map_enumerateE)
  with that sub show thesis by blast
qed

lemma searched_hit:
  assumes "search Q answers scope v commit_sha model policy = Inr hits" and "hit \<in> set hits"
  shows "\<exists>p. in_scope scope p \<and> get p ''commit_sha'' = P_Str (py commit_sha)
    \<and> get p ''file_path'' = P_Str (rh_file_path hit)
    \<and> get p ''start_line'' = P_Int (rh_start_line hit)
    \<and> get p ''end_line'' = P_Int (rh_end_line hit) \<and> get p ''content'' = P_Str (rh_content hit)"
proof -
  from assms(1) obtain points where "sequence_map (parse_retrieval_hit scope commit_sha model policy) points = Inr hits"
    by (auto simp: search_def split: if_splits sum.splits)
  then have rows: "list_all2 (\<lambda>x y. parse_retrieval_hit scope commit_sha model policy x = Inr y) points hits"
    by (simp only: sequence_map_Inr)
  obtain n where "n < length hits" "hits ! n = hit" using assms(2) by (auto simp: in_set_conv_nth)
  with list_all2_nthD2 [OF rows] obtain point where "parse_retrieval_hit scope commit_sha model policy point = Inr hit"
    by blast
  from parse_retrieval_hitD [OF this] show ?thesis by blast
qed

lemma search_code_found:
  assumes "search_code D E Q G io ctx args step = Inr items" and "0 < rg_retrieval_top_k G"
    and "i \<in> set items"
  shows "found_in (ac_repository ctx) (ac_index_version ctx) (ac_commit_sha ctx) i"
proof -
  from assms(1) obtain scope v hits where scope: "vector_scope_for_repository (ac_repository ctx) (ac_index_version ctx) = Inr scope"
    and hits: "search Q (sa_points io) scope v (ac_commit_sha ctx)
        (embedding_model_fingerprint D E (ac_preprocessing_fingerprint ctx)) (ac_preprocessing_fingerprint ctx) = Inr hits"
    and items: "items = map (\<lambda>(position, item). Code_Evidence (item\<lparr>ev_evidence_id := step_id step ''C'' position\<rparr>))
        (enumerate 1 (select_evidence G hits))"
    by (auto simp: search_code_def simp del: step_id_eq split: if_splits sum.splits)
  from assms(3) obtain e p where e: "e \<in> set (select_evidence G hits)"
    and i: "i = Code_Evidence (e\<lparr>ev_evidence_id := step_id step ''C'' p\<rparr>)"
    unfolding items by (rule map_enumerateE)
  from select_evidence_member [OF e assms(2)] obtain hit eid where hit: "hit \<in> set hits" "e = evidence_of eid hit" .
  from searched_hit [OF hits hit(1)] obtain p' where "in_scope scope p'"
    "get p' ''commit_sha'' = P_Str (py (ac_commit_sha ctx))" "get p' ''file_path'' = P_Str (rh_file_path hit)"
    "get p' ''start_line'' = P_Int (rh_start_line hit)" "get p' ''end_line'' = P_Int (rh_end_line hit)"
    "get p' ''content'' = P_Str (rh_content hit)" by blast
  with scope i hit(2) show ?thesis by (auto simp: evidence_of_def simp del: step_id_eq)
qed

text \<open>What a successful query read.\<close>

lemma query_callersD:
  assumes "query_callers collate limit answered repo ctx args step db = Inr items"
  obtains (none) "items = []" and "matching_symbols repo (ac_index_version ctx) (ac_commit_sha ctx)
      (the (aa_symbol_name args)) (aa_file_path args) db = []"
  | (one) target rows where "matching_symbols repo (ac_index_version ctx) (ac_commit_sha ctx)
      (the (aa_symbol_name args)) (aa_file_path args) db = [target]"
    and "rows = take limit (sort_key (caller_order collate)
      (calls_of repo (ac_index_version ctx) (ac_commit_sha ctx) target db))"
    and "items = map (\<lambda>(p, row). Caller_Evidence (caller_evidence_of step (ac_index_version ctx) (sd_symbol target) p row))
      (enumerate 1 rows)"
proof -
  let ?m = "matching_symbols repo (ac_index_version ctx) (ac_commit_sha ctx)
      (the (aa_symbol_name args)) (aa_file_path args) db"
  show thesis
  proof (cases ?m)
    case Nil
    with assms none show thesis
      by (auto simp: query_callers_def Let_def caller_targets_def split: if_splits)
  next
    case (Cons t ts)
    show thesis
    proof (cases ts)
      case Nil
      with Cons have m: "?m = [t]" by simp
      then have "caller_targets collate repo (ac_index_version ctx) (ac_commit_sha ctx)
          (the (aa_symbol_name args)) (aa_file_path args) db = [t]"
        by (simp add: caller_targets_def)
      with assms one [OF m refl] show thesis
        by (simp add: query_callers_def Let_def split: if_splits)
    next
      case (Cons u us)
      with \<open>?m = t # ts\<close> have "length (caller_targets collate repo (ac_index_version ctx) (ac_commit_sha ctx)
          (the (aa_symbol_name args)) (aa_file_path args) db) = 2"
        unfolding caller_targets_def by simp
      then obtain a b where "caller_targets collate repo (ac_index_version ctx) (ac_commit_sha ctx)
          (the (aa_symbol_name args)) (aa_file_path args) db = [a, b]"
        by (auto simp: numeral_2_eq_2 length_Suc_conv)
      with assms show thesis by (simp add: query_callers_def Let_def split: if_splits)
    qed
  qed
qed

lemma caller_row_found:
  "row \<in> set (calls_of repo ver commit_sha target db) \<Longrightarrow>
    found_in r ver commit_sha (Caller_Evidence (caller_evidence_of step ver symbol p row))"
  by (auto simp: calls_of_def caller_evidence_of_def)

lemma find_callers_found:
  assumes "find_callers collate A now lookup peers limit answered ctx args step db = (Inr items, db')" and "i \<in> set items"
  shows "found_in r (ac_index_version ctx) (ac_commit_sha ctx) i"
proof -
  from assms(1) obtain repo where
    "query_callers collate limit answered repo ctx args step (peers (snd (get_authorized_repository A now
       (ac_user_id ctx) (repo_id (ac_repository ctx)) True lookup db))) = Inr items"
    by (auto simp: find_callers_def split: prod.splits if_splits sum.splits access_error.splits)
  then show ?thesis
  proof (cases rule: query_callersD)
    case none
    with assms(2) show ?thesis by simp
  next
    case (one target rows)
    from assms(2) obtain p row where "row \<in> set rows"
      and i: "i = Caller_Evidence (caller_evidence_of step (ac_index_version ctx) (sd_symbol target) p row)"
      unfolding one(3) by (rule map_enumerateE)
    from \<open>row \<in> set rows\<close> have "row \<in> set (calls_of repo (ac_index_version ctx) (ac_commit_sha ctx) target
        (peers (snd (get_authorized_repository A now (ac_user_id ctx) (repo_id (ac_repository ctx)) True lookup db))))"
      unfolding one(2) by (auto dest: in_set_takeD)
    then show ?thesis unfolding i by (rule caller_row_found)
  qed
qed

section \<open>The invariant of the loop\<close>

definition run_inv :: "agent_settings \<Rightarrow> repository \<Rightarrow> active_index \<Rightarrow> agent_run \<Rightarrow> bool" where
  "run_inv S r active run \<longleftrightarrow>
     same_identity (ar_repository run) r
     \<and> earlier (length (ar_trace run)) (ar_evidence run)
     \<and> list_all (found_in r (ai_index_version active) (ai_commit_sha active)) (ar_evidence run)
     \<and> length (ar_trace run) \<le> ag_max_tool_calls S
     \<and> map tr_step (ar_trace run) = [1..<Suc (length (ar_trace run))]
     \<and> length (ar_evidence run) = sum_list (map tr_result_count (ar_trace run))
     \<and> ar_total_evidence_bytes run \<le> ag_max_total_evidence_bytes S"

lemma execute_found:
  assumes "execute_tool S io (context_of_run user question active current) tool args step w = (Inr items, w')"
    and "0 < rg_retrieval_top_k (ag_rag S)"
  shows "list_all (found_in current (ai_index_version active) (ai_commit_sha active)) items"
proof (unfold list_all_iff, rule ballI)
  fix i assume i: "i \<in> set items"
  let ?ctx = "context_of_run user question active current"
  have ctx: "ac_repository ?ctx = current" "ac_index_version ?ctx = ai_index_version active"
    "ac_commit_sha ?ctx = ai_commit_sha active" by (simp_all add: context_of_run_def)
  show "found_in current (ai_index_version active) (ai_commit_sha active) i"
  proof (cases tool)
    case SEARCH_CODE
    with assms(1) have "search_code (ag_digests S) (ag_embedding S) (ag_vectors S) (ag_rag S) (ae_search io step)
        ?ctx args step = Inr items"
      by (simp add: execute_tool_def)
    from search_code_found [OF this assms(2) i] show ?thesis by (simp add: ctx)
  next
    case GET_HISTORY
    with assms(1) obtain bundles where "items = history_evidence (ag_casefold S) (ag_history S) (ac_original_question ?ctx) step bundles"
      by (auto simp: execute_tool_def transact_def Let_def get_history_def split: if_splits sum.splits option.splits)
    with i show ?thesis
      by (auto simp: history_evidence_def bundle_evidence_def Let_def split: option.splits)
  next
    case FIND_CALLERS
    let ?t = "aw_tick w"
    from FIND_CALLERS assms(1) obtain db' where "find_callers (ag_collate S) (ag_access S) (ae_now io ?t) (ae_lookup io ?t)
        (ae_caller_peers io ?t) (ag_caller_result_limit S) (ae_callers_answered io step) ?ctx args step
        (ae_peers io ?t (aw_db w)) = (Inr items, db')"
      by (auto simp: execute_tool_def transact_def Let_def split: prod.splits)
    from find_callers_found [OF this i] show ?thesis by (simp add: ctx)
  qed
qed

lemma refresh_same:
  "refresh_authorization S io user repo expected active w = (Inr (Some current), w') \<Longrightarrow> same_identity current expected"
  by (auto simp: refresh_authorization_def split: prod.splits sum.splits if_splits)

lemma same_identity_trans: "same_identity a b \<Longrightarrow> same_identity b c \<Longrightarrow> same_identity a c"
  by (simp add: same_identity_def)

lemma run_inv_repository: "run_inv S r active run \<Longrightarrow> same_identity current (ar_repository run) \<Longrightarrow>
    run_inv S r active (run\<lparr>ar_repository := current\<rparr>)"
  unfolding run_inv_def by (auto intro: same_identity_trans)

lemma run_inv_fingerprints [simp]: "run_inv S r active (run\<lparr>ar_fingerprints := F\<rparr>) = run_inv S r active run"
  by (simp add: run_inv_def)

lemma run_inv_failed:
  assumes "run_inv S r active run" and "length (ar_trace run) < ag_max_tool_calls S"
  shows "run_inv S r active (call_failed io (Suc (length (ar_trace run))) tool fp status code run)"
  using assms earlier_mono [of "length (ar_trace run)" "ar_evidence run" "Suc (length (ar_trace run))"]
  by (simp add: run_inv_def call_failed_def trace_step_def)

lemma run_inv_completed:
  assumes "run_inv S r active run" and "length (ar_trace run) < ag_max_tool_calls S"
    and "earlier (Suc (length (ar_trace run))) (ar_evidence run @ items)"
    and "list_all (found_in r (ai_index_version active) (ai_commit_sha active)) items"
    and "size_failure S encoded (ar_total_evidence_bytes run) = None"
  shows "run_inv S r active (call_completed io (Suc (length (ar_trace run))) tool fp items encoded run)"
  using assms by (simp add: run_inv_def call_completed_def trace_step_def size_failure_def split: if_splits)

lemma call_tool_goes_on:
  assumes "call_tool S io user repo question active tool args run w = (Goes_On run', w')"
  obtains current w1 run2 where
    "refresh_authorization S io user repo (ar_repository run) active w = (Inr (Some current), w1)"
    and "run2 = run\<lparr>ar_fingerprints := insert (safe_argument_fingerprint (ag_digests S) tool args) (ar_fingerprints run),
      ar_repository := current\<rparr>"
    and "(\<exists>status code. run' = call_failed io (Suc (length (ar_trace run)))
        tool (safe_argument_fingerprint (ag_digests S) tool args) status code run2)
      \<or> (\<exists>items w2. execute_tool S io (context_of_run user question active current) tool
          (case args of None \<Rightarrow> no_arguments | Some a \<Rightarrow> a) (Suc (length (ar_trace run))) w1 = (Inr items, w2)
        \<and> size_failure S (encoded_size S items) (ar_total_evidence_bytes run2) = None
        \<and> run' = call_completed io (Suc (length (ar_trace run))) tool (safe_argument_fingerprint (ag_digests S) tool args)
            items (encoded_size S items) run2)"
proof -
  from assms obtain current w1 where r:
    "refresh_authorization S io user repo (ar_repository run) active w = (Inr (Some current), w1)"
    by (auto simp: call_tool_def Let_def split: if_splits prod.splits sum.splits option.splits)
  obtain outcome w2 where e: "execute_tool S io (context_of_run user question active current) tool
      (case args of None \<Rightarrow> no_arguments | Some a \<Rightarrow> a) (Suc (length (ar_trace run))) w1 = (outcome, w2)"
    by fastforce
  show thesis
    by (rule that [OF r refl])
      (use assms r e in \<open>auto simp: call_tool_def Let_def
        split: if_splits sum.splits option.splits tool_failure.splits indexing_error.splits\<close>)
qed

lemma call_tool_inv:
  assumes "call_tool S io user repo question active tool args run w = (Goes_On run', w')"
    and inv: "run_inv S r active run" and room: "length (ar_trace run) < ag_max_tool_calls S"
    and top: "0 < rg_retrieval_top_k (ag_rag S)"
  shows "run_inv S r active run'"
  using assms(1)
proof (cases rule: call_tool_goes_on)
  case (1 current w1 run2)
  have same: "same_identity current r"
    using refresh_same [OF 1(1)] inv unfolding run_inv_def by (blast intro: same_identity_trans)
  have inv2: "run_inv S r active run2"
    unfolding 1(2) using run_inv_repository [of S r active "run\<lparr>ar_fingerprints := F\<rparr>" current for F]
      refresh_same [OF 1(1)] inv by simp
  have parts: "ar_trace run2 = ar_trace run" "ar_evidence run2 = ar_evidence run" by (simp_all add: 1(2))
  note room2 = room [folded parts]
  from 1(3) show ?thesis
  proof (elim disjE exE conjE)
    fix status code assume "run' = call_failed io (Suc (length (ar_trace run))) tool
        (safe_argument_fingerprint (ag_digests S) tool args) status code run2"
    then show ?thesis using run_inv_failed [OF inv2 room2] by (simp add: parts)
  next
    fix items w2
    assume exec: "execute_tool S io (context_of_run user question active current) tool
          (case args of None \<Rightarrow> no_arguments | Some a \<Rightarrow> a) (Suc (length (ar_trace run))) w1 = (Inr items, w2)"
      and sized: "size_failure S (encoded_size S items) (ar_total_evidence_bytes run2) = None"
      and run': "run' = call_completed io (Suc (length (ar_trace run))) tool
        (safe_argument_fingerprint (ag_digests S) tool args) items (encoded_size S items) run2"
    have "list_all (found_in r (ai_index_version active) (ai_commit_sha active)) items"
      using execute_found [OF exec top] found_in_identity [OF same] by (auto simp: list_all_iff)
    moreover have "earlier (Suc (length (ar_trace run2))) (ar_evidence run2 @ items)"
      using execute_extends [OF exec] inv unfolding parts run_inv_def by blast
    ultimately show ?thesis using run_inv_completed [OF inv2 room2 _ _ sized] run' by (simp add: parts)
  qed
qed

lemma iterate_inv:
  assumes "iterate S io user repo question active run w = (Goes_On run', w')"
    and inv: "run_inv S r active run" and room: "length (ar_trace run) < ag_max_tool_calls S"
    and top: "0 < rg_retrieval_top_k (ag_rag S)"
  shows "run_inv S r active run'"
proof -
  have decided: "run_inv S r active run'"
    if d: "decide S io user repo question active run1 w1 = (Goes_On run', w')" and "run_inv S r active run1"
      and "length (ar_trace run1) < ag_max_tool_calls S" for run1 w1
  proof -
    from d obtain tool args where "call_tool S io user repo question active tool args run1 w1 = (Goes_On run', w')"
      by (auto simp: decide_def split: provider_answer.splits if_splits option.splits prod.splits)
    from call_tool_inv [OF this that(2,3) top] show ?thesis .
  qed
  show ?thesis
  proof (cases "ar_evidence run = []")
    case True
    with assms(1) have "decide S io user repo question active run w = (Goes_On run', w')" by (simp add: iterate_def)
    from decided [OF this inv room] show ?thesis .
  next
    case False
    with assms(1) obtain current w1 where
      refreshed: "refresh_authorization S io user repo (ar_repository run) active w = (Inr (Some current), w1)"
      and d: "decide S io user repo question active (run\<lparr>ar_repository := current\<rparr>) w1 = (Goes_On run', w')"
      by (auto simp: iterate_def split: prod.splits sum.splits option.splits)
    from decided [OF d run_inv_repository [OF inv refresh_same [OF refreshed]]] room show ?thesis by simp
  qed
qed

text \<open>The loop ends in a run that satisfies the invariant, with an iteration that stops or without room.\<close>

lemma agent_loop_ends:
  assumes "agent_loop S io user repo question active run w = (out, w')"
    and "run_inv S r active run" and "0 < rg_retrieval_top_k (ag_rag S)"
  shows "(\<exists>run1 w1. run_inv S r active run1 \<and> length (ar_trace run1) < ag_max_tool_calls S
      \<and> iterate S io user repo question active run1 w1 = (out, w') \<and> (\<forall>run'. out \<noteq> Goes_On run'))
    \<or> (\<exists>run1. run_inv S r active run1 \<and> length (ar_trace run1) = ag_max_tool_calls S \<and> out = Left_Loop run1)"
  using assms
proof (induction S io user repo question active run w rule: agent_loop.induct)
  case (1 S io user repo question active run w)
  note step = agent_loop.simps [of S io user repo question active run w]
  show ?case
  proof (cases "length (ar_trace run) < ag_max_tool_calls S")
    case True
    obtain o1 w1 where it: "iterate S io user repo question active run w = (o1, w1)" by fastforce
    show ?thesis
    proof (cases o1)
      case (Goes_On run')
      with it True "1.prems"(1) have "agent_loop S io user repo question active run' w1 = (out, w')"
        by (simp add: step)
      from "1.IH" [OF True it [symmetric] Goes_On this iterate_inv [OF it [unfolded Goes_On] "1.prems"(2) True "1.prems"(3)] "1.prems"(3)]
      show ?thesis .
    next
      case (Returned_Run x)
      with it True "1.prems"(1) have "out = o1" "w' = w1" by (simp_all add: step)
      with it True "1.prems"(2) Returned_Run show ?thesis by blast
    next
      case (Left_Loop run2)
      with it True "1.prems"(1) have "out = o1" "w' = w1" by (simp_all add: step)
      with it True "1.prems"(2) Left_Loop show ?thesis by blast
    qed
  next
    case False
    with "1.prems"(1,2) show ?thesis by (auto simp: step run_inv_def)
  qed
qed

section \<open>What a run returns\<close>

definition refusal :: "agent_run_result \<Rightarrow> bool" where
  "refusal r \<longleftrightarrow> rr_evidence r = [] \<and> rr_cited_evidence_ids r = []
     \<and> (rr_answerability r = INSUFFICIENT_EVIDENCE \<and> rr_answer r = insufficient_text
       \<or> rr_answerability r = UNSUPPORTED_QUESTION \<and> rr_answer r = unsupported_text
       \<or> rr_answerability r = TEMPORARILY_UNAVAILABLE \<and> rr_answer r = unavailable_text)"

lemma no_answer_refusal:
  "state = INSUFFICIENT_EVIDENCE \<or> state = UNSUPPORTED_QUESTION \<or> state = TEMPORARILY_UNAVAILABLE \<Longrightarrow>
    refusal (no_answer io repo state active row evidence_count trace)"
  "rr_trace (no_answer io repo state active row evidence_count trace) = trace"
  by (auto simp: refusal_def no_answer_def)

lemma gave_up_refusal: "refusal (gave_up io repo active run)" "rr_trace (gave_up io repo active run) = ar_trace run"
  by (simp_all add: gave_up_def no_answer_refusal)

lemma by_id_known: "by_id key items i = None \<longleftrightarrow> i \<notin> key ` set items"
  by (auto simp: by_id_def map_of_eq_None_iff image_image)

lemma set_first_occurrences [simp]: "set (first_occurrences xs) = set xs"
  by (simp add: first_occurrences_def)

lemma first_occurrences_Nil [simp]: "first_occurrences xs = [] \<longleftrightarrow> xs = []"
  by (metis set_empty set_first_occurrences)

lemma finalizeD:
  assumes "finalize S io user repo active run text state uncertainty cited w = (Inr r, w')"
  shows "refusal r \<or> (\<exists>final w1. authorize S io user repo w = (Inr final, w1)
      \<and> load_active_index S io final w1 = (Some active, w') \<and> repo_id final = repo_id (ar_repository run)
      \<and> rr_answerability r = state \<and> rr_evidence r = ar_evidence run
      \<and> rr_commit_sha r = Some (ai_commit_sha active) \<and> rr_index_version r = ai_index_version active
      \<and> (state = ANSWERED \<or> state = PARTIALLY_ANSWERED \<longrightarrow> cited \<noteq> [] \<and> set cited \<subseteq> evidence_id ` set (ar_evidence run)
          \<and> rr_cited_evidence_ids r = filter (\<lambda>i. i \<in> set cited) (map evidence_id (ar_evidence run))))"
    and "rr_trace r = ar_trace run"
proof -
  from assms obtain final w1 where auth: "authorize S io user repo w = (Inr final, w1)"
    by (auto simp: finalize_def split: prod.splits sum.splits)
  obtain current w2 where load: "load_active_index S io final w1 = (current, w2)" by fastforce
  note fin = assms [unfolded finalize_def auth load prod.case sum.case]
  show "rr_trace r = ar_trace run"
    using fin by (auto simp: no_answer_refusal Let_def split: if_splits)
  show "refusal r \<or> (\<exists>final w1. authorize S io user repo w = (Inr final, w1)
      \<and> load_active_index S io final w1 = (Some active, w') \<and> repo_id final = repo_id (ar_repository run)
      \<and> rr_answerability r = state \<and> rr_evidence r = ar_evidence run
      \<and> rr_commit_sha r = Some (ai_commit_sha active) \<and> rr_index_version r = ai_index_version active
      \<and> (state = ANSWERED \<or> state = PARTIALLY_ANSWERED \<longrightarrow> cited \<noteq> [] \<and> set cited \<subseteq> evidence_id ` set (ar_evidence run)
          \<and> rr_cited_evidence_ids r = filter (\<lambda>i. i \<in> set cited) (map evidence_id (ar_evidence run))))"
  proof (cases "refusal r")
    case False
    then have "repo_id final = repo_id (ar_repository run)" "current = Some active" "w2 = w'"
      using fin by (auto simp: no_answer_refusal Let_def split: if_splits)
    with False fin auth load show ?thesis
      by (auto simp: no_answer_refusal by_id_known list_ex_iff Let_def split: if_splits)
  qed simp
qed

lemma iterate_returns:
  assumes "iterate S io user repo question active run w = (Returned_Run (Inr r), w')" and inv: "run_inv S r0 active run"
  shows "(refusal r \<or> (\<exists>run1 w1 text state uncertainty cited. run_inv S r0 active run1
      \<and> finalize S io user repo active run1 text state uncertainty cited w1 = (Inr r, w')))
    \<and> rr_trace r = ar_trace run"
proof -
  have decided: "(refusal r \<or> (\<exists>run2 w2 text state uncertainty cited. run_inv S r0 active run2
      \<and> finalize S io user repo active run2 text state uncertainty cited w2 = (Inr r, w'))) \<and> rr_trace r = ar_trace run1"
    if d: "decide S io user repo question active run1 w1 = (Returned_Run (Inr r), w')" and inv1: "run_inv S r0 active run1"
    for run1 w1
  proof -
    from d consider (gave) "r = gave_up io repo active run1"
      | (final) said state uncertainty cited where
          "finalize S io user repo active run1 said state uncertainty cited w1 = (Inr r, w')"
      | (tool) tool args where "call_tool S io user repo question active tool args run1 w1 = (Returned_Run (Inr r), w')"
      by (auto simp: decide_def split: provider_answer.splits if_splits option.splits prod.splits)
    then show ?thesis
    proof cases
      case gave
      then show ?thesis by (simp add: gave_up_refusal)
    next
      case final
      from finalizeD(2) [OF final] final inv1 show ?thesis by blast
    next
      case tool
      then obtain F where "r = gave_up io repo active (run1\<lparr>ar_fingerprints := F\<rparr>)"
        by (auto simp: call_tool_def Let_def split: if_splits prod.splits sum.splits option.splits tool_failure.splits
            indexing_error.splits)
      then show ?thesis by (simp add: gave_up_refusal)
    qed
  qed
  show ?thesis
  proof (cases "ar_evidence run = []")
    case True
    with assms(1) have "decide S io user repo question active run w = (Returned_Run (Inr r), w')" by (simp add: iterate_def)
    from decided [OF this inv] show ?thesis .
  next
    case False
    with assms(1) consider (gave) "r = gave_up io repo active run"
      | (decide) current w1 where
          "refresh_authorization S io user repo (ar_repository run) active w = (Inr (Some current), w1)"
          "decide S io user repo question active (run\<lparr>ar_repository := current\<rparr>) w1 = (Returned_Run (Inr r), w')"
      by (auto simp: iterate_def split: prod.splits sum.splits option.splits)
    then show ?thesis
    proof cases
      case gave
      then show ?thesis by (simp add: gave_up_refusal)
    next
      case decide
      from decided [OF decide(2) run_inv_repository [OF inv refresh_same [OF decide(1)]]] show ?thesis by simp
    qed
  qed
qed

lemma start_inv:
  "run_inv S r active \<lparr>ar_repository = r, ar_evidence = [], ar_trace = [], ar_completed = [], ar_failed = [],
     ar_failure_codes = [], ar_fingerprints = {}, ar_total_evidence_bytes = 0\<rparr>"
  by (simp add: run_inv_def same_identity_def earlier_def)

text \<open>A run refuses, or it returns what the final check let through; its trace shows which.\<close>

lemma run_agent_returns:
  assumes "run_agent S io user repo question w = (Inr r, w')" and top: "0 < rg_retrieval_top_k (ag_rag S)"
  shows "(refusal r \<and> length (rr_trace r) \<le> ag_max_tool_calls S)
    \<or> (\<exists>r0 active w1 w2 run1 w3 said state uncertainty cited. authorize S io user repo w = (Inr r0, w1)
        \<and> load_active_index S io r0 w1 = (Some active, w2) \<and> run_inv S r0 active run1
        \<and> finalize S io user repo active run1 said state uncertainty cited w3 = (Inr r, w')
        \<and> length (rr_trace r) < ag_max_tool_calls S)"
proof -
  from assms(1) obtain r0 w1 where auth: "authorize S io user repo w = (Inr r0, w1)"
    by (auto simp: run_agent_def split: prod.splits sum.splits)
  obtain current w2 where load: "load_active_index S io r0 w1 = (current, w2)" by fastforce
  show ?thesis
  proof (cases "\<exists>active. current = Some active \<and> \<not> is_unsupported (ag_unicode S) question")
    case False
    then show ?thesis
      using assms(1) auth load by (auto simp: run_agent_def no_answer_refusal split: option.splits if_splits)
  next
    case True
    then obtain active where active: "current = Some active" and supported: "\<not> is_unsupported (ag_unicode S) question"
      by blast
    let ?run = "\<lparr>ar_repository = r0, ar_evidence = [], ar_trace = [], ar_completed = [], ar_failed = [],
       ar_failure_codes = [], ar_fingerprints = {}, ar_total_evidence_bytes = 0\<rparr>"
    obtain out w3 where ends: "agent_loop S io user repo question active ?run w2 = (out, w3)" by fastforce
    note result = assms(1) [unfolded run_agent_def auth load active prod.case sum.case option.case if_not_P [OF supported] ends]
    from agent_loop_ends [OF ends start_inv top] show ?thesis
    proof (elim disjE exE conjE)
      fix run1 w4 assume inv: "run_inv S r0 active run1" and room: "length (ar_trace run1) < ag_max_tool_calls S"
        and it: "iterate S io user repo question active run1 w4 = (out, w3)" and stop: "\<forall>run'. out \<noteq> Goes_On run'"
      show ?thesis
      proof (cases out)
        case (Returned_Run x)
        with result have "x = Inr r" "w3 = w'" by simp_all
        with it Returned_Run have "iterate S io user repo question active run1 w4 = (Returned_Run (Inr r), w')" by simp
        from iterate_returns [OF this inv] room auth load active show ?thesis by (metis less_imp_le)
      next
        case (Left_Loop run2)
        with it have "length (ar_trace run2) = Suc (length (ar_trace run1))"
          by (auto simp: iterate_def decide_def call_tool_def Let_def
              split: if_splits prod.splits sum.splits option.splits provider_answer.splits tool_failure.splits
                indexing_error.splits)
        with result Left_Loop room show ?thesis by (auto simp: no_answer_refusal)
      qed (use stop in blast)
    next
      fix run1 assume "length (ar_trace run1) = ag_max_tool_calls S" "out = Left_Loop run1"
      with result show ?thesis by (auto simp: no_answer_refusal)
    qed
  qed
qed


text \<open>
  C16: The agent makes at most the configured number of tool calls, and the evidence of the last one is
  never used: a run that made them all refuses to answer, whatever the calls found, because the model
  is not asked again. With the smallest setting allowed, one call, no question is ever answered.
\<close>

theorem agent_last_call_unused:
  assumes "run_agent S io user repo question w = (Inr r, w')" and "0 < rg_retrieval_top_k (ag_rag S)"
  shows "length (rr_trace r) \<le> ag_max_tool_calls S
    \<and> (length (rr_trace r) = ag_max_tool_calls S \<longrightarrow> refusal r)
    \<and> (ag_max_tool_calls S = 1 \<longrightarrow> rr_answerability r \<noteq> ANSWERED \<and> rr_answerability r \<noteq> PARTIALLY_ANSWERED)"
  using run_agent_returns [OF assms]
proof (elim disjE exE conjE)
  assume "refusal r" and "length (rr_trace r) \<le> ag_max_tool_calls S"
  then show ?thesis by (auto simp: refusal_def)
next
  fix r0 active w1 w2 run1 w3 said state uncertainty cited
  assume inv: "run_inv S r0 active run1" and room: "length (rr_trace r) < ag_max_tool_calls S"
    and fin: "finalize S io user repo active run1 said state uncertainty cited w3 = (Inr r, w')"
  have "rr_answerability r \<noteq> ANSWERED \<and> rr_answerability r \<noteq> PARTIALLY_ANSWERED" if "ag_max_tool_calls S = 1"
  proof (cases "refusal r")
    case False
    have "ar_trace run1 = []" using that room finalizeD(2) [OF fin] by simp
    with inv have "ar_evidence run1 = []" by (simp add: run_inv_def)
    with finalizeD(1) [OF fin] False show ?thesis by auto
  qed (auto simp: refusal_def)
  with room show ?thesis by simp
qed

end
