(* ===== verification/AgentSample.thy ===== *)
theory AgentSample
  imports AgentRuns SampleRun
begin

text \<open>
  A concrete question about the repository of \<^theory_text>\<open>SampleRun\<close>: the model asks for the history, finds one
  commit and answers with it. Allowed a single call, the same model gets no answer out.
\<close>

definition question_settings :: "nat \<Rightarrow> agent_settings" where
  "question_settings calls =
     \<lparr>ag_digests = run_digests\<lparr>sha256_hex := (\<lambda>_. ''p'')\<rparr>, ag_access = run_access,
      ag_embedding = \<lparr>es_model_identifier = ''m'', es_model_revision = ''r'', es_dimension = 2,
        es_preprocessing_version = [], es_max_document_bytes = 1000, es_batch_size = 1, es_max_attempts = 1,
        es_unit_norm = (\<lambda>_. True)\<rparr>,
      ag_vectors = \<lparr>qs_dimension = 2, qs_batch_size = 1, qs_max_attempts = 1, qs_unit_norm = (\<lambda>_. True),
        qs_model_identifier = ''m'', qs_model_revision = ''r''\<rparr>,
      ag_rag = sample_rag, ag_history = \<lparr>hs_message_bytes = 128, hs_patch_bytes = 256, hs_max_paths = 1\<rparr>,
      ag_unicode = \<lparr>ut_nfc = (\<lambda>s. s), ut_word = (\<lambda>_. False), ut_digit = (\<lambda>_. False)\<rparr>,
      ag_casefold = lower, ag_collate = (\<lambda>s. s), ag_score_text = (\<lambda>_. []), ag_time_text = (\<lambda>_. []),
      ag_max_tool_calls = calls, ag_max_tool_result_bytes = 1024, ag_max_total_evidence_bytes = 2048,
      ag_caller_result_limit = 20\<rparr>"

definition question_bundle :: history_bundle where
  "question_bundle = \<lparr>hb_commit = \<lparr>gc_sha = ''c'', gc_html_url = [], gc_message = [], gc_committer_date = Some 1,
     gc_author_date = None, gc_parents = [], gc_files = [], gc_author_login = None\<rparr>, hb_pull_requests = []\<rparr>"

definition question_decision :: "nat \<Rightarrow> agent_decision" where
  "question_decision n =
     (if n = 0
      then \<lparr>ad_is_tool = True, ad_tool_name = Some GET_HISTORY,
             ad_arguments = Some \<lparr>aa_query = Some (py ''why''), aa_symbol_name = None, aa_file_path = None\<rparr>,
             ad_answer = None, ad_answerability = None, ad_uncertainty = None, ad_evidence_ids = []\<rparr>
      else \<lparr>ad_is_tool = False, ad_tool_name = None, ad_arguments = None, ad_answer = Some (py ''so''),
             ad_answerability = Some ANSWERED, ad_uncertainty = Some U_LOW, ad_evidence_ids = [step_id 1 ''H'' 1]\<rparr>)"

definition question_io :: agent_surroundings where
  "question_io =
     \<lparr>ae_now = (\<lambda>_. 10), ae_peers = (\<lambda>_ db. db), ae_caller_peers = (\<lambda>_ db. db),
      ae_lookup = (\<lambda>_. PL_Found (run_repository ''c'')), ae_provider = (\<lambda>n _. Decision (question_decision n)),
      ae_tool_times_out = (\<lambda>_. False),
      ae_search = (\<lambda>_. \<lparr>sa_embedding = (\<lambda>_. No_Connection), sa_points = (\<lambda>_. No_Answer)\<rparr>),
      ae_github = (\<lambda>_ _ _. Some [question_bundle]), ae_callers_answered = (\<lambda>_. True), ae_duration = (\<lambda>_. 0),
      ae_total_duration = 0, ae_total_timeout = False\<rparr>"

definition question :: normalized_question where
  "question = \<lparr>nq_text = py ''why'', nq_fingerprint = [], nq_estimated_tokens = 1\<rparr>"

definition question_row :: repository where
  "question_row = refresh_identity 10 (run_repository ''c'') run_active_row"

definition question_db :: db where
  "question_db = run_active\<lparr>db_repositories := [question_row]\<rparr>"

definition question_index :: active_index where
  "question_index = \<lparr>ai_index_version = 1, ai_commit_sha = ''c'', ai_preprocessing_fingerprint = ''p''\<rparr>"

lemma question_authorized:
  assumes "db = run_active \<or> db = question_db"
  shows "authorize (question_settings k) question_io 9 7 \<lparr>aw_db = db, aw_tick = n\<rparr>
    = (Inr question_row, \<lparr>aw_db = question_db, aw_tick = n + 1\<rparr>)"
  using assms
  by (auto simp: authorize_def transact_def get_authorized_repository_def get_authorized_public_repository_def
      repository_by_id_def public_access_def attached_def question_io_def question_settings_def question_db_def
      question_row_def refresh_identity_def run_active_def run_active_row_def activated_repository_def
      run_defs3 run_defs2 run_defs store_eval)

lemma question_loaded:
  "load_active_index (question_settings k) question_io question_row \<lparr>aw_db = question_db, aw_tick = n\<rparr>
    = (Some question_index, \<lparr>aw_db = question_db, aw_tick = n + 1\<rparr>)"
  by (simp add: load_active_index_def transact_def active_index_refused_def unsearchable_status_def serves_build_def
      active_index_of_def policy_fingerprint_def question_index_def question_io_def question_settings_def
      question_db_def question_row_def refresh_identity_def embedding_of_def
      run_active_def run_active_row_def activated_repository_def run_store_def
      run_defs3 run_defs2 run_defs store_eval)

definition question_evidence :: agent_evidence where
  "question_evidence = Commit_Evidence
     \<lparr>me_evidence_id = step_id 1 ''H'' 1, me_commit_sha = ''c'', me_message = [], me_committed_at = 1,
      me_author_login = None, me_parent_shas = [], me_changed_paths = [], me_patch_excerpt = None, me_html_url = []\<rparr>"

lemma question_tool:
  "execute_tool (question_settings k) question_io (context_of_run 9 question question_index question_row) GET_HISTORY
     \<lparr>aa_query = Some (py ''why''), aa_symbol_name = None, aa_file_path = None\<rparr> 1 \<lparr>aw_db = question_db, aw_tick = n\<rparr>
    = (Inr [question_evidence], \<lparr>aw_db = question_db, aw_tick = n + 1\<rparr>)"
proof -
  have ok: "get_history_arguments_ok \<lparr>aa_query = Some (py ''why''), aa_symbol_name = None, aa_file_path = None\<rparr>"
    by (simp add: get_history_arguments_ok_def arguments_ok_def text_field_ok_def py_def)
  have public: "repo_access_mode question_row = PUBLIC"
    by (simp add: question_row_def refresh_identity_def run_active_row_def activated_repository_def
        run_defs3 run_defs2 run_defs Let_def)
  have ranked: "rank_bundles f q [b] = [b]" for f q b by (simp add: rank_bundles_def)
  have "history_evidence f H q 1 [question_bundle] = [question_evidence]" for f H q
    by (simp add: history_evidence_def ranked bundle_evidence_def question_bundle_def commit_date_def
        question_evidence_def Let_def map_filter_simps del: step_id_eq)
  then show ?thesis
    using ok public
    by (simp add: execute_tool_def transact_def get_history_def context_of_run_def question_io_def Let_def)
qed

lemma question_size: "encoded_size (question_settings k) [question_evidence] \<le> 1024"
proof -
  have "dec_digits (Suc 0) = [49]" by (simp add: dec_digits.simps)
  then show ?thesis
    by (simp add: encoded_size_def question_evidence_def json_object_def json_list_def json_string_def json_optional_def
        json_escape_def question_settings_def py_def utf8_len_def hex_digit_def)
qed

lemma question_refreshed:
  "refresh_authorization (question_settings k) question_io 9 7 question_row question_index
     \<lparr>aw_db = question_db, aw_tick = n\<rparr> = (Inr (Some question_row), \<lparr>aw_db = question_db, aw_tick = n + 2\<rparr>)"
  by (simp add: refresh_authorization_def question_authorized question_loaded same_identity_def)

definition question_start :: agent_run where
  "question_start = \<lparr>ar_repository = question_row, ar_evidence = [], ar_trace = [], ar_completed = [], ar_failed = [],
     ar_failure_codes = [], ar_fingerprints = {}, ar_total_evidence_bytes = 0\<rparr>"

definition question_found :: agent_run where
  "question_found = question_start\<lparr>ar_evidence := [question_evidence],
     ar_trace := [trace_step question_io 1 GET_HISTORY ''p'' STEP_COMPLETED 1 None True], ar_completed := [GET_HISTORY],
     ar_fingerprints := {''p''},
     ar_total_evidence_bytes := encoded_size (question_settings 1) [question_evidence]\<rparr>"

lemma question_called:
  "iterate (question_settings k) question_io 9 7 question question_index question_start
     \<lparr>aw_db = question_db, aw_tick = n\<rparr> = (Goes_On question_found, \<lparr>aw_db = question_db, aw_tick = n + 3\<rparr>)"
proof -
  have size: "encoded_size (question_settings k) [question_evidence] = encoded_size (question_settings 1) [question_evidence]"
    by (simp add: encoded_size_def question_evidence_def question_settings_def)
  have fits: "size_failure (question_settings k) (encoded_size (question_settings k) [question_evidence]) 0 = None"
    using question_size [of k] by (simp add: size_failure_def question_settings_def)
  have fp: "safe_argument_fingerprint (ag_digests (question_settings k)) tool args = ''p''" for tool args
    by (simp add: safe_argument_fingerprint_def question_settings_def)
  have decision: "ae_provider question_io 0 payload = Decision (question_decision 0)" for payload
    by (simp add: question_io_def)
  have in_time: "\<not> ae_tool_times_out question_io m" for m by (simp add: question_io_def)
  have parts: "ar_evidence question_start = []" "ar_trace question_start = []" "ar_fingerprints question_start = {}"
    "ar_repository question_start = question_row" "ar_total_evidence_bytes question_start = 0"
    by (simp_all add: question_start_def)
  have "iterate (question_settings k) question_io 9 7 question question_index question_start \<lparr>aw_db = question_db, aw_tick = n\<rparr>
    = call_tool (question_settings k) question_io 9 7 question question_index GET_HISTORY
        (Some \<lparr>aa_query = Some (py ''why''), aa_symbol_name = None, aa_file_path = None\<rparr>) question_start
        \<lparr>aw_db = question_db, aw_tick = n\<rparr>"
    by (simp add: iterate_def decide_def parts decision) (simp add: question_decision_def)
  also have "\<dots> = (Goes_On question_found, \<lparr>aw_db = question_db, aw_tick = n + 3\<rparr>)"
    using question_tool [of k "n + 2"] fits
    by (simp add: call_tool_def fp parts question_refreshed in_time)
      (simp add: call_completed_def question_found_def size question_start_def Let_def numeral_3_eq_3)
  finally show ?thesis .
qed

definition question_result :: agent_run_result where
  "question_result = \<lparr>rr_repository_id = 7, rr_answer = py ''so'', rr_answerability = ANSWERED, rr_uncertainty = U_LOW,
     rr_evidence = [question_evidence], rr_cited_evidence_ids = [step_id 1 ''H'' 1], rr_commit_sha = Some ''c'',
     rr_index_version = 1, rr_retrieved_evidence_count = 1, rr_trace = ar_trace question_found, rr_duration_ms = 0\<rparr>"

lemma question_answered:
  "iterate (question_settings k) question_io 9 7 question question_index question_found
     \<lparr>aw_db = question_db, aw_tick = n\<rparr> = (Returned_Run (Inr question_result), \<lparr>aw_db = question_db, aw_tick = n + 4\<rparr>)"
proof -
  have parts: "ar_evidence question_found = [question_evidence]" "ar_repository question_found = question_row"
    "question_found\<lparr>ar_repository := question_row\<rparr> = question_found" "length (ar_trace question_found) = 1"
    by (simp_all add: question_found_def question_start_def)
  have decision: "ae_provider question_io (Suc 0) payload = Decision (question_decision 1)" for payload
    by (simp add: question_io_def)
  have no_time: "ae_total_duration question_io = 0" by (simp add: question_io_def)
  have eid: "evidence_id question_evidence = step_id 1 ''H'' 1" by (simp add: question_evidence_def del: step_id_eq)
  have fin: "finalize (question_settings k) question_io 9 7 question_index question_found (py ''so'') ANSWERED U_LOW
      [step_id 1 ''H'' 1] \<lparr>aw_db = question_db, aw_tick = m\<rparr> = (Inr question_result, \<lparr>aw_db = question_db, aw_tick = m + 2\<rparr>)" for m
    using no_time
    by (simp add: finalize_def question_authorized question_loaded parts by_id_def first_occurrences_def eid
        question_result_def del: step_id_eq) (simp add: question_index_def)
  have said: "py ''so'' \<noteq> []" by (simp add: py_def)
  show ?thesis
    by (simp add: iterate_def decide_def parts question_refreshed decision)
      (simp add: question_decision_def fin [unfolded One_nat_def] said del: step_id_eq)
qed

lemma question_asked:
  assumes "0 < k" and "out = agent_loop (question_settings k) question_io 9 7 question question_index question_start
      \<lparr>aw_db = question_db, aw_tick = 2\<rparr>"
  shows "run_agent (question_settings k) question_io 9 7 question \<lparr>aw_db = run_active, aw_tick = 0\<rparr>
    = (case out of (Returned_Run r, w) \<Rightarrow> (r, w)
       | (Left_Loop run, w) \<Rightarrow> (Inr (no_answer question_io 7 (if list_ex (\<lambda>c. c \<in> unavailable_codes) (ar_failure_codes run)
             then TEMPORARILY_UNAVAILABLE else INSUFFICIENT_EVIDENCE) (Some question_index) None
             (length (ar_evidence run)) (ar_trace run)), w)
       | (Goes_On run, w) \<Rightarrow> (Inl (Internal_Failed []), w))"
proof -
  have supported: "\<not> is_unsupported (ag_unicode (question_settings k)) question"
    by (simp add: is_unsupported_def question_def py_def phrase_here_def unsupported_phrases_def letter_matches_def)
  show ?thesis
    unfolding assms(2)
    by (simp add: run_agent_def question_authorized question_loaded supported question_start_def numeral_2_eq_2)
qed


theorem agent_last_call_unused_witness:
  "(case fst (run_agent (question_settings 1) question_io 9 7 question \<lparr>aw_db = run_active, aw_tick = 0\<rparr>) of
      Inl e \<Rightarrow> False | Inr r \<Rightarrow> refusal r \<and> rr_retrieved_evidence_count r = 1 \<and> length (rr_trace r) = 1)"
proof -
  let ?r = "no_answer question_io 7 INSUFFICIENT_EVIDENCE (Some question_index) None 1 (ar_trace question_found)"
  have "agent_loop (question_settings 1) question_io 9 7 question question_index question_start \<lparr>aw_db = question_db, aw_tick = 2\<rparr>
      = (Left_Loop question_found, \<lparr>aw_db = question_db, aw_tick = 5\<rparr>)"
    by (subst agent_loop.simps, simp add: question_called, subst agent_loop.simps)
      (simp add: question_start_def question_found_def question_settings_def)
  then have run: "run_agent (question_settings 1) question_io 9 7 question \<lparr>aw_db = run_active, aw_tick = 0\<rparr>
      = (Inr ?r, \<lparr>aw_db = question_db, aw_tick = 5\<rparr>)"
    using question_asked [of 1] by (simp add: question_found_def question_start_def)
  have "0 < rg_retrieval_top_k (ag_rag (question_settings 1))" "ag_max_tool_calls (question_settings 1) = 1"
    "length (rr_trace ?r) = 1"
    by (simp_all add: question_settings_def sample_rag_def no_answer_def question_found_def)
  with agent_last_call_unused [OF run] have "refusal ?r" by metis
  with run show ?thesis by (simp add: no_answer_def question_found_def)
qed

end
