(* ===== verification/CallersStable.thy ===== *)
theory CallersStable
  imports AgentSample Guarantees
begin

text \<open>
  The callers the agent reports are those of the published call graph: while a version stays
  published, two successful queries give the same answer, whatever workers, webhooks and users do.
\<close>

lemma matching_symbols_content:
  "matching_symbols repo ver commit_sha symbol_name file_path db =
     filter (\<lambda>s. sr_commit_sha (sd_symbol s) = commit_sha
         \<and> (sr_symbol_name (sd_symbol s) = symbol_name \<or> sr_qualified_name (sd_symbol s) = symbol_name)
         \<and> (case file_path of None \<Rightarrow> True | Some p \<Rightarrow> sr_file_path (sd_symbol s) = p))
       (fst (content (repo_id repo) ver db))"
  by (simp add: matching_symbols_def content_def conj_ac)

lemma concat_filter: "concat (map (\<lambda>x. if P x then f x else []) xs) = concat (map f (filter P xs))"
  by (induction xs) auto

lemma calls_of_content:
  "calls_of repo ver commit_sha target db =
     [(ed_edge e, caller). e \<leftarrow> snd (content (repo_id repo) ver db), caller \<leftarrow> fst (content (repo_id repo) ver db),
        sd_id caller = ce_caller_symbol_id (ed_edge e) \<and> ce_commit_sha (ed_edge e) = commit_sha
        \<and> ce_callee_symbol_id (ed_edge e) = Some (sd_id target) \<and> sr_commit_sha (sd_symbol caller) = commit_sha]"
proof -
  let ?E = "\<lambda>e. ed_repository_id e = repo_id repo \<and> ed_index_version e = ver"
  let ?C = "\<lambda>c. sd_repository_id c = repo_id repo \<and> sd_index_version c = ver"
  let ?R = "\<lambda>e caller. sd_id caller = ce_caller_symbol_id (ed_edge e) \<and> ce_commit_sha (ed_edge e) = commit_sha
        \<and> ce_callee_symbol_id (ed_edge e) = Some (sd_id target) \<and> sr_commit_sha (sd_symbol caller) = commit_sha"
  have inner: "concat (map (\<lambda>c. if ?E e \<and> ?C c \<and> ?R e c then [(ed_edge e, c)] else []) cs)
      = (if ?E e then concat (map (\<lambda>c. if ?R e c then [(ed_edge e, c)] else []) (filter ?C cs)) else [])" for e cs
    by (induction cs) auto
  have "calls_of repo ver commit_sha target db
      = concat (map (\<lambda>e. concat (map (\<lambda>c. if ?E e \<and> ?C c \<and> ?R e c then [(ed_edge e, c)] else []) (db_symbols db))) (db_edges db))"
    unfolding calls_of_def by (intro arg_cong [where f = concat] map_cong refl) auto
  also have "\<dots> = concat (map (\<lambda>e. concat (map (\<lambda>c. if ?R e c then [(ed_edge e, c)] else []) (filter ?C (db_symbols db))))
      (filter ?E (db_edges db)))"
    unfolding inner by (rule concat_filter)
  finally show ?thesis by (simp add: content_def)
qed

lemma query_callers_content:
  assumes "content (repo_id repo) (ac_index_version ctx) db = content (repo_id repo) (ac_index_version ctx) db'"
    and "query_callers collate limit answered repo ctx args step db = Inr items"
    and "query_callers collate limit answered' repo ctx args step db' = Inr items'"
  shows "items = items'"
proof -
  have m: "matching_symbols repo (ac_index_version ctx) c n f db = matching_symbols repo (ac_index_version ctx) c n f db'" for c n f
    by (simp add: matching_symbols_content assms(1))
  have t: "caller_targets collate repo (ac_index_version ctx) c n f db = caller_targets collate repo (ac_index_version ctx) c n f db'" for c n f
    by (simp only: caller_targets_def m)
  have k: "calls_of repo (ac_index_version ctx) c x db = calls_of repo (ac_index_version ctx) c x db'" for c x
    by (simp only: calls_of_content assms(1))
  show ?thesis
    using assms(2,3) by (auto simp: query_callers_def Let_def t k split: if_splits list.splits)
qed

lemma authorized_row:
  assumes "get_authorized_repository A now user repo fresh lookup db = (Inr r, db')"
  obtains r0 where "r0 \<in> set (db_repositories db)" and "repo_id r0 = repo_id r"
    and "repo_index_version r0 = repo_index_version r"
proof -
  from assms obtain r0 where "r0 \<in> set (db_repositories db)" "r = r0 \<or> (\<exists>m. r = refresh_identity now m r0)"
    by (auto simp: get_authorized_repository_def get_authorized_public_repository_def
        split: if_splits option.splits public_lookup.splits dest!: select_first_SomeD)
  with that show thesis by (auto simp: refresh_identity_def Let_def)
qed

lemma find_callers_query:
  assumes "find_callers collate A now lookup peers limit answered ctx args step db = (Inr items, db')"
  obtains repo db1 where
    "get_authorized_repository A now (ac_user_id ctx) (repo_id (ac_repository ctx)) True lookup db = (Inr repo, db1)"
    and "repo_id repo = repo_id (ac_repository ctx)" and "repo_index_version repo = ac_index_version ctx"
    and "query_callers collate limit answered repo ctx args step (peers db1) = Inr items"
  using assms by (auto simp: find_callers_def split: prod.splits if_splits sum.splits access_error.splits)

lemma query_callers_id:
  "repo_id repo = repo_id repo' \<Longrightarrow> query_callers collate limit answered repo ctx args step db
    = query_callers collate limit answered repo' ctx args step db"
proof -
  assume eq: "repo_id repo = repo_id repo'"
  have v: "validated_graph_build repo v c = validated_graph_build repo' v c" for v c
    by (rule ext) (simp add: validated_graph_build_def eq)
  have t: "caller_targets collate repo v c n f db = caller_targets collate repo' v c n f db" for v c n f
    by (simp add: caller_targets_def matching_symbols_def eq)
  have k: "calls_of repo v c x db = calls_of repo' v c x db" for v c x
    by (simp add: calls_of_def eq)
  show ?thesis by (simp only: query_callers_def v t k)
qed

text \<open>
  C14: As long as a version stays published, the callers the agent finds at it are always the same: two
  calls of \<open>find_callers\<close> with the same arguments, any number of steps of workers, webhooks and users
  apart, that both succeed return the same evidence.
\<close>

theorem callers_stable:
  assumes "reachable S D col A s" and "0 < st_max_attempts S" and "sys_steps S D col A s t"
    and "0 < ac_index_version ctx"
    and "find_callers collate A now lookup (\<lambda>db. db) limit answered ctx args step (sys_db s) = (Inr items, db1)"
    and "find_callers collate A now' lookup' (\<lambda>db. db) limit answered' ctx args step (sys_db t) = (Inr items', db2)"
  shows "items = items'"
proof -
  have inv: "sys_inv S s" by (rule reachable_inv [OF assms(1,2)])
  have ids: "distinct (map repo_id (db_repositories (sys_db u)))" if "sys_inv S u" for u
    using that by (simp add: sys_inv_def db_index_inv_def index_inv_def)
  note inv_t = sys_steps_inv [OF assms(3) inv assms(2)]
  let ?id = "repo_id (ac_repository ctx)" and ?v = "ac_index_version ctx"
  obtain r1 d1 where q1: "get_authorized_repository A now (ac_user_id ctx) ?id True lookup (sys_db s) = (Inr r1, d1)"
    "repo_id r1 = ?id" "repo_index_version r1 = ?v" "query_callers collate limit answered r1 ctx args step d1 = Inr items"
    by (rule find_callers_query [OF assms(5)])
  obtain r2 d2 where q2: "get_authorized_repository A now' (ac_user_id ctx) ?id True lookup' (sys_db t) = (Inr r2, d2)"
    "repo_id r2 = ?id" "repo_index_version r2 = ?v" "query_callers collate limit answered' r2 ctx args step d2 = Inr items'"
    by (rule find_callers_query [OF assms(6)])
  have "version_of ?id (sys_db s) = Some ?v"
    using authorized_row [OF q1(1)] version_of_eq [OF ids [OF inv]] q1(2,3) by metis
  moreover have "version_of ?id (sys_db t) = Some ?v"
    using authorized_row [OF q2(1)] version_of_eq [OF ids [OF inv_t]] q2(2,3) by metis
  ultimately have same: "content ?id ?v (sys_db t) = content ?id ?v (sys_db s)"
    by (intro steps_content [OF assms(3) inv assms(2) _ assms(4)])
  have "content ?id ?v d1 = content ?id ?v d2"
    using intake_content [OF get_authorized_intake [OF q1(1)], of ?id ?v]
      intake_content [OF get_authorized_intake [OF q2(1)], of ?id ?v] same by simp
  moreover have "query_callers collate limit answered' r1 ctx args step d2 = Inr items'"
    using q2(4) query_callers_id [of r1 r2] q1(2) q2(2) by metis
  ultimately show ?thesis using query_callers_content [of r1 ctx d1 d2] q1(2,4) by metis
qed

definition callers_arguments :: agent_tool_arguments where
  "callers_arguments = \<lparr>aa_query = None, aa_symbol_name = Some (py ''f''), aa_file_path = None\<rparr>"

lemma callers_found:
  assumes "db = run_active \<or> db = mark_enqueued 5 100 run_active"
  shows "fst (find_callers run_collate run_access 10 (PL_Found (run_repository ''c'')) (\<lambda>db. db) 20 True
    (context_of_run 9 question question_index question_row) callers_arguments 1 db) = Inr []"
proof -
  have ok: "find_callers_arguments_ok callers_arguments"
    by (simp add: find_callers_arguments_ok_def arguments_ok_def text_field_ok_def callers_arguments_def py_def)
  show ?thesis
    using assms ok
    by (auto simp: find_callers_def context_of_run_def get_authorized_repository_def get_authorized_public_repository_def
        repository_by_id_def public_access_def attached_def question_index_def question_row_def refresh_identity_def
        query_callers_def validated_graph_build_def caller_targets_def matching_symbols_def mark_enqueued_def
        run_active_def run_active_row_def activated_repository_def run_defs3 run_defs2 run_defs store_eval)
qed

theorem callers_stable_witness:
  "fst (find_callers run_collate run_access 10 (PL_Found (run_repository ''c'')) (\<lambda>db. db) 20 True
     (context_of_run 9 question question_index question_row) callers_arguments 1 (mark_enqueued 5 100 run_active))
   = fst (find_callers run_collate run_access 10 (PL_Found (run_repository ''c'')) (\<lambda>db. db) 20 True
     (context_of_run 9 question question_index question_row) callers_arguments 1 run_active)"
proof -
  let ?ctx = "context_of_run 9 question question_index question_row"
  let ?t = "run_state (mark_enqueued 5 100 run_active) True"
  have step: "sys_steps run_store run_digests run_collate run_access (run_state run_active True) ?t"
    using steps_step [OF steps_refl step_outside [of run_store run_access "run_state run_active True"]]
      out_enqueue [of run_store run_access run_active 5 100]
    by (auto simp: run_state_def)
  have db: "sys_db (run_state d b) = d" for d b by (simp add: run_state_def)
  obtain d1 where f1: "find_callers run_collate run_access 10 (PL_Found (run_repository ''c'')) (\<lambda>db. db) 20 True
      ?ctx callers_arguments 1 run_active = (Inr [], d1)"
    using callers_found [of run_active] by (metis prod.collapse)
  obtain d2 where f2: "find_callers run_collate run_access 10 (PL_Found (run_repository ''c'')) (\<lambda>db. db) 20 True
      ?ctx callers_arguments 1 (mark_enqueued 5 100 run_active) = (Inr [], d2)"
    using callers_found [of "mark_enqueued 5 100 run_active"] by (metis prod.collapse)
  have "0 < ac_index_version ?ctx" by (simp add: context_of_run_def question_index_def)
  from callers_stable [OF run_reach_active run_attempts step this, unfolded db, OF f1 f2] f1 f2 show ?thesis by simp
qed

end
