(* ===== verification/Auth.thy ===== *)
theory Auth
  imports Webhooks CallGraph
begin

text \<open>
  Sign-in and sessions: \<^verbatim>\<open>backend/app/services/auth.py\<close> with the rows of
  \<^verbatim>\<open>backend/app/db/models/auth.py\<close>. The keyed hash of opaque tokens and the PKCE challenge are
  parameters, every random value (states, verifiers, nonces, tokens, row ids) is an argument, and
  what GitHub or Google answers is data. Each method is one transaction per session it opens; a
  method that raises inside one leaves the database as it was. Access tokens are left to PyJWT.
\<close>

section \<open>Rows\<close>

datatype auth_provider = GOOGLE | GITHUB

datatype oauth_flow = SIGN_IN | LINK

record auth_identity =
  idn_user_id :: uuid
  idn_provider :: auth_provider
  idn_provider_subject :: pystr
  idn_provider_email :: "pystr option"
  idn_email_verified :: bool

record oauth_state =
  os_state_hash :: string
  os_code_verifier_hash :: string
  os_provider :: auth_provider
  os_flow :: oauth_flow
  os_nonce_hash :: "string option"
  os_intended_user_id :: "uuid option"
  os_expires_at :: time
  os_used_at :: "time option"

record refresh_token =
  rt_id :: uuid
  rt_family_id :: uuid
  rt_user_id :: uuid
  rt_token_hash :: string
  rt_parent_token_id :: "uuid option"
  rt_expires_at :: time
  rt_used_at :: "time option"
  rt_revoked_at :: "time option"
  rt_revocation_reason :: "string option"

record auth_db =
  au_db :: db
  au_identities :: "auth_identity list"
  au_states :: "oauth_state list"
  au_tokens :: "refresh_token list"

datatype auth_error =
    OAuthStateError | RefreshTokenError | RefreshTokenReuseError | AccountLinkRequiredError
  | IdentityConflictError | GoogleOIDCError | AuthGitHubError | AuthIntegrityError

record token_service =
  tk_hash_opaque_token :: "pystr \<Rightarrow> string"
  tk_code_challenge :: "pystr \<Rightarrow> pystr"
  tk_refresh_ttl_seconds :: nat
  tk_oauth_state_ttl_seconds :: nat

record github_user =
  gu_id :: nat
  gu_login :: string
  gu_name :: "pystr option"
  gu_avatar_url :: "pystr option"
  gu_email :: "pystr option"

record google_identity =
  gg_subject :: pystr
  gg_email :: pystr
  gg_email_verified :: bool
  gg_display_name :: "pystr option"
  gg_avatar_url :: "pystr option"

section \<open>Starting a sign-in\<close>

record oauth_start =
  st_state :: pystr
  st_code_verifier :: pystr
  st_challenge :: pystr
  st_nonce :: "pystr option"

definition user_by_id :: "uuid \<Rightarrow> auth_db \<Rightarrow> user option" where
  "user_by_id user a = select_first (\<lambda>u. usr_id u = user) (db_users (au_db a))"

text \<open>The state row is committed before the provider is looked at; \<open>google\<close> tells whether its client exists.\<close>

definition start_oauth ::
  "token_service \<Rightarrow> time \<Rightarrow> bool \<Rightarrow> auth_provider \<Rightarrow> uuid option \<Rightarrow> pystr \<Rightarrow> pystr \<Rightarrow> pystr \<Rightarrow> auth_db
    \<Rightarrow> (auth_error + oauth_start) \<times> auth_db" where
  "start_oauth T now google provider linking state verifier fresh_nonce a =
     (let nonce = (if provider = GOOGLE then Some fresh_nonce else None);
          row = \<lparr>os_state_hash = tk_hash_opaque_token T state, os_code_verifier_hash = tk_hash_opaque_token T verifier,
            os_provider = provider, os_flow = (if linking \<noteq> None then LINK else SIGN_IN),
            os_nonce_hash = map_option (tk_hash_opaque_token T) nonce, os_intended_user_id = linking,
            os_expires_at = now + seconds (tk_oauth_state_ttl_seconds T), os_used_at = None\<rparr> in
      if linking \<noteq> None \<and> user_by_id (the linking) a = None then (Inl IdentityConflictError, a)
      else if os_state_hash row \<in> os_state_hash ` set (au_states a) then (Inl AuthIntegrityError, a)
      else let a1 = a\<lparr>au_states := au_states a @ [row]\<rparr> in
        if provider = GOOGLE \<and> \<not> google then (Inl GoogleOIDCError, a1)
        else (Inr \<lparr>st_state = state, st_code_verifier = verifier, st_challenge = tk_code_challenge T verifier,
                st_nonce = nonce\<rparr>, a1))"

definition nonce_accepted :: "token_service \<Rightarrow> oauth_state \<Rightarrow> pystr option \<Rightarrow> bool" where
  "nonce_accepted T record nonce =
     (case os_nonce_hash record of
        Some h \<Rightarrow> (case nonce of None \<Rightarrow> False | Some n \<Rightarrow> h = tk_hash_opaque_token T n)
      | None \<Rightarrow> nonce = None)"

definition consume_oauth_state ::
  "token_service \<Rightarrow> time \<Rightarrow> pystr \<Rightarrow> pystr \<Rightarrow> auth_provider \<Rightarrow> pystr option \<Rightarrow> auth_db
    \<Rightarrow> (auth_error + oauth_state) \<times> auth_db" where
  "consume_oauth_state T now state verifier provider nonce a =
     (if state = [] \<or> verifier = [] then (Inl OAuthStateError, a)
      else let state_hash = tk_hash_opaque_token T state; verifier_hash = tk_hash_opaque_token T verifier in
      case select_first (\<lambda>r. os_state_hash r = state_hash) (au_states a) of
        None \<Rightarrow> (Inl OAuthStateError, a)
      | Some record \<Rightarrow>
          if os_provider record \<noteq> provider \<or> os_used_at record \<noteq> None \<or> os_expires_at record \<le> now
             \<or> os_code_verifier_hash record \<noteq> verifier_hash
          then (Inl OAuthStateError, a)
          else if \<not> nonce_accepted T record nonce then (Inl OAuthStateError, a)
          else (Inr (record\<lparr>os_used_at := Some now\<rparr>),
                a\<lparr>au_states := update_where (\<lambda>r. os_state_hash r = state_hash) (\<lambda>r. r\<lparr>os_used_at := Some now\<rparr>)
                    (au_states a)\<rparr>))"

section \<open>Identities\<close>

definition update_users :: "(user \<Rightarrow> bool) \<Rightarrow> (user \<Rightarrow> user) \<Rightarrow> auth_db \<Rightarrow> auth_db" where
  "update_users P f a = a\<lparr>au_db := (au_db a)\<lparr>db_users := update_where P f (db_users (au_db a))\<rparr>\<rparr>"

definition same_subject :: "auth_provider \<Rightarrow> pystr \<Rightarrow> auth_identity \<Rightarrow> bool" where
  "same_subject provider subject i \<longleftrightarrow> idn_provider i = provider \<and> idn_provider_subject i = subject"

definition new_user :: "uuid \<Rightarrow> pystr option \<Rightarrow> pystr option \<Rightarrow> pystr option \<Rightarrow> user" where
  "new_user uid display_name avatar_url email =
     \<lparr>usr_id = uid, usr_github_user_id = None, usr_github_login = None, usr_display_name = display_name,
      usr_avatar_url = avatar_url, usr_email = email, usr_last_login_at = None, usr_custom_display_name = None,
      usr_avatar_color = None\<rparr>"

definition linked_user :: "uuid option \<Rightarrow> nat option \<Rightarrow> auth_db \<Rightarrow> user option" where
  "linked_user linking legacy a =
     (case (case linking of None \<Rightarrow> None | Some u \<Rightarrow> user_by_id u a) of
        Some u \<Rightarrow> Some u
      | None \<Rightarrow> (case legacy of None \<Rightarrow> None
                 | Some g \<Rightarrow> select_first (\<lambda>u. usr_github_user_id u = Some g) (db_users (au_db a))))"

text \<open>\<open>_resolve_identity\<close>: the id of the user, known, linked or new (\<open>uid\<close>).\<close>

definition resolve_identity ::
  "uuid \<Rightarrow> auth_provider \<Rightarrow> pystr \<Rightarrow> pystr option \<Rightarrow> bool \<Rightarrow> pystr option \<Rightarrow> pystr option \<Rightarrow> uuid option \<Rightarrow> nat option
    \<Rightarrow> auth_db \<Rightarrow> auth_error + (uuid \<times> auth_db)" where
  "resolve_identity uid provider subject email verified display_name avatar_url linking legacy a =
     (case select_first (same_subject provider subject) (au_identities a) of
        Some identity \<Rightarrow>
          if linking \<noteq> None \<and> linking \<noteq> Some (idn_user_id identity) then Inl IdentityConflictError
          else if user_by_id (idn_user_id identity) a = None then Inl IdentityConflictError
          else Inr (idn_user_id identity, a\<lparr>au_identities := update_where (same_subject provider subject)
                 (\<lambda>i. i\<lparr>idn_provider_email := email, idn_email_verified := verified\<rparr>) (au_identities a)\<rparr>)
      | None \<Rightarrow>
         (let row = (\<lambda>user. \<lparr>idn_user_id = user, idn_provider = provider, idn_provider_subject = subject,
                idn_provider_email = email, idn_email_verified = verified\<rparr>) in
          case linked_user linking legacy a of
            Some u \<Rightarrow> Inr (usr_id u, a\<lparr>au_identities := au_identities a @ [row (usr_id u)]\<rparr>)
          | None \<Rightarrow>
              if verified \<and> email \<noteq> None
                 \<and> list_ex (\<lambda>i. idn_provider_email i = email \<and> idn_email_verified i) (au_identities a)
              then Inl AccountLinkRequiredError
              else Inr (uid, a\<lparr>au_db := (au_db a)\<lparr>db_users := db_users (au_db a)
                       @ [new_user uid display_name avatar_url email]\<rparr>,
                     au_identities := au_identities a @ [row uid]\<rparr>)))"

section \<open>Sessions\<close>

record authentication_result =
  ar_user_id :: uuid
  ar_refresh_token :: pystr

definition issue_session ::
  "token_service \<Rightarrow> time \<Rightarrow> uuid \<Rightarrow> uuid \<Rightarrow> pystr \<Rightarrow> uuid \<Rightarrow> auth_db \<Rightarrow> auth_error + (authentication_result \<times> auth_db)" where
  "issue_session T now tid family raw user a =
     (if tk_hash_opaque_token T raw \<in> rt_token_hash ` set (au_tokens a) then Inl AuthIntegrityError
      else Inr (\<lparr>ar_user_id = user, ar_refresh_token = raw\<rparr>,
        a\<lparr>au_tokens := au_tokens a @ [\<lparr>rt_id = tid, rt_family_id = family, rt_user_id = user,
          rt_token_hash = tk_hash_opaque_token T raw, rt_parent_token_id = None,
          rt_expires_at = now + seconds (tk_refresh_ttl_seconds T), rt_used_at = None, rt_revoked_at = None,
          rt_revocation_reason = None\<rparr>]\<rparr>))"

definition revoke_family :: "time \<Rightarrow> string \<Rightarrow> uuid \<Rightarrow> auth_db \<Rightarrow> auth_db" where
  "revoke_family now reason family a =
     a\<lparr>au_tokens := update_where (\<lambda>t. rt_family_id t = family)
        (\<lambda>t. t\<lparr>rt_revoked_at := Some now, rt_revocation_reason := Some reason\<rparr>) (au_tokens a)\<rparr>"

definition rotate_refresh_token ::
  "token_service \<Rightarrow> time \<Rightarrow> uuid \<Rightarrow> pystr \<Rightarrow> pystr \<Rightarrow> auth_db \<Rightarrow> (auth_error + authentication_result) \<times> auth_db" where
  "rotate_refresh_token T now tid new_raw raw a =
     (let token_hash = tk_hash_opaque_token T raw in
      case select_first (\<lambda>t. rt_token_hash t = token_hash) (au_tokens a) of
        None \<Rightarrow> (Inl RefreshTokenError, a)
      | Some record \<Rightarrow>
          if rt_used_at record \<noteq> None \<or> rt_revoked_at record \<noteq> None
          then (Inl RefreshTokenReuseError, revoke_family now ''reuse_detected'' (rt_family_id record) a)
          else if rt_expires_at record \<le> now
          then (Inl RefreshTokenError, a\<lparr>au_tokens := update_where (\<lambda>t. rt_token_hash t = token_hash)
              (\<lambda>t. t\<lparr>rt_revoked_at := Some now, rt_revocation_reason := Some ''expired''\<rparr>) (au_tokens a)\<rparr>)
          else if user_by_id (rt_user_id record) a = None then (Inl RefreshTokenError, a)
          else if tk_hash_opaque_token T new_raw \<in> rt_token_hash ` set (au_tokens a) then (Inl AuthIntegrityError, a)
          else (Inr \<lparr>ar_user_id = rt_user_id record, ar_refresh_token = new_raw\<rparr>,
            a\<lparr>au_tokens := update_where (\<lambda>t. rt_token_hash t = token_hash)
                (\<lambda>t. t\<lparr>rt_used_at := Some now, rt_revoked_at := Some now, rt_revocation_reason := Some ''rotated''\<rparr>)
                (au_tokens a)
              @ [\<lparr>rt_id = tid, rt_family_id = rt_family_id record, rt_user_id = rt_user_id record,
                  rt_token_hash = tk_hash_opaque_token T new_raw, rt_parent_token_id = Some (rt_id record),
                  rt_expires_at = now + seconds (tk_refresh_ttl_seconds T), rt_used_at = None,
                  rt_revoked_at = None, rt_revocation_reason = None\<rparr>]\<rparr>))"

definition logout :: "token_service \<Rightarrow> time \<Rightarrow> pystr option \<Rightarrow> auth_db \<Rightarrow> auth_db" where
  "logout T now raw a =
     (case raw of None \<Rightarrow> a
      | Some r \<Rightarrow> (case select_first (\<lambda>t. rt_token_hash t = tk_hash_opaque_token T r) (au_tokens a) of
          None \<Rightarrow> a | Some record \<Rightarrow> revoke_family now ''logout'' (rt_family_id record) a))"

section \<open>Synchronising a login\<close>

definition owns_account :: "nat \<Rightarrow> installation_data \<Rightarrow> bool" where
  "owns_account github_user_id external \<longleftrightarrow>
     ga_is_user (gi_account external) \<and> ga_id (gi_account external) = github_user_id"

definition seen_installation :: "installation_data \<Rightarrow> github_installation \<Rightarrow> github_installation" where
  "seen_installation external i = (fill_installation external i)
     \<lparr>inst_suspended_at := gi_suspended_at external, inst_deleted_at := None,
      inst_status := (if gi_suspended_at external \<noteq> None then INST_SUSPENDED else INST_ACTIVE)\<rparr>"

definition upsert_membership :: "time \<Rightarrow> uuid \<Rightarrow> uuid \<Rightarrow> installation_member_role \<Rightarrow> db \<Rightarrow> db" where
  "upsert_membership now installation user role db =
     (if list_ex (\<lambda>m. mem_installation_id m = installation \<and> mem_user_id m = user) (db_members db)
      then db\<lparr>db_members := update_where (\<lambda>m. mem_installation_id m = installation \<and> mem_user_id m = user)
             (\<lambda>m. m\<lparr>mem_role := role, mem_verified_at := now\<rparr>) (db_members db)\<rparr>
      else db\<lparr>db_members := db_members db @ [\<lparr>mem_installation_id = installation, mem_user_id = user,
             mem_role = role, mem_verified_at = now\<rparr>]\<rparr>)"

text \<open>\<open>_upsert_installation\<close>; \<open>iid\<close> is the id of a row it creates.\<close>

definition upsert_user_installation ::
  "time \<Rightarrow> uuid \<Rightarrow> nat \<Rightarrow> uuid \<Rightarrow> installation_data \<Rightarrow> db \<Rightarrow> uuid \<times> db" where
  "upsert_user_installation now user github_user_id iid external db =
     (let (installation, db1) = upsert_installation iid external db;
          db2 = set_installation installation (seen_installation external) db1;
          role = (if owns_account github_user_id external then OWNER else MEMBER)
      in (installation, upsert_membership now installation user role db2))"

fun upsert_user_installations ::
  "time \<Rightarrow> uuid \<Rightarrow> nat \<Rightarrow> (nat \<Rightarrow> uuid) \<Rightarrow> installation_data list \<Rightarrow> db \<Rightarrow> uuid list \<times> db" where
  "upsert_user_installations now user gid ids [] db = ([], db)"
| "upsert_user_installations now user gid ids (external # rest) db =
     (let (installation, db1) = upsert_user_installation now user gid (ids (gi_id external)) external db;
          (installations, db2) = upsert_user_installations now user gid ids rest db1
      in (installation # installations, db2))"

definition delete_other_memberships :: "uuid \<Rightarrow> uuid list \<Rightarrow> db \<Rightarrow> db" where
  "delete_other_memberships user kept db =
     db\<lparr>db_members := delete_where (\<lambda>m. mem_user_id m = user \<and> mem_installation_id m \<notin> set kept) (db_members db)\<rparr>"

record login_ids =
  li_user :: uuid
  li_token :: uuid
  li_family :: uuid
  li_installations :: "nat \<Rightarrow> uuid"

definition github_profile :: "time \<Rightarrow> github_user \<Rightarrow> user \<Rightarrow> user" where
  "github_profile now g u = u\<lparr>usr_github_user_id := Some (gu_id g), usr_github_login := Some (gu_login g),
     usr_display_name := gu_name g, usr_avatar_url := gu_avatar_url g, usr_email := gu_email g,
     usr_last_login_at := Some now\<rparr>"

definition synchronize_github_login ::
  "token_service \<Rightarrow> time \<Rightarrow> login_ids \<Rightarrow> pystr \<Rightarrow> github_user \<Rightarrow> installation_data list \<Rightarrow> uuid option \<Rightarrow> auth_db
    \<Rightarrow> auth_error + (authentication_result \<times> auth_db)" where
  "synchronize_github_login T now ids raw g installations linking a =
     (case resolve_identity (li_user ids) GITHUB (dec_digits (gu_id g)) (gu_email g) False (gu_name g)
             (gu_avatar_url g) linking (Some (gu_id g)) a of
        Inl e \<Rightarrow> Inl e
      | Inr (user, a1) \<Rightarrow>
          if list_ex (\<lambda>u. usr_id u \<noteq> user \<and> usr_github_user_id u = Some (gu_id g)) (db_users (au_db a1))
          then Inl AuthIntegrityError
          else let a2 = update_users (\<lambda>u. usr_id u = user) (github_profile now g) a1;
                   (kept, db1) = upsert_user_installations now user (gu_id g) (li_installations ids)
                     installations (au_db a2)
               in issue_session T now (li_token ids) (li_family ids) raw user
                    (a2\<lparr>au_db := delete_other_memberships user kept db1\<rparr>))"

text \<open>\<open>identity.display_name or user.display_name\<close>: an empty name counts as absent.\<close>

definition or_else :: "pystr option \<Rightarrow> pystr option \<Rightarrow> pystr option" where
  "or_else new old = (case new of None \<Rightarrow> old | Some s \<Rightarrow> if s = [] then old else Some s)"

definition google_profile :: "time \<Rightarrow> google_identity \<Rightarrow> user \<Rightarrow> user" where
  "google_profile now i u = u\<lparr>usr_display_name := or_else (gg_display_name i) (usr_display_name u),
     usr_avatar_url := or_else (gg_avatar_url i) (usr_avatar_url u), usr_email := Some (gg_email i),
     usr_last_login_at := Some now\<rparr>"

definition synchronize_google_login ::
  "token_service \<Rightarrow> time \<Rightarrow> login_ids \<Rightarrow> pystr \<Rightarrow> google_identity \<Rightarrow> uuid option \<Rightarrow> auth_db
    \<Rightarrow> auth_error + (authentication_result \<times> auth_db)" where
  "synchronize_google_login T now ids raw i linking a =
     (case resolve_identity (li_user ids) GOOGLE (gg_subject i) (Some (gg_email i)) (gg_email_verified i)
             (gg_display_name i) (gg_avatar_url i) linking None a of
        Inl e \<Rightarrow> Inl e
      | Inr (user, a1) \<Rightarrow> issue_session T now (li_token ids) (li_family ids) raw user
          (update_users (\<lambda>u. usr_id u = user) (google_profile now i) a1))"

section \<open>Callbacks\<close>

text \<open>
  The state is consumed and committed before the provider is asked; \<open>github\<close> and \<open>google\<close> are its
  answers, with \<open>None\<close> for a Google client that is not configured.
\<close>

definition committed :: "auth_db \<Rightarrow> auth_error + ('r \<times> auth_db) \<Rightarrow> (auth_error + 'r) \<times> auth_db" where
  "committed a r = (case r of Inl e \<Rightarrow> (Inl e, a) | Inr (x, a') \<Rightarrow> (Inr x, a'))"

definition authenticate_callback ::
  "token_service \<Rightarrow> time \<Rightarrow> time \<Rightarrow> login_ids \<Rightarrow> pystr \<Rightarrow> auth_error + (github_user \<times> installation_data list)
    \<Rightarrow> pystr \<Rightarrow> pystr option \<Rightarrow> auth_db \<Rightarrow> (auth_error + authentication_result) \<times> auth_db" where
  "authenticate_callback T now later ids raw github state code_verifier a =
     (case code_verifier of
        None \<Rightarrow> (Inl OAuthStateError, a)
      | Some verifier \<Rightarrow>
          (case consume_oauth_state T now state verifier GITHUB None a of
             (Inl e, a1) \<Rightarrow> (Inl e, a1)
           | (Inr record, a1) \<Rightarrow>
               (case github of
                  Inl e \<Rightarrow> (Inl e, a1)
                | Inr (g, installations) \<Rightarrow>
                    committed a1 (synchronize_github_login T later ids raw g installations
                      (os_intended_user_id record) a1))))"

definition authenticate_google_callback ::
  "token_service \<Rightarrow> time \<Rightarrow> time \<Rightarrow> login_ids \<Rightarrow> pystr \<Rightarrow> (auth_error + google_identity) option
    \<Rightarrow> pystr \<Rightarrow> pystr option \<Rightarrow> pystr option \<Rightarrow> auth_db \<Rightarrow> (auth_error + authentication_result) \<times> auth_db" where
  "authenticate_google_callback T now later ids raw google state code_verifier nonce a =
     (case (code_verifier, nonce) of
        (Some verifier, Some n) \<Rightarrow>
          (case consume_oauth_state T now state verifier GOOGLE (Some n) a of
             (Inl e, a1) \<Rightarrow> (Inl e, a1)
           | (Inr record, a1) \<Rightarrow>
               (case google of
                  None \<Rightarrow> (Inl GoogleOIDCError, a1)
                | Some (Inl e) \<Rightarrow> (Inl e, a1)
                | Some (Inr i) \<Rightarrow>
                    committed a1 (synchronize_google_login T later ids raw i (os_intended_user_id record) a1)))
      | _ \<Rightarrow> (Inl OAuthStateError, a))"

section \<open>The profile\<close>

text \<open>The providers of a user sorted by the stored value, \<open>github\<close> before \<open>google\<close>.\<close>

definition identity_providers :: "uuid \<Rightarrow> auth_db \<Rightarrow> auth_provider list" where
  "identity_providers user a =
     (let providers = map idn_provider (filter (\<lambda>i. idn_user_id i = user) (au_identities a)) in
      filter (\<lambda>p. p = GITHUB) providers @ filter (\<lambda>p. p = GOOGLE) providers)"

definition profile_field :: "pystr option \<Rightarrow> bool \<Rightarrow> pystr option \<Rightarrow> pystr option" where
  "profile_field new clear old = (if new \<noteq> None then new else if clear then None else old)"

definition update_profile ::
  "uuid \<Rightarrow> pystr option \<Rightarrow> pystr option \<Rightarrow> bool \<Rightarrow> bool \<Rightarrow> auth_db \<Rightarrow> auth_db option" where
  "update_profile user custom_display_name avatar_color clear_custom_display_name clear_avatar_color a =
     (if user_by_id user a = None then None else Some (update_users (\<lambda>u. usr_id u = user)
       (\<lambda>u. u\<lparr>usr_custom_display_name := profile_field custom_display_name clear_custom_display_name
                 (usr_custom_display_name u),
              usr_avatar_color := profile_field avatar_color clear_avatar_color (usr_avatar_color u)\<rparr>) a))"

end
