(* ===== verification/AuthRuns.thy ===== *)
theory AuthRuns
  imports Auth
begin

text \<open>
  Sequences of authentication transactions. A step is one public method of the service, run to its
  end, or any change of the tables the rest of the program owns; the family of a new session is an
  id no token has yet. The lemmas say what every step does to the refresh tokens and to the OAuth
  states; the properties are about token families under rotation, replay and logout, and about the
  single use of an OAuth state.
\<close>

section \<open>Steps\<close>

definition fresh_family :: "uuid \<Rightarrow> auth_db \<Rightarrow> bool" where
  "fresh_family family a \<longleftrightarrow> family \<notin> rt_family_id ` set (au_tokens a)"

inductive auth_step :: "token_service \<Rightarrow> auth_db \<Rightarrow> auth_db \<Rightarrow> bool" for T where
  oauth_started: "auth_step T a (snd (start_oauth T now google provider linking state verifier fresh_nonce a))"
| github_callback: "fresh_family (li_family ids) a \<Longrightarrow>
    auth_step T a (snd (authenticate_callback T now later ids raw github state verifier a))"
| google_callback: "fresh_family (li_family ids) a \<Longrightarrow>
    auth_step T a (snd (authenticate_google_callback T now later ids raw google state verifier nonce a))"
| token_rotated: "auth_step T a (snd (rotate_refresh_token T now tid new_raw raw a))"
| logged_out: "auth_step T a (logout T now cookie a)"
| profile_updated: "update_profile user custom colour clear clear_colour a = Some a' \<Longrightarrow> auth_step T a a'"
| other_tables: "auth_step T a (a\<lparr>au_db := db\<rparr>)"

abbreviation auth_steps :: "token_service \<Rightarrow> auth_db \<Rightarrow> auth_db \<Rightarrow> bool" where
  "auth_steps T \<equiv> (auth_step T)\<^sup>*\<^sup>*"

definition empty_auth :: "db \<Rightarrow> auth_db" where
  "empty_auth db = \<lparr>au_db = db, au_identities = [], au_states = [], au_tokens = []\<rparr>"

section \<open>What a step does to the tokens\<close>

text \<open>
  The four ways a transaction can treat the token table: leave it, add the first token of a new
  family, revoke rows, or replace one live token by its successor.
\<close>

definition revoking :: "(refresh_token \<Rightarrow> refresh_token) \<Rightarrow> bool" where
  "revoking f \<longleftrightarrow> (\<forall>t. rt_family_id (f t) = rt_family_id t \<and> rt_token_hash (f t) = rt_token_hash t
     \<and> rt_user_id (f t) = rt_user_id t \<and> rt_revoked_at (f t) \<noteq> None)"

inductive token_change :: "refresh_token list \<Rightarrow> refresh_token list \<Rightarrow> bool" where
  kept: "token_change ts ts"
| opened: "rt_family_id t \<notin> rt_family_id ` set ts \<Longrightarrow> rt_token_hash t \<notin> rt_token_hash ` set ts \<Longrightarrow>
    rt_used_at t = None \<Longrightarrow> token_change ts (ts @ [t])"
| revoked: "revoking f \<Longrightarrow> token_change ts (update_where P f ts)"
| replaced: "r \<in> set ts \<Longrightarrow> rt_token_hash r = h \<Longrightarrow> rt_revoked_at r = None \<Longrightarrow> revoking f \<Longrightarrow>
    rt_family_id t = rt_family_id r \<Longrightarrow> rt_user_id t = rt_user_id r \<Longrightarrow>
    rt_token_hash t \<notin> rt_token_hash ` set ts \<Longrightarrow> rt_used_at t = None \<Longrightarrow>
    token_change ts (update_where (\<lambda>x. rt_token_hash x = h) f ts @ [t])"

lemma resolve_identity_tokens:
  "resolve_identity uid p s e v d av l g a = Inr (user, a') \<Longrightarrow>
     au_tokens a' = au_tokens a \<and> au_states a' = au_states a"
  by (auto simp: resolve_identity_def Let_def split: option.splits if_splits)

lemma update_users_tokens [simp]:
  "au_tokens (update_users P f a) = au_tokens a" "au_states (update_users P f a) = au_states a"
  by (simp_all add: update_users_def)

lemma issue_session_change:
  "issue_session T now tid family raw user a = Inr (r, a') \<Longrightarrow> fresh_family family a \<Longrightarrow>
     token_change (au_tokens a) (au_tokens a') \<and> au_states a' = au_states a"
  by (auto simp: issue_session_def fresh_family_def intro!: opened split: if_splits)

lemma github_login_change:
  assumes "synchronize_github_login T now ids raw g xs l a = Inr (r, a')" and "fresh_family (li_family ids) a"
  shows "token_change (au_tokens a) (au_tokens a') \<and> au_states a' = au_states a"
  using assms
  by (auto simp: synchronize_github_login_def Let_def fresh_family_def
      dest!: resolve_identity_tokens issue_session_change split: sum.splits if_splits prod.splits)

lemma google_login_change:
  assumes "synchronize_google_login T now ids raw i l a = Inr (r, a')" and "fresh_family (li_family ids) a"
  shows "token_change (au_tokens a) (au_tokens a') \<and> au_states a' = au_states a"
  using assms
  by (auto simp: synchronize_google_login_def fresh_family_def
      dest!: resolve_identity_tokens issue_session_change split: sum.splits)

lemma consume_tokens:
  "consume_oauth_state T now s v p n a = (r, a') \<Longrightarrow> au_tokens a' = au_tokens a \<and> au_identities a' = au_identities a
     \<and> au_db a' = au_db a"
  by (auto simp: consume_oauth_state_def Let_def split: option.splits if_splits)

lemma start_oauth_tokens: "au_tokens (snd (start_oauth T now g p l s v n a)) = au_tokens a"
  by (simp add: start_oauth_def Let_def)

lemma revoke_family_change: "token_change (au_tokens a) (au_tokens (revoke_family now reason family a))"
  by (auto simp: revoke_family_def revoking_def intro!: revoked)

lemma rotate_change: "token_change (au_tokens a) (au_tokens (snd (rotate_refresh_token T now tid n raw a)))"
proof (cases "select_first (\<lambda>t. rt_token_hash t = tk_hash_opaque_token T raw) (au_tokens a)")
  case None
  then show ?thesis by (simp add: rotate_refresh_token_def kept)
next
  case (Some r)
  note r = select_first_SomeD [OF Some]
  show ?thesis
    using Some r
    by (auto simp: rotate_refresh_token_def Let_def revoking_def
        intro: kept revoke_family_change intro!: revoked replaced [where r = r])
qed

lemma committed_cases:
  "(snd (committed a r) = a \<and> (\<exists>e. r = Inl e)) \<or> (\<exists>x. r = Inr (x, snd (committed a r)))"
  by (auto simp: committed_def split: sum.splits)

lemma github_callback_change:
  assumes "fresh_family (li_family ids) a"
  shows "token_change (au_tokens a) (au_tokens (snd (authenticate_callback T now later ids raw github state verifier a)))"
proof -
  { fix v r a1
    assume c: "consume_oauth_state T now state v GITHUB None a = (r, a1)"
    note same = consume_tokens [OF c]
    have "token_change (au_tokens a) (au_tokens (snd (committed a1
        (synchronize_github_login T later ids raw g xs l a1))))" for g xs l
      using committed_cases [of a1 "synchronize_github_login T later ids raw g xs l a1"] same assms
      by (auto simp: fresh_family_def kept dest!: github_login_change) }
  then show ?thesis
    by (auto simp: authenticate_callback_def kept consume_tokens split: option.split sum.splits prod.splits)
qed

lemma google_callback_change:
  assumes "fresh_family (li_family ids) a"
  shows "token_change (au_tokens a)
    (au_tokens (snd (authenticate_google_callback T now later ids raw google state verifier nonce a)))"
proof -
  { fix v n r a1
    assume c: "consume_oauth_state T now state v GOOGLE n a = (r, a1)"
    note same = consume_tokens [OF c]
    have "token_change (au_tokens a) (au_tokens (snd (committed a1
        (synchronize_google_login T later ids raw i l a1))))" for i l
      using committed_cases [of a1 "synchronize_google_login T later ids raw i l a1"] same assms
      by (auto simp: fresh_family_def kept dest!: google_login_change) }
  then show ?thesis
    by (auto simp: authenticate_google_callback_def kept consume_tokens split: option.split sum.splits prod.splits)
qed

lemma step_tokens: "auth_step T a a' \<Longrightarrow> token_change (au_tokens a) (au_tokens a')"
proof (induction rule: auth_step.induct)
  case (logged_out a now cookie)
  show ?case by (auto simp: logout_def kept revoke_family_change split: option.split)
next
  case (profile_updated user custom colour clear clear_colour a a')
  then show ?case by (auto simp: update_profile_def kept split: if_splits)
qed (simp_all add: start_oauth_tokens github_callback_change google_callback_change rotate_change kept)

section \<open>Token families\<close>

definition tokens_inv :: "refresh_token list \<Rightarrow> bool" where
  "tokens_inv ts \<longleftrightarrow> distinct (map rt_token_hash ts)
     \<and> (\<forall>t \<in> set ts. rt_used_at t \<noteq> None \<longrightarrow> rt_revoked_at t \<noteq> None)
     \<and> (\<forall>t \<in> set ts. \<forall>u \<in> set ts. rt_family_id t = rt_family_id u \<longrightarrow> rt_user_id t = rt_user_id u
          \<and> (rt_revoked_at t = None \<and> rt_revoked_at u = None \<longrightarrow> rt_token_hash t = rt_token_hash u))"

lemma tokens_invD:
  assumes "tokens_inv ts"
  shows "distinct (map rt_token_hash ts)"
    and "t \<in> set ts \<Longrightarrow> rt_used_at t \<noteq> None \<Longrightarrow> rt_revoked_at t \<noteq> None"
    and "t \<in> set ts \<Longrightarrow> u \<in> set ts \<Longrightarrow> rt_family_id t = rt_family_id u \<Longrightarrow> rt_user_id t = rt_user_id u"
    and "t \<in> set ts \<Longrightarrow> u \<in> set ts \<Longrightarrow> rt_family_id t = rt_family_id u \<Longrightarrow> rt_revoked_at t = None \<Longrightarrow>
      rt_revoked_at u = None \<Longrightarrow> rt_token_hash t = rt_token_hash u"
  using assms unfolding tokens_inv_def by blast+

lemma revokingD:
  assumes "revoking f"
  shows "rt_family_id (f t) = rt_family_id t" "rt_token_hash (f t) = rt_token_hash t"
    "rt_user_id (f t) = rt_user_id t" "rt_revoked_at (f t) \<noteq> None"
  using assms by (simp_all add: revoking_def)

lemma revoke_inv:
  assumes "tokens_inv ts" and "revoking f"
  shows "tokens_inv (update_where P f ts)"
proof -
  note D = tokens_invD [OF assms(1)] and F = revokingD [OF assms(2)]
  have hashes: "map rt_token_hash (update_where P f ts) = map rt_token_hash ts"
    by (simp add: map_update_where F)
  have origin: "\<exists>t0 \<in> set ts. rt_family_id t = rt_family_id t0 \<and> rt_user_id t = rt_user_id t0
      \<and> rt_token_hash t = rt_token_hash t0 \<and> (rt_revoked_at t = None \<longrightarrow> t = t0)
      \<and> (rt_used_at t \<noteq> None \<longrightarrow> rt_revoked_at t \<noteq> None)"
    if "t \<in> set (update_where P f ts)" for t
    using that
  proof (cases rule: update_where_cases)
    case old
    then show ?thesis using D(2) by blast
  next
    case (new t0)
    then show ?thesis using F by metis
  qed
  show ?thesis
    unfolding tokens_inv_def hashes
  proof (intro conjI ballI impI)
    fix t u
    assume "t \<in> set (update_where P f ts)" "u \<in> set (update_where P f ts)" and fam: "rt_family_id t = rt_family_id u"
    then obtain t0 u0 where tu: "t0 \<in> set ts" "u0 \<in> set ts" "rt_family_id t = rt_family_id t0"
      "rt_family_id u = rt_family_id u0" "rt_user_id t = rt_user_id t0" "rt_user_id u = rt_user_id u0"
      "rt_revoked_at t = None \<longrightarrow> t = t0" "rt_revoked_at u = None \<longrightarrow> u = u0"
      using origin by meson
    have fam0: "rt_family_id t0 = rt_family_id u0" using tu(3,4) fam by metis
    show "rt_user_id t = rt_user_id u" using D(3) [OF tu(1,2) fam0] tu(5,6) by metis
    assume live: "rt_revoked_at t = None \<and> rt_revoked_at u = None"
    have "t = t0" by (rule mp [OF tu(7) conjunct1 [OF live]])
    moreover have "u = u0" by (rule mp [OF tu(8) conjunct2 [OF live]])
    ultimately show "rt_token_hash t = rt_token_hash u" using D(4) [OF tu(1,2) fam0] live by simp
  qed (use D(1) origin in blast)+
qed

lemma append_inv:
  assumes ts: "tokens_inv ts" and fresh: "rt_token_hash t \<notin> rt_token_hash ` set ts" and unused: "rt_used_at t = None"
    and family: "\<And>u. u \<in> set ts \<Longrightarrow> rt_family_id u = rt_family_id t \<Longrightarrow>
      rt_revoked_at u \<noteq> None \<and> rt_user_id u = rt_user_id t"
  shows "tokens_inv (ts @ [t])"
  unfolding tokens_inv_def
proof (intro conjI ballI impI)
  show "distinct (map rt_token_hash (ts @ [t]))" using tokens_invD(1) [OF ts] fresh by simp
next
  fix u
  assume "u \<in> set (ts @ [t])" and "rt_used_at u \<noteq> None"
  then show "rt_revoked_at u \<noteq> None" using tokens_invD(2) [OF ts] unused by auto
next
  fix u v
  assume uv: "u \<in> set (ts @ [t])" "v \<in> set (ts @ [t])" and fam: "rt_family_id u = rt_family_id v"
  then consider (both) "u \<in> set ts" "v \<in> set ts" | (same) "u = v" | (left) "u = t" "v \<in> set ts"
    | (right) "u \<in> set ts" "v = t" by auto
  then have "rt_user_id u = rt_user_id v \<and> (rt_revoked_at u = None \<and> rt_revoked_at v = None \<longrightarrow>
      rt_token_hash u = rt_token_hash v)"
  proof cases
    case both
    then show ?thesis using tokens_invD(3,4) [OF ts both fam] by blast
  next
    case left
    then show ?thesis using family [of v] fam by auto
  next
    case right
    then show ?thesis using family [of u] fam by auto
  qed simp
  then show "rt_user_id u = rt_user_id v"
    and "rt_revoked_at u = None \<and> rt_revoked_at v = None \<Longrightarrow> rt_token_hash u = rt_token_hash v" by blast+
qed

lemma token_change_inv: "token_change ts ts' \<Longrightarrow> tokens_inv ts \<Longrightarrow> tokens_inv ts'"
proof (induction rule: token_change.induct)
  case (opened t ts)
  then show ?case by (intro append_inv) (auto simp: image_iff)
next
  case (replaced r ts h f t)
  note F = revokingD [OF replaced.hyps(4)] and D = tokens_invD [OF replaced.prems]
  let ?us = "update_where (\<lambda>x. rt_token_hash x = h) f ts"
  show ?case
  proof (intro append_inv)
    fix u
    assume u: "u \<in> set ?us" and fam: "rt_family_id u = rt_family_id t"
    from u show "rt_revoked_at u \<noteq> None \<and> rt_user_id u = rt_user_id t"
    proof (cases rule: update_where_cases)
      case old
      then have "rt_family_id u = rt_family_id r" using fam replaced.hyps(5) by metis
      with D(3,4) [OF old(1) replaced.hyps(1)] show ?thesis using old(2) replaced.hyps(2,3,6) by metis
    next
      case (new v)
      then have "rt_family_id v = rt_family_id r" using fam replaced.hyps(5) F(1) by metis
      with D(3) [OF new(1) replaced.hyps(1)] show ?thesis using new(3) replaced.hyps(6) F(3,4) by metis
    qed
  next
    show "rt_token_hash t \<notin> rt_token_hash ` set ?us"
      using replaced.hyps(7) by (auto simp: set_update_where F)
  qed (use replaced revoke_inv in auto)
qed (simp_all add: revoke_inv)

lemma empty_tokens_inv: "tokens_inv (au_tokens (empty_auth db))"
  by (simp add: tokens_inv_def empty_auth_def)

interpretation tokens: step_invariant "\<lambda>a. \<exists>db. a = empty_auth db" "auth_step T" "\<lambda>a. tokens_inv (au_tokens a)" for T
  by unfold_locales (auto simp: empty_tokens_inv dest: step_tokens token_change_inv)

lemma live_family:
  assumes "tokens_inv ts"
  shows "length (filter (\<lambda>t. rt_family_id t = family \<and> rt_revoked_at t = None) ts) \<le> 1"
proof -
  let ?live = "filter (\<lambda>t. rt_family_id t = family \<and> rt_revoked_at t = None) ts"
  have "card (set (map rt_token_hash ?live)) \<le> 1"
    using tokens_invD(4) [OF assms] by (intro card_le_Suc0_iff_eq [THEN iffD2, unfolded One_nat_def [symmetric]]) auto
  moreover have "distinct (map rt_token_hash ?live)"
    using tokens_invD(1) [OF assms] by (simp add: distinct_map_filter)
  ultimately show ?thesis by (metis distinct_card length_map)
qed

text \<open>Once all tokens of a family are revoked, no step adds a live one; a revoked row stays.\<close>

definition family_dead :: "uuid \<Rightarrow> refresh_token list \<Rightarrow> bool" where
  "family_dead family ts \<longleftrightarrow> family \<in> rt_family_id ` set ts
     \<and> (\<forall>t \<in> set ts. rt_family_id t = family \<longrightarrow> rt_revoked_at t \<noteq> None)"

definition spent :: "string \<Rightarrow> uuid \<Rightarrow> refresh_token list \<Rightarrow> bool" where
  "spent h family ts \<longleftrightarrow> (\<exists>t \<in> set ts. rt_token_hash t = h \<and> rt_family_id t = family \<and> rt_revoked_at t \<noteq> None)"

lemma update_families: "revoking f \<Longrightarrow> rt_family_id ` set (update_where P f ts) = rt_family_id ` set ts"
  by (auto simp: revokingD map_update_where simp flip: set_map)

lemma revoke_dead:
  assumes "family_dead family ts" and "revoking f"
  shows "family_dead family (update_where P f ts)"
  unfolding family_dead_def update_families [OF assms(2)]
proof (intro conjI ballI impI)
  show "family \<in> rt_family_id ` set ts" using assms(1) by (simp add: family_dead_def)
next
  fix t
  assume "t \<in> set (update_where P f ts)" and "rt_family_id t = family"
  then show "rt_revoked_at t \<noteq> None"
    using assms by (cases rule: update_where_cases) (auto simp: family_dead_def revokingD(4) simp del: not_None_eq)
qed

lemma family_stays_dead: "token_change ts ts' \<Longrightarrow> family_dead family ts \<Longrightarrow> family_dead family ts'"
proof (induction rule: token_change.induct)
  case (replaced r ts h f t)
  have "rt_family_id t \<noteq> family" using replaced unfolding family_dead_def by metis
  then show ?case using revoke_dead [OF replaced.prems replaced.hyps(4)] unfolding family_dead_def by auto
next
  case (opened t ts)
  then show ?case unfolding family_dead_def by auto
qed (auto intro: revoke_dead)

lemma spent_update:
  assumes "spent h family ts" and "revoking f"
  shows "spent h family (update_where P f ts)"
proof -
  obtain t where t: "t \<in> set ts" "rt_token_hash t = h" "rt_family_id t = family" "rt_revoked_at t \<noteq> None"
    using assms(1) unfolding spent_def by blast
  have "(if P t then f t else t) \<in> set (update_where P f ts)" using t(1) by (auto simp: set_update_where)
  then show ?thesis
    unfolding spent_def
    by (rule bexI [rotated]) (use t revokingD [OF assms(2)] in simp)
qed

lemma stays_spent: "token_change ts ts' \<Longrightarrow> spent h family ts \<Longrightarrow> spent h family ts'"
proof (induction rule: token_change.induct)
  case (replaced r ts h' f t)
  then show ?case using spent_update [OF replaced.prems replaced.hyps(4)] unfolding spent_def by auto
next
  case (opened t ts)
  then show ?case unfolding spent_def by auto
qed (auto intro: spent_update)

text \<open>Both are kept by every run, whatever state it starts from.\<close>

interpretation dead: step_invariant "\<lambda>a. family_dead family (au_tokens a)" "auth_step T"
  "\<lambda>a. family_dead family (au_tokens a)" for T family
  by unfold_locales (auto dest: step_tokens family_stays_dead)

interpretation spent: step_invariant "\<lambda>a. spent h family (au_tokens a)" "auth_step T"
  "\<lambda>a. spent h family (au_tokens a)" for T h family
  by unfold_locales (auto dest: step_tokens stays_spent)

lemma select_token:
  assumes "tokens_inv ts" and "t \<in> set ts" and "rt_token_hash t = h"
  shows "select_first (\<lambda>x. rt_token_hash x = h) ts = Some t"
  using tokens_invD(1) [OF assms(1)] assms(2,3) by (intro select_first_key [where key = rt_token_hash]) auto

text \<open>A token that is revoked is refused as reused, and that revokes its family.\<close>

lemma revoke_family_dead:
  assumes "family \<in> rt_family_id ` set (au_tokens a)"
  shows "family_dead family (au_tokens (revoke_family now reason family a))"
proof -
  let ?f = "\<lambda>t. t\<lparr>rt_revoked_at := Some now, rt_revocation_reason := Some reason\<rparr>"
  let ?ts = "update_where (\<lambda>t. rt_family_id t = family) ?f (au_tokens a)"
  have f: "revoking ?f" by (simp add: revoking_def)
  have "rt_revoked_at t \<noteq> None" if "t \<in> set ?ts" "rt_family_id t = family" for t
    using that(1)
  proof (cases rule: update_where_cases)
    case old
    with that(2) show ?thesis by simp
  next
    case (new t0)
    then show ?thesis by simp
  qed
  then have "family_dead family ?ts" using assms by (simp add: family_dead_def update_families [OF f])
  then show ?thesis by (simp add: revoke_family_def)
qed

lemma rotate_spent:
  assumes "tokens_inv (au_tokens a)" and "spent (tk_hash_opaque_token T raw) family (au_tokens a)"
  shows "rotate_refresh_token T now tid n raw a = (Inl RefreshTokenReuseError, revoke_family now ''reuse_detected'' family a)"
    and "family_dead family (au_tokens (revoke_family now ''reuse_detected'' family a))"
proof -
  obtain t where t: "t \<in> set (au_tokens a)" "rt_token_hash t = tk_hash_opaque_token T raw"
    "rt_family_id t = family" "rt_revoked_at t \<noteq> None" using assms(2) unfolding spent_def by blast
  show "rotate_refresh_token T now tid n raw a = (Inl RefreshTokenReuseError, revoke_family now ''reuse_detected'' family a)"
    using select_token [OF assms(1) t(1,2)] t(3,4) by (simp add: rotate_refresh_token_def)
  show "family_dead family (au_tokens (revoke_family now ''reuse_detected'' family a))"
    using t(1,3) by (intro revoke_family_dead) auto
qed

lemma rotate_spends:
  assumes "rotate_refresh_token T now tid n raw a = (Inr res, a')" and "t \<in> set (au_tokens a)"
    and "tokens_inv (au_tokens a)" and "rt_token_hash t = tk_hash_opaque_token T raw"
  shows "spent (tk_hash_opaque_token T raw) (rt_family_id t) (au_tokens a')"
proof -
  let ?h = "tk_hash_opaque_token T raw"
  let ?f = "\<lambda>t. t\<lparr>rt_used_at := Some now, rt_revoked_at := Some now, rt_revocation_reason := Some ''rotated''\<rparr>"
  have "set (update_where (\<lambda>t. rt_token_hash t = ?h) ?f (au_tokens a)) \<subseteq> set (au_tokens a')"
    using assms(1) select_token [OF assms(3,2,4)]
    by (auto simp: rotate_refresh_token_def Let_def split: if_splits)
  moreover have "?f t \<in> set (update_where (\<lambda>t. rt_token_hash t = ?h) ?f (au_tokens a))"
    using assms(2,4) unfolding set_update_where by (intro image_eqI [where x = t]) simp_all
  ultimately have "?f t \<in> set (au_tokens a')" by blast
  then show ?thesis unfolding spent_def using assms(4) by (intro bexI [where x = "?f t"]) simp_all
qed

section \<open>OAuth states\<close>

definition state_used :: "string \<Rightarrow> auth_db \<Rightarrow> bool" where
  "state_used h a \<longleftrightarrow> h \<in> os_state_hash ` set (au_states a)
     \<and> (\<forall>r \<in> set (au_states a). os_state_hash r = h \<longrightarrow> os_used_at r \<noteq> None)"

text \<open>A transaction leaves the states, marks the one it consumes, or adds one under a new hash.\<close>

inductive state_change :: "oauth_state list \<Rightarrow> oauth_state list \<Rightarrow> bool" where
  unchanged: "state_change rs rs"
| consumed: "state_change rs (update_where P (\<lambda>r. r\<lparr>os_used_at := Some now\<rparr>) rs)"
| created: "os_state_hash r \<notin> os_state_hash ` set rs \<Longrightarrow> state_change rs (rs @ [r])"

lemma consume_change: "state_change (au_states a) (au_states (snd (consume_oauth_state T now s v p n a)))"
  by (auto simp: consume_oauth_state_def Let_def intro: unchanged consumed split: option.split)

lemma start_change: "state_change (au_states a) (au_states (snd (start_oauth T now g p l s v n a)))"
  by (auto simp: start_oauth_def Let_def intro!: unchanged created)

lemma login_states:
  "fresh_family (li_family ids) a \<Longrightarrow>
     au_states (snd (committed a (synchronize_github_login T now ids raw g xs l a))) = au_states a"
  "fresh_family (li_family ids) a \<Longrightarrow>
     au_states (snd (committed a (synchronize_google_login T now ids raw i l a))) = au_states a"
  by (auto simp: committed_def dest: github_login_change google_login_change split: sum.splits)

lemma callback_states:
  assumes "fresh_family (li_family ids) a"
  shows "state_change (au_states a) (au_states (snd (authenticate_callback T now later ids raw github state verifier a)))"
    and "state_change (au_states a)
      (au_states (snd (authenticate_google_callback T now later ids raw google state verifier nonce a)))"
proof -
  { fix v p n r a1
    assume c: "consume_oauth_state T now state v p n a = (r, a1)"
    have "state_change (au_states a) (au_states a1)" "fresh_family (li_family ids) a1"
      using consume_change [of a T now state v p n] consume_tokens [OF c] assms by (simp_all add: c fresh_family_def) }
  note after = this
  show "state_change (au_states a) (au_states (snd (authenticate_callback T now later ids raw github state verifier a)))"
    by (auto simp: authenticate_callback_def unchanged after login_states split: option.split sum.splits prod.splits)
  show "state_change (au_states a)
      (au_states (snd (authenticate_google_callback T now later ids raw google state verifier nonce a)))"
    by (auto simp: authenticate_google_callback_def unchanged after login_states
        split: option.split sum.splits prod.splits)
qed

lemma step_states: "auth_step T a a' \<Longrightarrow> state_change (au_states a) (au_states a')"
proof (induction rule: auth_step.induct)
  case (token_rotated a now tid new_raw raw)
  show ?case
    by (auto simp: rotate_refresh_token_def revoke_family_def Let_def intro: unchanged split: option.split)
next
  case (logged_out a now cookie)
  show ?case by (auto simp: logout_def revoke_family_def unchanged split: option.split)
next
  case (profile_updated user custom colour clear clear_colour a a')
  then show ?case by (auto simp: update_profile_def unchanged split: if_splits)
qed (simp_all add: start_change callback_states unchanged)

lemma used_stays_used: "state_change (au_states a) (au_states a') \<Longrightarrow> state_used h a \<Longrightarrow> state_used h a'"
proof (induction "au_states a" "au_states a'" rule: state_change.induct)
  case (consumed P now)
  have "os_state_hash ` set (au_states a') = os_state_hash ` set (au_states a)"
    unfolding consumed(1) [symmetric] by (simp add: map_update_where flip: set_map)
  moreover have "os_used_at r \<noteq> None" if "r \<in> set (au_states a')" "os_state_hash r = h" for r
    using that consumed(2) unfolding consumed(1) [symmetric] state_used_def
    by (auto simp: set_update_where split: if_splits)
  ultimately show ?case using consumed(2) by (auto simp: state_used_def)
next
  case (created r)
  have "au_states a' = au_states a @ [r]" using created(2) by simp
  then show ?case using created(1,3) by (auto simp: state_used_def)
qed (auto simp: state_used_def)

interpretation used: step_invariant "state_used h" "auth_step T" "state_used h" for T h
  by unfold_locales (auto dest: step_states used_stays_used)

lemma consume_uses:
  assumes "consume_oauth_state T now state verifier provider nonce a = (Inr r, a')"
  shows "state_used (tk_hash_opaque_token T state) a'"
proof -
  let ?h = "tk_hash_opaque_token T state"
  let ?rs = "update_where (\<lambda>r. os_state_hash r = ?h) (\<lambda>r. r\<lparr>os_used_at := Some now\<rparr>) (au_states a)"
  obtain r0 where r0: "select_first (\<lambda>r. os_state_hash r = ?h) (au_states a) = Some r0" "au_states a' = ?rs"
    using assms by (auto simp: consume_oauth_state_def Let_def split: option.splits if_splits)
  have "?h \<in> os_state_hash ` set (au_states a)"
    using select_first_SomeD [OF r0(1)] by (intro image_eqI [where x = r0]) simp_all
  moreover have "os_state_hash ` set ?rs = os_state_hash ` set (au_states a)"
    by (simp add: map_update_where flip: set_map)
  moreover have "os_used_at r \<noteq> None" if "r \<in> set ?rs" "os_state_hash r = ?h" for r
    using that by (cases rule: update_where_cases) auto
  ultimately show ?thesis using r0(2) by (auto simp: state_used_def)
qed

lemma used_refused:
  assumes "state_used (tk_hash_opaque_token T state) a"
  shows "consume_oauth_state T now state verifier provider nonce a = (Inl OAuthStateError, a)"
proof (cases "select_first (\<lambda>r. os_state_hash r = tk_hash_opaque_token T state) (au_states a)")
  case None
  then show ?thesis by (simp add: consume_oauth_state_def)
next
  case (Some r)
  then have "os_used_at r \<noteq> None" using assms by (auto simp: state_used_def dest!: select_first_SomeD)
  with Some show ?thesis by (simp add: consume_oauth_state_def)
qed

section \<open>Properties\<close>

text \<open>
  C12: In every reachable state of the session store a family of refresh tokens has at most one token that is
  not revoked, all its tokens belong to one user, and a used token is revoked.
\<close>

theorem refresh_family_single:
  assumes "auth_steps T (empty_auth db) a"
  shows "length (filter (\<lambda>t. rt_family_id t = family \<and> rt_revoked_at t = None) (au_tokens a)) \<le> 1
    \<and> (\<forall>t \<in> set (au_tokens a). \<forall>u \<in> set (au_tokens a). rt_family_id t = rt_family_id u \<longrightarrow> rt_user_id t = rt_user_id u)
    \<and> (\<forall>t \<in> set (au_tokens a). rt_used_at t \<noteq> None \<longrightarrow> rt_revoked_at t \<noteq> None)"
proof -
  have inv: "tokens_inv (au_tokens a)" using tokens.reach_inv assms by blast
  show ?thesis using live_family [OF inv] tokens_invD(2,3) [OF inv] by blast
qed

text \<open>
  C10: A replayed refresh token ends its session: after a token has been rotated, presenting it again, whatever
  happened meanwhile, is refused as reuse, and from then on every token of its family, the successors
  included, is refused as reuse too.
\<close>

theorem replay_revokes_family:
  assumes "auth_steps T (empty_auth db) a" and "t \<in> set (au_tokens a)" and "rt_token_hash t = tk_hash_opaque_token T raw"
    and "rotate_refresh_token T now tid n raw a = (Inr res, a1)" and "auth_steps T a1 a2"
    and "rotate_refresh_token T nowb tidb nb raw a2 = (r2, a3)" and "auth_steps T a3 a4"
    and "u \<in> set (au_tokens a4)" and "rt_family_id u = rt_family_id t" and "rt_token_hash u = tk_hash_opaque_token T rawd"
  shows "r2 = Inl RefreshTokenReuseError
    \<and> fst (rotate_refresh_token T nowd tidd nd rawd a4) = Inl RefreshTokenReuseError"
proof -
  have inv: "tokens_inv (au_tokens a)" using tokens.reach_inv assms(1) by blast
  have step: "auth_step T a a1" using token_rotated [of T a now tid n raw] assms(4) by simp
  have inv2: "tokens_inv (au_tokens a2)" using tokens.steps_inv [OF assms(5)] tokens.step_inv [OF inv step] by blast
  have "spent (tk_hash_opaque_token T raw) (rt_family_id t) (au_tokens a2)"
    by (rule spent.steps_inv [OF assms(5) rotate_spends [OF assms(4,2) inv assms(3)]])
  note replay = rotate_spent [OF inv2 this]
  have a3: "r2 = Inl RefreshTokenReuseError" "a3 = revoke_family nowb ''reuse_detected'' (rt_family_id t) a2"
    using replay(1) [of nowb tidb nb] assms(6) by simp_all
  have step3: "auth_step T a2 a3" using token_rotated [of T a2 nowb tidb nb raw] assms(6) by simp
  have inv4: "tokens_inv (au_tokens a4)" using tokens.steps_inv [OF assms(7)] tokens.step_inv [OF inv2 step3] by blast
  have "family_dead (rt_family_id t) (au_tokens a4)"
    using dead.steps_inv [OF assms(7)] replay(2) unfolding a3(2) by blast
  then have "spent (tk_hash_opaque_token T rawd) (rt_family_id t) (au_tokens a4)"
    using assms(8-10) unfolding family_dead_def spent_def by blast
  from rotate_spent(1) [OF inv4 this, of nowd tidd nd] a3(1) show ?thesis by simp
qed

text \<open>
  C11: An OAuth state is good for one sign-in: once it has been consumed, every callback that presents it again,
  with any verifier, provider, nonce and at any time, is refused and changes nothing, whatever happened
  in between.
\<close>

theorem oauth_state_single_use:
  assumes "consume_oauth_state T now state verifier provider nonce a = (Inr r, a1)" and "auth_steps T a1 a2"
  shows "authenticate_callback T now' later ids raw github state verifier' a2 = (Inl OAuthStateError, a2)
    \<and> authenticate_google_callback T now' later ids raw google state verifier' nonce' a2 = (Inl OAuthStateError, a2)"
proof -
  have "state_used (tk_hash_opaque_token T state) a2" by (rule used.steps_inv [OF assms(2) consume_uses [OF assms(1)]])
  note refused = used_refused [OF this]
  show ?thesis
    by (simp add: authenticate_callback_def authenticate_google_callback_def refused split: option.split)
qed

end
