(* ===== verification/AuthLogin.thy ===== *)
theory AuthLogin
  imports AuthRuns
begin

text \<open>
  Signing in: a sample run of the session store at which the properties of \<open>AuthRuns\<close> are applied, and
  what a GitHub login does to the installations and the memberships of the user.
\<close>

section \<open>A sample run\<close>

definition sample_hash :: "pystr \<Rightarrow> string" where
  "sample_hash s = map (\<lambda>_. CHR ''h'') s"

definition sample_tokens :: token_service where
  "sample_tokens = \<lparr>tk_hash_opaque_token = sample_hash, tk_code_challenge = (\<lambda>s. s),
     tk_refresh_ttl_seconds = 1000, tk_oauth_state_ttl_seconds = 600\<rparr>"

definition sample_ids :: login_ids where
  "sample_ids = \<lparr>li_user = 7, li_token = 11, li_family = 5, li_installations = (\<lambda>g. of_nat g)\<rparr>"

definition sample_identity :: google_identity where
  "sample_identity = \<lparr>gg_subject = [9], gg_email = [8], gg_email_verified = True, gg_display_name = None,
     gg_avatar_url = None\<rparr>"

definition no_rows :: db where
  "no_rows = \<lparr>db_jobs = [], db_repositories = [], db_builds = [], db_deliveries = [], db_symbols = [],
     db_edges = [], db_installations = [], db_members = [], db_users = [], db_user_repositories = []\<rparr>"

definition started :: auth_db where
  "started = snd (start_oauth sample_tokens 0 True GOOGLE None [1] [1, 1] [1, 1, 1] (empty_auth no_rows))"

definition signed_in :: auth_db where
  "signed_in = snd (authenticate_google_callback sample_tokens 1 2 sample_ids [1, 1, 1, 1]
     (Some (Inr sample_identity)) [1] (Some [1, 1]) (Some [1, 1, 1]) started)"

definition first_token :: refresh_token where
  "first_token = \<lparr>rt_id = 11, rt_family_id = 5, rt_user_id = 7, rt_token_hash = ''hhhh'', rt_parent_token_id = None,
     rt_expires_at = 1000000002, rt_used_at = None, rt_revoked_at = None, rt_revocation_reason = None\<rparr>"

definition consumed_state :: oauth_state where
  "consumed_state = \<lparr>os_state_hash = ''h'', os_code_verifier_hash = ''hh'', os_provider = GOOGLE, os_flow = SIGN_IN,
     os_nonce_hash = Some ''hhh'', os_intended_user_id = None, os_expires_at = 600000000, os_used_at = Some 1\<rparr>"

lemmas auth_eval = sample_tokens_def sample_hash_def sample_ids_def sample_identity_def select_first_def
  update_where_def seconds_def Let_def empty_auth_def no_rows_def

lemma started_states: "au_states started = [consumed_state\<lparr>os_used_at := None\<rparr>]"
  "au_tokens started = []" "au_identities started = []" "au_db started = no_rows"
  by (simp_all add: started_def start_oauth_def auth_eval consumed_state_def)

lemma consumed_started:
  "consume_oauth_state sample_tokens 1 [1] [1, 1] GOOGLE (Some [1, 1, 1]) started
     = (Inr consumed_state, started\<lparr>au_states := [consumed_state]\<rparr>)"
  by (simp add: consume_oauth_state_def started_states consumed_state_def nonce_accepted_def auth_eval)

lemma signed_in_committed:
  "signed_in = snd (committed (started\<lparr>au_states := [consumed_state]\<rparr>)
     (synchronize_google_login sample_tokens 2 sample_ids [1, 1, 1, 1] sample_identity None
       (started\<lparr>au_states := [consumed_state]\<rparr>)))"
  unfolding signed_in_def authenticate_google_callback_def
  by (simp add: consumed_started [unfolded One_nat_def] consumed_state_def)

lemmas sign_in_eval = signed_in_committed committed_def synchronize_google_login_def resolve_identity_def
  linked_user_def issue_session_def started_states update_users_def user_by_id_def new_user_def google_profile_def

lemma signed_in_tokens: "au_tokens signed_in = [first_token]"
  by (simp add: sign_in_eval first_token_def auth_eval)

lemma signed_in_user: "user_by_id 7 signed_in \<noteq> None"
  by (simp add: sign_in_eval auth_eval)

lemma run_started: "auth_step sample_tokens (empty_auth no_rows) started"
  unfolding started_def by (rule oauth_started)

lemma run_signed_in: "auth_steps sample_tokens (empty_auth no_rows) signed_in"
proof -
  have "auth_step sample_tokens started signed_in"
    unfolding signed_in_def by (rule google_callback) (simp add: fresh_family_def started_states)
  with run_started show ?thesis by (meson converse_rtranclp_into_rtranclp rtranclp.rtrancl_refl)
qed

definition rotated :: auth_db where
  "rotated = snd (rotate_refresh_token sample_tokens 3 12 [1, 1, 1, 1, 1] [1, 1, 1, 1] signed_in)"

definition second_token :: refresh_token where
  "second_token = first_token\<lparr>rt_id := 12, rt_token_hash := ''hhhhh'', rt_parent_token_id := Some 11,
     rt_expires_at := 1000000003\<rparr>"

definition spent_token :: refresh_token where
  "spent_token = first_token\<lparr>rt_used_at := Some 3, rt_revoked_at := Some 3, rt_revocation_reason := Some ''rotated''\<rparr>"

lemma rotation:
  "rotate_refresh_token sample_tokens 3 12 [1, 1, 1, 1, 1] [1, 1, 1, 1] signed_in
     = (Inr \<lparr>ar_user_id = 7, ar_refresh_token = [1, 1, 1, 1, 1]\<rparr>, rotated)"
  "au_tokens rotated = [spent_token, second_token]"
  using signed_in_user
  by (simp_all add: rotated_def rotate_refresh_token_def signed_in_tokens first_token_def second_token_def
      spent_token_def auth_eval del: not_None_eq)

lemma replayed:
  "fst (rotate_refresh_token sample_tokens 4 13 [1] [1, 1, 1, 1] rotated) = Inl RefreshTokenReuseError"
  "au_tokens (snd (rotate_refresh_token sample_tokens 4 13 [1] [1, 1, 1, 1] rotated))
     = map (\<lambda>t. t\<lparr>rt_revoked_at := Some 4, rt_revocation_reason := Some ''reuse_detected''\<rparr>) [spent_token, second_token]"
  by (simp_all add: rotate_refresh_token_def rotation(2) first_token_def second_token_def spent_token_def
      revoke_family_def auth_eval)

text \<open>After the rotation the family of the session has one live token.\<close>

theorem refresh_family_single_witness:
  "length (filter (\<lambda>t. rt_family_id t = 5 \<and> rt_revoked_at t = None) (au_tokens rotated)) \<le> 1
   \<and> filter (\<lambda>t. rt_family_id t = 5 \<and> rt_revoked_at t = None) (au_tokens rotated) = [second_token]"
proof -
  have "auth_step sample_tokens signed_in rotated" unfolding rotated_def by (rule token_rotated)
  with run_signed_in have run: "auth_steps sample_tokens (empty_auth no_rows) rotated" by (rule rtranclp.rtrancl_into_rtrancl)
  have "filter (\<lambda>t. rt_family_id t = 5 \<and> rt_revoked_at t = None) (au_tokens rotated) = [second_token]"
    by (simp add: rotation(2) spent_token_def second_token_def first_token_def)
  with refresh_family_single [OF run, of 5] show ?thesis by blast
qed

text \<open>The first token is presented again, then its successor.\<close>

theorem replay_revokes_family_witness:
  "fst (rotate_refresh_token sample_tokens 4 13 [1] [1, 1, 1, 1] rotated) = Inl RefreshTokenReuseError
   \<and> fst (rotate_refresh_token sample_tokens 5 14 [2] [1, 1, 1, 1, 1]
        (snd (rotate_refresh_token sample_tokens 4 13 [1] [1, 1, 1, 1] rotated))) = Inl RefreshTokenReuseError"
proof -
  let ?r = "rotate_refresh_token sample_tokens 4 13 [1] [1, 1, 1, 1] rotated"
  have u: "second_token\<lparr>rt_revoked_at := Some 4, rt_revocation_reason := Some ''reuse_detected''\<rparr> \<in> set (au_tokens (snd ?r))"
    unfolding replayed(2) by simp
  have "fst ?r = Inl RefreshTokenReuseError
    \<and> fst (rotate_refresh_token sample_tokens 5 14 [2] [1, 1, 1, 1, 1] (snd ?r)) = Inl RefreshTokenReuseError"
    by (rule replay_revokes_family [where t = first_token and raw = "[1, 1, 1, 1]" and nowb = 4 and tidb = 13
          and nb = "[1]", OF run_signed_in _ _ rotation(1) rtranclp.rtrancl_refl _ rtranclp.rtrancl_refl u])
      (simp_all add: signed_in_tokens first_token_def second_token_def auth_eval)
  then show ?thesis .
qed

text \<open>The state of the sample sign-in, presented again right away.\<close>

theorem oauth_state_single_use_witness:
  "authenticate_google_callback sample_tokens 9 9 sample_ids [2] (Some (Inr sample_identity)) [1] (Some [1, 1])
     (Some [1, 1, 1]) (started\<lparr>au_states := [consumed_state]\<rparr>) = (Inl OAuthStateError, started\<lparr>au_states := [consumed_state]\<rparr>)"
  using oauth_state_single_use [OF consumed_started rtranclp.rtrancl_refl, of 9 9 sample_ids "[2]" _ "Some [1, 1]"]
  by blast

section \<open>Memberships after a GitHub login\<close>

definition known_as :: "uuid \<Rightarrow> nat \<Rightarrow> db \<Rightarrow> bool" where
  "known_as installation gid db \<longleftrightarrow>
     (\<exists>i \<in> set (db_installations db). inst_id i = installation \<and> inst_github_installation_id i = gid)"

definition others :: "uuid \<Rightarrow> db \<Rightarrow> installation_member list" where
  "others user db = filter (\<lambda>m. mem_user_id m \<noteq> user) (db_members db)"

text \<open>A membership of the user that stands for one of the installations GitHub listed.\<close>

definition granted_by :: "time \<Rightarrow> uuid \<Rightarrow> nat \<Rightarrow> db \<Rightarrow> installation_data \<Rightarrow> installation_member \<Rightarrow> bool" where
  "granted_by now user gid db external m \<longleftrightarrow> mem_user_id m = user \<and> mem_verified_at m = now
     \<and> known_as (mem_installation_id m) (gi_id external) db
     \<and> mem_role m = (if owns_account gid external then OWNER else MEMBER)"

lemma fill_keeps [simp]: "inst_id (fill_installation gi i) = inst_id i"
  "inst_github_installation_id (fill_installation gi i) = inst_github_installation_id i"
  "inst_id (seen_installation gi i) = inst_id i"
  "inst_github_installation_id (seen_installation gi i) = inst_github_installation_id i"
  by (simp_all add: fill_installation_def seen_installation_def)

lemma known_update:
  "(\<And>i. inst_id (f i) = inst_id i \<and> inst_github_installation_id (f i) = inst_github_installation_id i) \<Longrightarrow>
     db_installations db' = update_where P f (db_installations db) \<Longrightarrow> known_as x gid db' = known_as x gid db"
  by (auto simp: known_as_def update_where_def)

lemma upsert_installation_known:
  assumes "upsert_installation iid gi db = (x, db')"
  shows "known_as x (gi_id gi) db'" and "known_as y gid db \<Longrightarrow> known_as y gid db'"
    and "db_members db' = db_members db"
proof -
  have "known_as x (gi_id gi) db' \<and> (known_as y gid db \<longrightarrow> known_as y gid db') \<and> db_members db' = db_members db"
  proof (cases "select_first (\<lambda>i. inst_github_installation_id i = gi_id gi) (db_installations db)")
    case None
    then show ?thesis using assms by (auto simp: upsert_installation_def known_as_def new_installation_def)
  next
    case (Some i)
    have rows: "db_installations db' = update_where (\<lambda>x. inst_id x = inst_id i) (fill_installation gi) (db_installations db)"
      "x = inst_id i" "db_members db' = db_members db"
      using assms Some by (auto simp: upsert_installation_def)
    have "known_as (inst_id i) (gi_id gi) db" using select_first_SomeD [OF Some] by (auto simp: known_as_def)
    then show ?thesis using rows by (simp add: known_update [OF _ rows(1)])
  qed
  then show "known_as x (gi_id gi) db'" and "known_as y gid db \<Longrightarrow> known_as y gid db'"
    and "db_members db' = db_members db" by blast+
qed

lemma filter_update_apart:
  "(\<And>r. Q r \<Longrightarrow> \<not> P r \<and> \<not> P (f r)) \<Longrightarrow> filter P (update_where Q f rs) = filter P rs"
  by (induction rs) (auto simp: update_where_def)

lemma upsert_membership_rows:
  fixes now x user role db
  defines "db' \<equiv> upsert_membership now x user role db"
  shows "db_installations db' = db_installations db" and "others user db' = others user db"
    and "\<exists>m \<in> set (db_members db'). mem_installation_id m = x \<and> mem_user_id m = user"
    and "m \<in> set (db_members db') \<Longrightarrow> m \<in> set (db_members db) \<and> \<not> (mem_installation_id m = x \<and> mem_user_id m = user)
      \<or> m = \<lparr>mem_installation_id = x, mem_user_id = user, mem_role = role, mem_verified_at = now\<rparr>"
    and "m \<in> set (db_members db) \<Longrightarrow> \<exists>m' \<in> set (db_members db'). mem_installation_id m' = mem_installation_id m
      \<and> mem_user_id m' = mem_user_id m"
proof -
  show "db_installations db' = db_installations db" by (simp add: db'_def upsert_membership_def)
  show "others user db' = others user db"
    by (auto simp: db'_def upsert_membership_def others_def intro!: filter_update_apart)
  let ?key = "\<lambda>m. (mem_installation_id m, mem_user_id m)"
  have keys: "?key ` set (db_members db') = insert (x, user) (?key ` set (db_members db))"
  proof (cases "list_ex (\<lambda>m. mem_installation_id m = x \<and> mem_user_id m = user) (db_members db)")
    case True
    then have "(x, user) \<in> ?key ` set (db_members db)" by (auto simp: list_ex_iff image_iff)
    moreover have "map ?key (db_members db') = map ?key (db_members db)"
      using True by (simp add: db'_def upsert_membership_def map_update_where)
    ultimately show ?thesis by (metis insert_absorb set_map)
  next
    case False
    then show ?thesis by (simp add: db'_def upsert_membership_def)
  qed
  then have "(x, user) \<in> ?key ` set (db_members db')" by simp
  then show "\<exists>m \<in> set (db_members db'). mem_installation_id m = x \<and> mem_user_id m = user" by auto
  show "m \<in> set (db_members db) \<and> \<not> (mem_installation_id m = x \<and> mem_user_id m = user)
      \<or> m = \<lparr>mem_installation_id = x, mem_user_id = user, mem_role = role, mem_verified_at = now\<rparr>"
    if "m \<in> set (db_members db')" for m
    using that by (auto simp: db'_def upsert_membership_def update_where_def list_ex_iff split: if_splits)
  show "\<exists>m' \<in> set (db_members db'). mem_installation_id m' = mem_installation_id m
      \<and> mem_user_id m' = mem_user_id m" if "m \<in> set (db_members db)" for m
  proof -
    have "?key m \<in> ?key ` set (db_members db')" using that unfolding keys by blast
    then show ?thesis by auto
  qed
qed

lemma upsert_user_installation_rows:
  assumes "upsert_user_installation now user gid iid external db = (x, db')"
  shows "known_as x (gi_id external) db'" and "known_as y h db \<Longrightarrow> known_as y h db'" and "others user db' = others user db"
    and "\<exists>m \<in> set (db_members db'). mem_installation_id m = x \<and> mem_user_id m = user"
    and "m \<in> set (db_members db') \<Longrightarrow> m \<in> set (db_members db) \<and> \<not> (mem_installation_id m = x \<and> mem_user_id m = user)
      \<or> granted_by now user gid db' external m \<and> mem_installation_id m = x"
    and "m \<in> set (db_members db) \<Longrightarrow> \<exists>m' \<in> set (db_members db'). mem_installation_id m' = mem_installation_id m
      \<and> mem_user_id m' = mem_user_id m"
proof -
  obtain db1 where u: "upsert_installation iid external db = (x, db1)"
    and db': "db' = upsert_membership now x user (if owns_account gid external then OWNER else MEMBER)
      (set_installation x (seen_installation external) db1)"
    using assms by (auto simp: upsert_user_installation_def Let_def split: prod.splits)
  let ?db2 = "set_installation x (seen_installation external) db1"
  have known: "known_as z k ?db2 = known_as z k db1" for z k
    by (rule known_update [where f = "seen_installation external"]) (auto simp: set_installation_def)
  have mem: "db_members ?db2 = db_members db"
    using upsert_installation_known(3) [OF u] by (simp add: set_installation_def)
  note rows = upsert_membership_rows [where db = ?db2 and x = x and user = user and now = now
      and role = "if owns_account gid external then OWNER else MEMBER", folded db']
  have same: "known_as z k db' = known_as z k db1" for z k
    using rows(1) known [of z k] by (simp add: known_as_def)
  show here: "known_as x (gi_id external) db'" using upsert_installation_known(1) [OF u] same by simp
  show "known_as y h db \<Longrightarrow> known_as y h db'" using upsert_installation_known(2) [OF u] same by simp
  show "others user db' = others user db" using rows(2) mem by (simp add: others_def)
  show "\<exists>m \<in> set (db_members db'). mem_installation_id m = x \<and> mem_user_id m = user" by (rule rows(3))
  show "m \<in> set (db_members db') \<Longrightarrow> m \<in> set (db_members db) \<and> \<not> (mem_installation_id m = x \<and> mem_user_id m = user)
      \<or> granted_by now user gid db' external m \<and> mem_installation_id m = x"
    using rows(4) [of m] here unfolding mem granted_by_def by auto
  show "m \<in> set (db_members db) \<Longrightarrow> \<exists>m' \<in> set (db_members db'). mem_installation_id m' = mem_installation_id m
      \<and> mem_user_id m' = mem_user_id m" using rows(5) [of m] unfolding mem .
qed

lemma upsert_user_installations_rows:
  assumes "upsert_user_installations now user gid ids xs db = (kept, db')"
  shows "(known_as y h db \<longrightarrow> known_as y h db') \<and> others user db' = others user db
    \<and> (\<forall>external \<in> set xs. \<exists>m \<in> set (db_members db'). mem_user_id m = user \<and> mem_installation_id m \<in> set kept
        \<and> known_as (mem_installation_id m) (gi_id external) db')
    \<and> (\<forall>m \<in> set (db_members db'). m \<in> set (db_members db) \<and> \<not> (mem_installation_id m \<in> set kept \<and> mem_user_id m = user)
        \<or> mem_installation_id m \<in> set kept \<and> (\<exists>external \<in> set xs. granted_by now user gid db' external m))
    \<and> (\<forall>m \<in> set (db_members db). \<exists>m' \<in> set (db_members db'). mem_installation_id m' = mem_installation_id m
        \<and> mem_user_id m' = mem_user_id m)"
  using assms
proof (induction xs arbitrary: db kept y h)
  case Nil
  then show ?case by auto
next
  case (Cons external xs)
  obtain x db1 rest where one: "upsert_user_installation now user gid (ids (gi_id external)) external db = (x, db1)"
    and more': "upsert_user_installations now user gid ids xs db1 = (rest, db')" and kept: "kept = x # rest"
    using Cons.prems by (auto split: prod.splits)
  note O = upsert_user_installation_rows [OF one] and R = Cons.IH [OF more']
  have grow: "known_as z k db1 \<Longrightarrow> known_as z k db'" for z k using R [of z k] by blast
  have head: "\<exists>m \<in> set (db_members db'). mem_user_id m = user \<and> mem_installation_id m \<in> set kept
      \<and> known_as (mem_installation_id m) (gi_id external) db'"
  proof -
    obtain m where m: "m \<in> set (db_members db1)" "mem_installation_id m = x" "mem_user_id m = user"
      using O(4) by blast
    obtain m' where "m' \<in> set (db_members db')" "mem_installation_id m' = x" "mem_user_id m' = user"
      using R m by metis
    with grow [OF O(1)] kept show ?thesis by auto
  qed
  have rows: "m \<in> set (db_members db) \<and> \<not> (mem_installation_id m \<in> set kept \<and> mem_user_id m = user)
      \<or> mem_installation_id m \<in> set kept \<and> (\<exists>e \<in> set (external # xs). granted_by now user gid db' e m)"
    if m: "m \<in> set (db_members db')" for m
  proof (cases "mem_installation_id m \<in> set rest \<and> (\<exists>e \<in> set xs. granted_by now user gid db' e m)")
    case True
    then show ?thesis by (auto simp: kept)
  next
    case False
    then have old: "m \<in> set (db_members db1)" "\<not> (mem_installation_id m \<in> set rest \<and> mem_user_id m = user)"
      using R m by blast+
    from O(5) [OF old(1)] show ?thesis
    proof
      assume "m \<in> set (db_members db) \<and> \<not> (mem_installation_id m = x \<and> mem_user_id m = user)"
      then show ?thesis using old(2) by (auto simp: kept)
    next
      assume "granted_by now user gid db1 external m \<and> mem_installation_id m = x"
      then have "granted_by now user gid db' external m" "mem_installation_id m = x"
        using grow by (auto simp: granted_by_def)
      then show ?thesis by (auto simp: kept)
    qed
  qed
  have stay: "\<exists>m' \<in> set (db_members db'). mem_installation_id m' = mem_installation_id m \<and> mem_user_id m' = mem_user_id m"
    if m: "m \<in> set (db_members db)" for m
  proof -
    obtain m1 where m1: "m1 \<in> set (db_members db1)" "mem_installation_id m1 = mem_installation_id m"
      "mem_user_id m1 = mem_user_id m" using O(6) [OF m] by blast
    have "\<exists>m' \<in> set (db_members db'). mem_installation_id m' = mem_installation_id m1 \<and> mem_user_id m' = mem_user_id m1"
      using R m1(1) by blast
    then show ?thesis by (simp add: m1(2,3))
  qed
  have tail: "\<exists>m \<in> set (db_members db'). mem_user_id m = user \<and> mem_installation_id m \<in> set kept
      \<and> known_as (mem_installation_id m) (gi_id e) db'" if e: "e \<in> set xs" for e
  proof -
    obtain m where "m \<in> set (db_members db')" "mem_user_id m = user" "mem_installation_id m \<in> set rest"
      "known_as (mem_installation_id m) (gi_id e) db'" using R e by blast
    then show ?thesis by (auto simp: kept)
  qed
  have "others user db' = others user db" using R O(3) by simp
  moreover have "known_as y h db \<longrightarrow> known_as y h db'" using O(2) grow by blast
  moreover have "\<forall>e \<in> set (external # xs). \<exists>m \<in> set (db_members db'). mem_user_id m = user
      \<and> mem_installation_id m \<in> set kept \<and> known_as (mem_installation_id m) (gi_id e) db'"
    using head tail by simp
  ultimately show ?case using rows stay by (intro conjI) blast+
qed

text \<open>
  C13: A GitHub login makes the memberships of the user those GitHub just listed: afterwards each of them was
  verified now, stands for a listed installation and has the role of owner exactly when the account is
  the user's own; each listed installation has one; and the memberships of other users are as before.
\<close>

theorem github_login_members:
  assumes "synchronize_github_login T now ids raw g installations linking a = Inr (res, a')"
  shows "(\<forall>m \<in> set (db_members (au_db a')). mem_user_id m = ar_user_id res \<longrightarrow>
        (\<exists>external \<in> set installations. granted_by now (ar_user_id res) (gu_id g) (au_db a') external m))
    \<and> (\<forall>external \<in> set installations. \<exists>m \<in> set (db_members (au_db a')). mem_user_id m = ar_user_id res
        \<and> known_as (mem_installation_id m) (gi_id external) (au_db a'))
    \<and> others (ar_user_id res) (au_db a') = others (ar_user_id res) (au_db a)"
proof -
  obtain user a1 kept db1 where r: "resolve_identity (li_user ids) GITHUB (dec_digits (gu_id g)) (gu_email g) False
        (gu_name g) (gu_avatar_url g) linking (Some (gu_id g)) a = Inr (user, a1)"
    and u: "upsert_user_installations now user (gu_id g) (li_installations ids) installations
        (au_db (update_users (\<lambda>u. usr_id u = user) (github_profile now g) a1)) = (kept, db1)"
    and a': "au_db a' = delete_other_memberships user kept db1" and res: "ar_user_id res = user"
    using assms by (auto simp: synchronize_github_login_def Let_def issue_session_def split: sum.splits if_splits prod.splits)
  have "db_members (au_db a1) = db_members (au_db a)"
    using r by (auto simp: resolve_identity_def Let_def split: option.splits if_splits)
  then have before: "others user (au_db (update_users (\<lambda>u. usr_id u = user) (github_profile now g) a1)) = others user (au_db a)"
    by (simp add: others_def update_users_def)
  note R = upsert_user_installations_rows [OF u]
  have known: "known_as x h (au_db a') = known_as x h db1" for x h by (simp add: a' delete_other_memberships_def known_as_def)
  have granted: "granted_by now user h (au_db a') e m = granted_by now user h db1 e m" for h e m
    by (simp add: granted_by_def known)
  have members: "m \<in> set (db_members (au_db a')) \<longleftrightarrow> m \<in> set (db_members db1)
      \<and> \<not> (mem_user_id m = user \<and> mem_installation_id m \<notin> set kept)" for m
    by (simp add: a' delete_other_memberships_def delete_where_def)
  have "\<exists>e \<in> set installations. granted_by now user (gu_id g) (au_db a') e m"
    if m: "m \<in> set (db_members (au_db a'))" "mem_user_id m = user" for m
  proof -
    have "m \<in> set (db_members db1)" "mem_installation_id m \<in> set kept" using members [of m] m by auto
    then show ?thesis using R m(2) unfolding granted by blast
  qed
  moreover have "\<exists>m \<in> set (db_members (au_db a')). mem_user_id m = user \<and> known_as (mem_installation_id m) (gi_id e) (au_db a')"
    if "e \<in> set installations" for e
  proof -
    obtain m where "m \<in> set (db_members db1)" "mem_user_id m = user" "mem_installation_id m \<in> set kept"
      "known_as (mem_installation_id m) (gi_id e) db1" using R \<open>e \<in> set installations\<close> by blast
    then show ?thesis unfolding known using members [of m] by blast
  qed
  moreover have "others user (au_db a') = others user db1"
    by (auto simp: others_def a' delete_other_memberships_def delete_where_def intro!: filter_cong)
  ultimately show ?thesis using R before unfolding res by simp
qed

text \<open>The user of GitHub account 3 signs in with their own account installed; an old membership goes.\<close>

definition sample_github_user :: github_user where
  "sample_github_user = \<lparr>gu_id = 3, gu_login = ''u'', gu_name = None, gu_avatar_url = None, gu_email = None\<rparr>"

definition sample_installation :: installation_data where
  "sample_installation = \<lparr>gi_id = 40, gi_account = \<lparr>ga_id = 3, ga_login = ''u'', ga_is_user = True\<rparr>, gi_permissions = [],
     gi_selection_all = True, gi_suspended_at = None\<rparr>"

definition member_row :: "uuid \<Rightarrow> uuid \<Rightarrow> time \<Rightarrow> installation_member_role \<Rightarrow> installation_member" where
  "member_row i u t role = \<lparr>mem_installation_id = i, mem_user_id = u, mem_role = role, mem_verified_at = t\<rparr>"

definition before_login :: auth_db where
  "before_login = empty_auth (no_rows\<lparr>db_users := [(new_user 1 None None None)\<lparr>usr_github_user_id := Some 3\<rparr>],
     db_members := [member_row 9 1 0 MEMBER, member_row 9 2 0 MEMBER]\<rparr>)"

lemmas login_eval = synchronize_github_login_def resolve_identity_def linked_user_def before_login_def
  update_users_def github_profile_def upsert_user_installation_def upsert_installation_def
  set_installation_def upsert_membership_def delete_other_memberships_def delete_where_def issue_session_def
  owns_account_def sample_installation_def sample_github_user_def new_user_def new_installation_def
  fill_installation_def seen_installation_def member_row_def user_by_id_def same_subject_def

lemma sample_login:
  "\<exists>a'. synchronize_github_login sample_tokens 50 sample_ids [1] sample_github_user [sample_installation] None before_login
     = Inr (\<lparr>ar_user_id = 1, ar_refresh_token = [1]\<rparr>, a')
     \<and> db_members (au_db a') = [member_row 9 2 0 MEMBER, member_row 40 1 50 OWNER]"
  by (simp add: login_eval auth_eval)

theorem github_login_members_witness:
  "\<exists>a'. synchronize_github_login sample_tokens 50 sample_ids [1] sample_github_user [sample_installation] None before_login
     = Inr (\<lparr>ar_user_id = 1, ar_refresh_token = [1]\<rparr>, a')
     \<and> (\<exists>m. db_members (au_db a') = [member_row 9 2 0 MEMBER, m]
          \<and> granted_by 50 1 3 (au_db a') sample_installation m \<and> mem_role m = OWNER)
     \<and> others 1 (au_db a') = others 1 (au_db before_login)"
proof -
  obtain a' where a': "synchronize_github_login sample_tokens 50 sample_ids [1] sample_github_user [sample_installation] None
      before_login = Inr (\<lparr>ar_user_id = 1, ar_refresh_token = [1]\<rparr>, a')"
    "db_members (au_db a') = [member_row 9 2 0 MEMBER, member_row 40 1 50 OWNER]"
    using sample_login by blast
  note login = github_login_members [OF a'(1)]
  have "granted_by 50 1 3 (au_db a') sample_installation (member_row 40 1 50 OWNER)"
    using conjunct1 [OF login] by (auto simp: a'(2) member_row_def sample_github_user_def)
  moreover have "others 1 (au_db a') = others 1 (au_db before_login)" using login by simp
  ultimately show ?thesis
    using a' by (intro exI [where x = a'] conjI exI [where x = "member_row 40 1 50 OWNER"]) (simp_all add: member_row_def)
qed

end
