(* ===== verification/Spec2Isabelle.thy ===== *)
theory Spec2Isabelle
  imports Freshness PyChunking DocChunking Discovery CallGraph Guarantees StoreContracts GraphPersistence IntakeContracts
    LateWorker Attempts CallersStable AuthLogin
begin

text \<open>
  Verification of the CodeNaut backend.
\<close>

end
